theory Spec2Isabelle
  imports Complex_Main "HOL-Library.Sublist"
begin

section \<open>JavaScript primitives used by the ranking code\<close>

text \<open>
  JavaScript numbers are modelled by \<^typ>\<open>real\<close>: rounding error, overflow to
  Infinity and NaN are outside the model. Strings are \<^typ>\<open>string\<close>; case folding
  covers the ASCII letters, which is all the fixed tables of the program contain.
\<close>

definition char_lower :: "char \<Rightarrow> char" where
  "char_lower c =
     (case map_of (zip ''ABCDEFGHIJKLMNOPQRSTUVWXYZ'' ''abcdefghijklmnopqrstuvwxyz'') c of
        None \<Rightarrow> c
      | Some d \<Rightarrow> d)"

definition toLowerCase :: "string \<Rightarrow> string" where
  "toLowerCase s = map char_lower s"

text \<open>\<open>s.includes(t)\<close>: \<open>t\<close> occurs in \<open>s\<close> as a contiguous substring.\<close>

fun str_includes :: "string \<Rightarrow> string \<Rightarrow> bool" where
  "str_includes [] t = (t = [])"
| "str_includes (c # s) t = (prefix t (c # s) \<or> str_includes s t)"

text \<open>\<open>Math.round\<close> rounds to the nearest integer, halves towards plus infinity.\<close>

definition Math_round :: "real \<Rightarrow> int" where
  "Math_round x = \<lfloor>x + 1 / 2\<rfloor>"

text \<open>
  A \<open>Date\<close> object, as far as the program reads it: \<open>getTime()\<close> in milliseconds,
  \<open>getMonth()\<close> (0 to 11) and \<open>getDay()\<close> (0 to 6). Parsing a date string and
  formatting a number inside a template literal belong to the JavaScript runtime; they
  are parameters of the model. A parser returns \<open>None\<close> for an Invalid Date, whose
  \<open>getTime()\<close> is NaN.
\<close>

record jsdate =
  getTime :: real
  getMonth :: nat
  getDay :: nat

type_synonym date_parser = "string \<Rightarrow> jsdate option"

type_synonym number_format = "real \<Rightarrow> string"


section \<open>Data model (types.ts)\<close>

record TicketPackage =
  pkgId :: string
  price :: real
  venue :: string
  date :: string
  sportType :: string
  seatingCategory :: string
  hospitalityType :: string
  hospitalityVenue :: string
  hospitalityLevel :: string
  location :: string
  availableTickets :: real
  description :: string

record Budget =
  bmin :: real
  bmax :: real

text \<open>Every field of \<open>UserPreferences\<close> is optional; \<open>None\<close> is \<open>undefined\<close>.\<close>

record UserPreferences =
  pref_location :: "string option"
  pref_peopleCount :: "real option"
  pref_sport :: "string option"
  pref_hospitalityType :: "string option"
  pref_date :: "string option"
  pref_budget :: "Budget option"

record RecommendationScore =
  package :: TicketPackage
  score :: int
  reasons :: "string list"


section \<open>Attribute matcher (recommendationEngine.ts)\<close>

text \<open>
  \<open>preferences.f && pkg.g.toLowerCase().includes(preferences.f.toLowerCase())\<close>:
  an undefined or empty preference string is falsy.
\<close>

definition prefMatches :: "string option \<Rightarrow> string \<Rightarrow> bool" where
  "prefMatches pref field =
     (case pref of
        None \<Rightarrow> False
      | Some p \<Rightarrow> p \<noteq> [] \<and> str_includes (toLowerCase field) (toLowerCase p))"

text \<open>\<open>preferences.peopleCount && pkg.availableTickets >= preferences.peopleCount\<close>:
  an undefined or zero count is falsy.\<close>

definition peopleMatches :: "real option \<Rightarrow> real \<Rightarrow> bool" where
  "peopleMatches pref avail =
     (case pref of None \<Rightarrow> False | Some n \<Rightarrow> n \<noteq> 0 \<and> n \<le> avail)"

text \<open>The six additive terms of \<open>calculateScore\<close>, in the order of the source.\<close>

definition locationTerm :: "TicketPackage \<Rightarrow> UserPreferences \<Rightarrow> real" where
  "locationTerm pkg prefs = (if prefMatches (pref_location prefs) (location pkg) then 30 else 0)"

definition sportTerm :: "TicketPackage \<Rightarrow> UserPreferences \<Rightarrow> real" where
  "sportTerm pkg prefs = (if prefMatches (pref_sport prefs) (sportType pkg) then 25 else 0)"

definition hospitalityTerm :: "TicketPackage \<Rightarrow> UserPreferences \<Rightarrow> real" where
  "hospitalityTerm pkg prefs =
     (if prefMatches (pref_hospitalityType prefs) (hospitalityType pkg) then 20 else 0)"

definition dateTerm :: "date_parser \<Rightarrow> TicketPackage \<Rightarrow> UserPreferences \<Rightarrow> real" where
  "dateTerm parseDate pkg prefs =
     (case pref_date prefs of
        None \<Rightarrow> 0
      | Some d \<Rightarrow>
          if d = [] then 0
          else (case parseDate d of
                  None \<Rightarrow> 0
                | Some prefDate \<Rightarrow>
                    (case parseDate (date pkg) of
                       None \<Rightarrow> 0
                     | Some pkgDate \<Rightarrow>
                         (let daysDiff = \<bar>(getTime pkgDate - getTime prefDate) / (1000 * 60 * 60 * 24)\<bar>
                          in if daysDiff \<le> 30 then 15 * (1 - daysDiff / 30) else 0))))"

definition peopleTerm :: "TicketPackage \<Rightarrow> UserPreferences \<Rightarrow> real" where
  "peopleTerm pkg prefs =
     (if peopleMatches (pref_peopleCount prefs) (availableTickets pkg) then 10 else 0)"

definition budgetTerm :: "TicketPackage \<Rightarrow> UserPreferences \<Rightarrow> real" where
  "budgetTerm pkg prefs =
     (case pref_budget prefs of
        None \<Rightarrow> 0
      | Some b \<Rightarrow>
          if bmin b \<le> price pkg \<and> price pkg \<le> bmax b then 20
          else if price pkg < bmin b then 10
          else 0)"

definition calculateScore :: "date_parser \<Rightarrow> TicketPackage \<Rightarrow> UserPreferences \<Rightarrow> int" where
  "calculateScore parseDate pkg prefs =
     Math_round (locationTerm pkg prefs + sportTerm pkg prefs + hospitalityTerm pkg prefs
                 + dateTerm parseDate pkg prefs + peopleTerm pkg prefs + budgetTerm pkg prefs)"

text \<open>The reason strings of \<open>getReasons\<close>, one per \<open>reasons.push\<close>.\<close>

definition locationReason :: "TicketPackage \<Rightarrow> string" where
  "locationReason pkg = ''Matches your location preference: '' @ location pkg"

definition sportReason :: "TicketPackage \<Rightarrow> string" where
  "sportReason pkg = ''Perfect for '' @ sportType pkg @ '' fans''"

definition hospitalityReason :: "TicketPackage \<Rightarrow> string" where
  "hospitalityReason pkg = ''Includes '' @ hospitalityType pkg @ '' experience''"

definition peopleReason :: "number_format \<Rightarrow> TicketPackage \<Rightarrow> string" where
  "peopleReason fmt pkg = ''Has '' @ fmt (availableTickets pkg) @ '' tickets available for your group''"

definition budgetReason :: "number_format \<Rightarrow> TicketPackage \<Rightarrow> string" where
  "budgetReason fmt pkg = ''Within your budget at $'' @ fmt (price pkg)"

definition budgetWithinMax :: "TicketPackage \<Rightarrow> UserPreferences \<Rightarrow> bool" where
  "budgetWithinMax pkg prefs =
     (case pref_budget prefs of None \<Rightarrow> False | Some b \<Rightarrow> price pkg \<le> bmax b)"

definition getReasons :: "number_format \<Rightarrow> TicketPackage \<Rightarrow> UserPreferences \<Rightarrow> string list" where
  "getReasons fmt pkg prefs =
     (if prefMatches (pref_location prefs) (location pkg) then [locationReason pkg] else [])
     @ (if prefMatches (pref_sport prefs) (sportType pkg) then [sportReason pkg] else [])
     @ (if prefMatches (pref_hospitalityType prefs) (hospitalityType pkg)
        then [hospitalityReason pkg] else [])
     @ (if peopleMatches (pref_peopleCount prefs) (availableTickets pkg)
        then [peopleReason fmt pkg] else [])
     @ (if budgetWithinMax pkg prefs then [budgetReason fmt pkg] else [])"

text \<open>
  \<open>scores.filter(...).sort((a, b) => b.score - a.score).slice(0, 5)\<close>. The sort is
  stable and descending in the score; \<^const>\<open>sort_key\<close> is a stable insertion sort.
\<close>

definition sortByScoreDesc :: "RecommendationScore list \<Rightarrow> RecommendationScore list" where
  "sortByScoreDesc rs = sort_key (\<lambda>r. - score r) rs"

definition findRecommendations ::
  "number_format \<Rightarrow> date_parser \<Rightarrow> TicketPackage list \<Rightarrow> UserPreferences \<Rightarrow> RecommendationScore list" where
  "findRecommendations fmt parseDate packages prefs =
     take 5 (sortByScoreDesc (filter (\<lambda>item. 0 < score item)
       (map (\<lambda>pkg. \<lparr>package = pkg,
                     score = calculateScore parseDate pkg prefs,
                     reasons = getReasons fmt pkg prefs\<rparr>) packages)))"


section \<open>Similarity scorer (cosineSimilarity, identical in both vector services)\<close>

text \<open>
  A computation of the model either returns a value or fails. \<open>Thrown\<close> is a
  JavaScript exception, which a \<open>try\<close>/\<open>catch\<close> can intercept. JavaScript's
  division does not raise: dividing by zero yields NaN or an infinity, neither of which
  is a real number. The model makes that outcome visible as \<open>DivisionByZero\<close>; no
  \<open>catch\<close> intercepts it.
\<close>

datatype js_error = Error string

datatype failure = Thrown js_error | DivisionByZero

definition js_divide :: "real \<Rightarrow> real \<Rightarrow> failure + real" where
  "js_divide x y = (if y = 0 then Inl DivisionByZero else Inr (x / y))"

text \<open>
  The scorer evaluated in exact real arithmetic, as the ranking functions below use it.
  The code computes in doubles; that evaluation, with its rounding, is the subject of
  the next section.
\<close>

text \<open>The \<open>for\<close> loop over \<open>i < a.length\<close>; it runs only when both lengths agree.\<close>

definition dotLoop :: "real list \<Rightarrow> real list \<Rightarrow> real \<times> real \<times> real" where
  "dotLoop a b =
     fold (\<lambda>i (dotProduct, normA, normB).
             (dotProduct + a ! i * b ! i, normA + a ! i * a ! i, normB + b ! i * b ! i))
          [0..<length a] (0, 0, 0)"

definition cosineSimilarity :: "real list \<Rightarrow> real list \<Rightarrow> failure + real" where
  "cosineSimilarity a b =
     (if length a \<noteq> length b then Inr 0
      else (case dotLoop a b of
              (dotProduct, normA, normB) \<Rightarrow>
                if normA = 0 \<or> normB = 0 then Inr 0
                else js_divide dotProduct (sqrt normA * sqrt normB)))"

text \<open>The squared magnitude of a vector, which the loop accumulates in \<open>normA\<close>.\<close>

definition sumSquares :: "real list \<Rightarrow> real" where
  "sumSquares a = (\<Sum>i<length a. a ! i * a ! i)"


section \<open>Similarity scorer in double-precision arithmetic\<close>

text \<open>
  A JavaScript number is an IEEE 754 binary64 value, and every arithmetic operation
  returns the exact result rounded to the nearest such value, ties to even. The
  definitions of this section follow \<open>cosineSimilarity\<close> operation by operation in
  that arithmetic; the statements about the value that the method returns are made for
  \<open>cosineSimilarityIEEE\<close>. The definition \<open>cosineSimilarity\<close> above, which the
  ranking functions call, evaluates the same expressions without rounding.
\<close>

subsection \<open>Rounding\<close>

text \<open>\<open>pow2 k\<close> is the power of two with the integer exponent \<open>k\<close>.\<close>

definition pow2 :: "int \<Rightarrow> real" where
  "pow2 k = 2 powr real_of_int k"

text \<open>The binade of a non-zero real \<open>x\<close>: the exponent \<open>e\<close> with \<open>2^e \<le> |x| < 2^(e+1)\<close>.\<close>

definition binade :: "real \<Rightarrow> int" where
  "binade x = \<lfloor>log 2 \<bar>x\<bar>\<rfloor>"

text \<open>
  The spacing of the doubles around \<open>x\<close>: 52 fraction bits in the normal range, and
  the fixed spacing \<open>2^-1074\<close> of the subnormal numbers below \<open>2^-1022\<close>.
\<close>

definition ulp :: "real \<Rightarrow> real" where
  "ulp x = pow2 (max (binade x) (- 1022) - 52)"

definition roundTiesToEven :: "real \<Rightarrow> int" where
  "roundTiesToEven y =
     (if y - of_int \<lfloor>y\<rfloor> < 1 / 2 then \<lfloor>y\<rfloor>
      else if 1 / 2 < y - of_int \<lfloor>y\<rfloor> then \<lfloor>y\<rfloor> + 1
      else if even \<lfloor>y\<rfloor> then \<lfloor>y\<rfloor>
      else \<lfloor>y\<rfloor> + 1)"

text \<open>The multiple of the spacing nearest to \<open>x\<close>, with no bound on the exponent.\<close>

definition roundToDouble :: "real \<Rightarrow> real" where
  "roundToDouble x = (if x = 0 then 0 else of_int (roundTiesToEven (x / ulp x)) * ulp x)"

subsection \<open>Numbers and their operations\<close>

text \<open>
  A number is a finite real, an infinity or NaN. The two zeros are not distinguished:
  they are equal under \<open>===\<close> and differ only as divisors.
\<close>

datatype number = Finite real | PosInfinity | NegInfinity | NaN

text \<open>
  The number that an operation with the exact result \<open>x\<close> returns: the rounded
  result, or an infinity when the rounded result is beyond the largest double.
\<close>

definition toNumber :: "real \<Rightarrow> number" where
  "toNumber x =
     (if pow2 1024 \<le> \<bar>roundToDouble x\<bar> then (if 0 < x then PosInfinity else NegInfinity)
      else Finite (roundToDouble x))"

fun number_add :: "number \<Rightarrow> number \<Rightarrow> number" where
  "number_add (Finite x) (Finite y) = toNumber (x + y)"
| "number_add NaN y = NaN"
| "number_add x NaN = NaN"
| "number_add PosInfinity NegInfinity = NaN"
| "number_add NegInfinity PosInfinity = NaN"
| "number_add PosInfinity y = PosInfinity"
| "number_add NegInfinity y = NegInfinity"
| "number_add (Finite x) y = y"

fun number_negate :: "number \<Rightarrow> number" where
  "number_negate (Finite x) = Finite (- x)"
| "number_negate PosInfinity = NegInfinity"
| "number_negate NegInfinity = PosInfinity"
| "number_negate NaN = NaN"

text \<open>The product of positive infinity with a number.\<close>

fun infinity_times :: "number \<Rightarrow> number" where
  "infinity_times (Finite y) = (if y = 0 then NaN else if 0 < y then PosInfinity else NegInfinity)"
| "infinity_times PosInfinity = PosInfinity"
| "infinity_times NegInfinity = NegInfinity"
| "infinity_times NaN = NaN"

fun number_mul :: "number \<Rightarrow> number \<Rightarrow> number" where
  "number_mul (Finite x) (Finite y) = toNumber (x * y)"
| "number_mul PosInfinity y = infinity_times y"
| "number_mul NegInfinity y = number_negate (infinity_times y)"
| "number_mul NaN y = NaN"
| "number_mul (Finite x) PosInfinity = infinity_times (Finite x)"
| "number_mul (Finite x) NegInfinity = number_negate (infinity_times (Finite x))"
| "number_mul (Finite x) NaN = NaN"

text \<open>\<open>Math.sqrt\<close>, the correctly rounded square root of IEEE 754.\<close>

fun number_sqrt :: "number \<Rightarrow> number" where
  "number_sqrt (Finite x) = (if x < 0 then NaN else toNumber (sqrt x))"
| "number_sqrt PosInfinity = PosInfinity"
| "number_sqrt NegInfinity = NaN"
| "number_sqrt NaN = NaN"

text \<open>
  Division. A division by zero, which in JavaScript yields NaN or an infinity, is the
  failure \<open>DivisionByZero\<close> of the model.
\<close>

fun number_div :: "number \<Rightarrow> number \<Rightarrow> failure + number" where
  "number_div x (Finite y) =
     (if y = 0 then Inl DivisionByZero
      else Inr (case x of
                  Finite a \<Rightarrow> toNumber (a / y)
                | PosInfinity \<Rightarrow> (if 0 < y then PosInfinity else NegInfinity)
                | NegInfinity \<Rightarrow> (if 0 < y then NegInfinity else PosInfinity)
                | NaN \<Rightarrow> NaN))"
| "number_div (Finite a) PosInfinity = Inr (Finite 0)"
| "number_div (Finite a) NegInfinity = Inr (Finite 0)"
| "number_div x y = Inr NaN"

subsection \<open>The scorer\<close>

definition dotLoopIEEE :: "number list \<Rightarrow> number list \<Rightarrow> number \<times> number \<times> number" where
  "dotLoopIEEE a b =
     fold (\<lambda>i (dotProduct, normA, normB).
             (number_add dotProduct (number_mul (a ! i) (b ! i)),
              number_add normA (number_mul (a ! i) (a ! i)),
              number_add normB (number_mul (b ! i) (b ! i))))
          [0..<length a] (Finite 0, Finite 0, Finite 0)"

definition cosineSimilarityIEEE :: "number list \<Rightarrow> number list \<Rightarrow> failure + number" where
  "cosineSimilarityIEEE a b =
     (if length a \<noteq> length b then Inr (Finite 0)
      else (case dotLoopIEEE a b of
              (dotProduct, normA, normB) \<Rightarrow>
                if normA = Finite 0 \<or> normB = Finite 0 then Inr (Finite 0)
                else number_div dotProduct (number_mul (number_sqrt normA) (number_sqrt normB))))"

subsection \<open>Auxiliary notions for the statements and the error analysis\<close>

text \<open>
  An entry of moderate size: zero, or of magnitude between \<open>2^-500\<close> and \<open>2^500\<close>.
  Products and sums of up to \<open>2^20\<close> products of such entries neither overflow nor
  fall below the normal range.
\<close>

fun moderate :: "number \<Rightarrow> bool" where
  "moderate (Finite x) = (x = 0 \<or> (pow2 (- 500) \<le> \<bar>x\<bar> \<and> \<bar>x\<bar> \<le> pow2 500))"
| "moderate PosInfinity = False"
| "moderate NegInfinity = False"
| "moderate NaN = False"

text \<open>One accumulator of the loop after \<open>n\<close> iterations.\<close>

definition accumulate :: "number list \<Rightarrow> number list \<Rightarrow> nat \<Rightarrow> number" where
  "accumulate x y n =
     fold (\<lambda>i acc. number_add acc (number_mul (x ! i) (y ! i))) [0..<n] (Finite 0)"

text \<open>Every double is an integer multiple of the smallest positive double \<open>2^-1074\<close>.\<close>

definition onGrid :: "real \<Rightarrow> bool" where
  "onGrid x = (\<exists>m :: int. x = of_int m * pow2 (- 1074))"

text \<open>
  The factor by which one rounding can enlarge a magnitude, \<open>1 / (1 - u)\<close> for the unit
  roundoff \<open>u = 2^-53\<close>, and the reals that are rounded with relative error at most
  \<open>u\<close>.
\<close>

definition growth :: real where
  "growth = 1 / (1 - pow2 (- 53))"

definition accurate :: "real \<Rightarrow> bool" where
  "accurate x = (\<bar>roundToDouble x - x\<bar> \<le> pow2 (- 53) * \<bar>x\<bar>)"

fun val :: "number \<Rightarrow> real" where
  "val (Finite x) = x"
| "val PosInfinity = 0"
| "val NegInfinity = 0"
| "val NaN = 0"


section \<open>Regular expression of the group-size extractors\<close>

text \<open>
  \<open>query.match(/(\d+)\s*(?:w1|w2|...)/)\<close> followed by \<open>parseInt(groupMatch[1])\<close>.
  The leftmost match wins. At a start position the greedy \<open>\d+\<close> takes the whole run
  of digits: giving a digit back would require one of the words to start with a digit.
  \<open>regexGroup\<close> returns capture group 1, \<open>None\<close> when there is no match. \<open>\s\<close>
  is modelled on the ASCII white space.
\<close>

definition isDigit :: "char \<Rightarrow> bool" where
  "isDigit c = (c \<in> set ''0123456789'')"

definition isSpace :: "char \<Rightarrow> bool" where
  "isSpace c = (c \<in> set [CHR '' '', CHR 0x09, CHR 0x0A, CHR 0x0B, CHR 0x0C, CHR 0x0D])"

definition matchHere :: "string list \<Rightarrow> string \<Rightarrow> string option" where
  "matchHere ws s =
     (let digits = takeWhile isDigit s;
          rest = dropWhile isSpace (dropWhile isDigit s)
      in if digits \<noteq> [] \<and> list_ex (\<lambda>w. prefix w rest) ws then Some digits else None)"

fun regexGroup :: "string list \<Rightarrow> string \<Rightarrow> string option" where
  "regexGroup ws [] = None"
| "regexGroup ws (c # s) =
     (case matchHere ws (c # s) of
        Some digits \<Rightarrow> Some digits
      | None \<Rightarrow> regexGroup ws s)"

definition digitValue :: "char \<Rightarrow> nat" where
  "digitValue c = length (takeWhile (\<lambda>d. d \<noteq> c) ''0123456789'')"

definition parseInt :: "string \<Rightarrow> real" where
  "parseInt digits = real (foldl (\<lambda>n c. 10 * n + digitValue c) 0 digits)"


section \<open>VectorRecommendationEngine (vectorRecommendationEngine.ts)\<close>

record VectorRecommendationEngine =
  vre_packages :: "TicketPackage list"
  vre_packageEmbeddings :: "string \<rightharpoonup> real list"

definition encodeLocation :: "string \<Rightarrow> real list" where
  "encodeLocation loc =
     map (\<lambda>city. if str_includes (toLowerCase loc) (toLowerCase city) then 1 else 0)
       [''New York'', ''Los Angeles'', ''Boston'', ''Chicago'', ''Dallas'', ''San Francisco'',
        ''Denver'', ''Green Bay'']"

definition encodeSport :: "string \<Rightarrow> real list" where
  "encodeSport sport =
     map (\<lambda>s. if toLowerCase sport = toLowerCase s then 1 else 0)
       [''Basketball'', ''Baseball'', ''Football'', ''Hockey'']"

text \<open>\<open>levels[level] || 0.5\<close> over the four level names.\<close>

definition encodeHospitalityLevel :: "string \<Rightarrow> real" where
  "encodeHospitalityLevel level =
     (if level = ''Bronze'' then 0.25
      else if level = ''Silver'' then 0.5
      else if level = ''Gold'' then 0.75
      else if level = ''Platinum'' then 1.0
      else 0.5)"

definition encodeVenuePrestige :: "string \<Rightarrow> real" where
  "encodeVenuePrestige v =
     (if list_ex (\<lambda>p. str_includes v p)
           [''Madison Square Garden'', ''Staples Center'', ''Fenway Park'', ''Lambeau Field'']
      then 1.0 else 0.5)"

definition vre_createPackageEmbedding :: "TicketPackage \<Rightarrow> real list" where
  "vre_createPackageEmbedding pkg =
     encodeLocation (location pkg)
     @ encodeSport (sportType pkg)
     @ [min (price pkg / 1000) 1,
        encodeHospitalityLevel (hospitalityLevel pkg),
        encodeVenuePrestige (venue pkg),
        0.5,
        min (availableTickets pkg / 50) 1]"

definition initializeEmbeddings :: "TicketPackage list \<Rightarrow> (string \<rightharpoonup> real list)" where
  "initializeEmbeddings pkgs =
     fold (\<lambda>pkg m. m(pkgId pkg \<mapsto> vre_createPackageEmbedding pkg)) pkgs Map.empty"

text \<open>
  The constructor, with the embedding loop run to completion. The loop is asynchronous:
  a query issued before it has finished sees the embeddings stored so far. The
  statements about \<open>findRecommendationsByQuery\<close> are made for every engine state.
\<close>

definition newVectorRecommendationEngine :: "TicketPackage list \<Rightarrow> VectorRecommendationEngine" where
  "newVectorRecommendationEngine pkgs =
     \<lparr>vre_packages = pkgs, vre_packageEmbeddings = initializeEmbeddings pkgs\<rparr>"

text \<open>
  The constructor calls \<open>initializeEmbeddings\<close> without awaiting it, and every
  iteration of the loop awaits \<open>createPackageEmbedding\<close>: the iterations complete one
  by one while the caller runs on. \<open>engineAfter j pkgs\<close> is the engine when \<open>j\<close>
  iterations have completed.
\<close>

definition engineAfter :: "nat \<Rightarrow> TicketPackage list \<Rightarrow> VectorRecommendationEngine" where
  "engineAfter j pkgs =
     \<lparr>vre_packages = pkgs, vre_packageEmbeddings = initializeEmbeddings (take j pkgs)\<rparr>"

definition vre_extractLocationFromQuery :: "string \<Rightarrow> real list" where
  "vre_extractLocationFromQuery query =
     map (\<lambda>city. if str_includes query city then 1 else 0)
       [''new york'', ''los angeles'', ''boston'', ''chicago'', ''dallas'', ''san francisco'',
        ''denver'', ''green bay'']"

fun indexOf :: "'a list \<Rightarrow> 'a \<Rightarrow> nat option" where
  "indexOf [] x = None"
| "indexOf (y # ys) x = (if y = x then Some 0 else map_option Suc (indexOf ys x))"

definition vre_extractSportFromQuery :: "string \<Rightarrow> real list" where
  "vre_extractSportFromQuery query =
     (let sports = [''basketball'', ''baseball'', ''football'', ''hockey''];
          teams = [(''knicks'', ''basketball''), (''lakers'', ''basketball''),
                   (''celtics'', ''basketball''), (''bulls'', ''basketball''),
                   (''yankees'', ''baseball''), (''red sox'', ''baseball''),
                   (''cowboys'', ''football''), (''patriots'', ''football'')];
          sportVector = map (\<lambda>sport. if str_includes query sport then 1 else 0) sports
      in fold (\<lambda>(team, sport) sv.
                 if str_includes query team
                 then (case indexOf sports sport of Some i \<Rightarrow> sv[i := 1] | None \<Rightarrow> sv)
                 else sv)
              teams sportVector)"

definition extractPricePreferenceFromQuery :: "string \<Rightarrow> real" where
  "extractPricePreferenceFromQuery query =
     (if str_includes query ''cheap'' \<or> str_includes query ''budget'' \<or> str_includes query ''under''
      then 0.2
      else if str_includes query ''premium'' \<or> str_includes query ''expensive''
              \<or> str_includes query ''luxury''
      then 0.9
      else if str_includes query ''vip'' then 1.0
      else 0.5)"

definition extractHospitalityFromQuery :: "string \<Rightarrow> real" where
  "extractHospitalityFromQuery query =
     (if str_includes query ''vip'' \<or> str_includes query ''premium'' \<or> str_includes query ''luxury''
      then 1.0
      else if str_includes query ''club'' \<or> str_includes query ''lounge'' then 0.75
      else if str_includes query ''basic'' \<or> str_includes query ''standard'' then 0.25
      else 0.5)"

definition extractGroupSizeInfluence :: "string \<Rightarrow> real" where
  "extractGroupSizeInfluence query =
     (case regexGroup [''people'', ''person'', ''group'', ''friends''] query of
        Some digits \<Rightarrow> min (parseInt digits / 10) 1
      | None \<Rightarrow> 0.5)"

definition vre_createQueryEmbedding :: "string \<Rightarrow> real list" where
  "vre_createQueryEmbedding query =
     (let lowerQuery = toLowerCase query
      in vre_extractLocationFromQuery lowerQuery
         @ vre_extractSportFromQuery lowerQuery
         @ [extractPricePreferenceFromQuery lowerQuery,
            extractHospitalityFromQuery lowerQuery,
            0.5,
            0.5,
            extractGroupSizeInfluence lowerQuery])"

text \<open>
  The reasons shared by both \<open>generateReasons\<close> methods, up to and including the VIP
  hospitality rule.
\<close>

definition matchReasons :: "number_format \<Rightarrow> string \<Rightarrow> TicketPackage \<Rightarrow> string list" where
  "matchReasons fmt query pkg =
     (let lowerQuery = toLowerCase query
      in (if str_includes lowerQuery (toLowerCase (location pkg))
          then [''Located in '' @ location pkg @ '' as requested''] else [])
         @ (if str_includes lowerQuery (toLowerCase (sportType pkg))
            then [''Perfect for '' @ sportType pkg @ '' fans''] else [])
         @ (if (str_includes lowerQuery ''budget'' \<or> str_includes lowerQuery ''cheap'')
               \<and> price pkg < 200
            then [''Budget-friendly at $'' @ fmt (price pkg)] else [])
         @ (if (str_includes lowerQuery ''premium'' \<or> str_includes lowerQuery ''vip'')
               \<and> (hospitalityLevel pkg = ''Platinum'' \<or> hospitalityLevel pkg = ''Gold'')
            then [''Premium '' @ hospitalityLevel pkg @ '' experience''] else [])
         @ (if str_includes lowerQuery ''vip'' \<and> str_includes (hospitalityType pkg) ''VIP''
            then [''Includes VIP access and amenities''] else []))"

definition vre_generateReasons :: "number_format \<Rightarrow> string \<Rightarrow> TicketPackage \<Rightarrow> real \<Rightarrow> string list" where
  "vre_generateReasons fmt query pkg similarity =
     (let reasons = matchReasons fmt query pkg
                    @ (if 0.8 < similarity then [''Excellent match for your preferences''] else [])
      in if reasons \<noteq> [] then reasons
         else [''Good option with '' @ fmt (of_int (Math_round (similarity * 100))) @ ''% match''])"

text \<open>
  The scoring loop of \<open>findRecommendationsByQuery\<close>. A package without a cached
  embedding is skipped; a failing similarity computation ends the loop with the failure.
\<close>

fun vre_scoreLoop ::
  "number_format \<Rightarrow> (string \<rightharpoonup> real list) \<Rightarrow> string \<Rightarrow> real list \<Rightarrow> TicketPackage list
   \<Rightarrow> failure + RecommendationScore list" where
  "vre_scoreLoop fmt emb query queryEmbedding [] = Inr []"
| "vre_scoreLoop fmt emb query queryEmbedding (pkg # pkgs) =
     (case emb (pkgId pkg) of
        None \<Rightarrow> vre_scoreLoop fmt emb query queryEmbedding pkgs
      | Some packageEmbedding \<Rightarrow>
          (case cosineSimilarity queryEmbedding packageEmbedding of
             Inl e \<Rightarrow> Inl e
           | Inr similarity \<Rightarrow>
               (case vre_scoreLoop fmt emb query queryEmbedding pkgs of
                  Inl e \<Rightarrow> Inl e
                | Inr scores \<Rightarrow>
                    Inr (\<lparr>package = pkg,
                          score = Math_round (similarity * 100),
                          reasons = vre_generateReasons fmt query pkg similarity\<rparr> # scores))))"

definition vre_findRecommendationsByQuery ::
  "number_format \<Rightarrow> VectorRecommendationEngine \<Rightarrow> string \<Rightarrow> failure + RecommendationScore list" where
  "vre_findRecommendationsByQuery fmt eng query =
     (case vre_scoreLoop fmt (vre_packageEmbeddings eng) query (vre_createQueryEmbedding query)
             (vre_packages eng) of
        Inl e \<Rightarrow> Inl e
      | Inr scores \<Rightarrow>
          Inr (take 5 (sortByScoreDesc (filter (\<lambda>item. 30 < score item) scores))))"


section \<open>FAISSSearchService (faissSearchService.ts)\<close>

text \<open>
  The \<open>faiss-node\<close> package is not part of the program; the model takes it as a
  parameter. \<open>'idx\<close> is the state of an index object; each method either throws
  (\<open>Inl\<close>) or returns. \<open>index_add\<close> receives the flattened vectors and returns the
  index after the insertion. The conversion of the vectors to \<open>Float32Array\<close> rounds
  to single precision; the real-valued model omits it.
\<close>

record SearchResult =
  labels :: "int list"
  distances :: "real list"

record 'idx faiss_node =
  IndexFlatIP :: "nat \<Rightarrow> js_error + 'idx"
  index_add :: "'idx \<Rightarrow> real list \<Rightarrow> js_error + 'idx"
  index_search :: "'idx \<Rightarrow> real list \<Rightarrow> int \<Rightarrow> js_error + SearchResult"

record 'idx FAISSSearchService =
  faissIndex :: "'idx option"
  fss_packages :: "TicketPackage list"
  fss_packageEmbeddings :: "string \<rightharpoonup> real list"
  isInitialized :: bool

definition embeddingDimension :: nat where
  "embeddingDimension = 384"

text \<open>The field initialisers and the constructor body before \<open>initializeIndex\<close> runs.\<close>

definition newFAISSSearchService :: "TicketPackage list \<Rightarrow> 'idx FAISSSearchService" where
  "newFAISSSearchService pkgs =
     \<lparr>faissIndex = None, fss_packages = pkgs, fss_packageEmbeddings = Map.empty,
      isInitialized = False\<rparr>"

text \<open>\<open>while (features.length < D) features.push(0); return features.slice(0, D)\<close>\<close>

definition padToDimension :: "real list \<Rightarrow> real list" where
  "padToDimension features =
     take embeddingDimension (features @ replicate (embeddingDimension - length features) 0)"

text \<open>
  \<open>for (const [key, value] of Object.entries(table)) if (text.includes(key)) return value\<close>:
  the first key, in insertion order, that occurs in the text.
\<close>

definition firstIncluded :: "string \<Rightarrow> (string \<times> 'a) list \<Rightarrow> 'a option" where
  "firstIncluded txt table = map_option snd (find (\<lambda>(key, v). str_includes txt key) table)"

text \<open>\<open>condition ? 1 : 0\<close>\<close>

definition flag :: "bool \<Rightarrow> real" where
  "flag b = (if b then 1 else 0)"

subsection \<open>Catalogue-side encoders\<close>

definition encodeLocationWithProximity :: "string \<Rightarrow> real list" where
  "encodeLocationWithProximity loc =
     (case firstIncluded (toLowerCase loc)
             [(''new york'', [1, 0, 0, 0, 0, 0, 0, 0, 0.8, 0.3]),
              (''los angeles'', [0, 1, 0, 0, 0, 0, 0, 0, 0.2, 0.9]),
              (''boston'', [0, 0, 1, 0, 0, 0, 0, 0, 0.9, 0.1]),
              (''chicago'', [0, 0, 0, 1, 0, 0, 0, 0, 0.4, 0.4]),
              (''dallas'', [0, 0, 0, 0, 1, 0, 0, 0, 0.1, 0.6]),
              (''san francisco'', [0, 0, 0, 0, 0, 1, 0, 0, 0.1, 0.8]),
              (''denver'', [0, 0, 0, 0, 0, 0, 1, 0, 0.2, 0.2]),
              (''green bay'', [0, 0, 0, 0, 0, 0, 0, 1, 0.3, 0.1])] of
        Some encoding \<Rightarrow> encoding
      | None \<Rightarrow> [0, 0, 0, 0, 0, 0, 0, 0, 0.5, 0.5])"

definition sportFeatures :: "(string \<times> real list) list" where
  "sportFeatures =
     [(''basketball'', [1, 0, 0, 0, 0.9, 0.8, 0.7]),
      (''baseball'', [0, 1, 0, 0, 0.6, 0.9, 0.8]),
      (''football'', [0, 0, 1, 0, 0.7, 0.6, 0.9]),
      (''hockey'', [0, 0, 0, 1, 0.8, 0.7, 0.8])]"

definition encodeSportWithTeams :: "string \<Rightarrow> real list" where
  "encodeSportWithTeams sport =
     (case firstIncluded (toLowerCase sport) sportFeatures of
        Some features \<Rightarrow> features
      | None \<Rightarrow> [0, 0, 0, 0, 0.5, 0.5, 0.5])"

definition encodePriceFeatures :: "real \<Rightarrow> real list" where
  "encodePriceFeatures p =
     [min (p / 1000) 1,
      flag (p < 100),
      flag (100 \<le> p \<and> p < 500),
      flag (500 \<le> p \<and> p < 1000),
      flag (1000 \<le> p),
      ln (p + 1) / 10]"

text \<open>The inline level table with \<open>|| 0.5\<close> is the one of \<open>encodeHospitalityLevel\<close>.\<close>

definition encodeHospitalityFeatures :: "string \<Rightarrow> string \<Rightarrow> real list" where
  "encodeHospitalityFeatures level type =
     [encodeHospitalityLevel level,
      flag (str_includes (toLowerCase type) ''vip''),
      flag (str_includes (toLowerCase type) ''club''),
      flag (str_includes (toLowerCase type) ''premium''),
      flag (str_includes (toLowerCase type) ''standard'')]"

definition encodeVenueFeatures :: "string \<Rightarrow> real list" where
  "encodeVenueFeatures v =
     (let lowerVenue = toLowerCase v
      in [if list_ex (\<lambda>p. str_includes lowerVenue p)
               [''madison square garden'', ''staples center'', ''fenway park'',
                ''lambeau field'', ''yankee stadium'', ''td garden'']
          then 1 else 0.5,
          flag (str_includes lowerVenue ''center'' \<or> str_includes lowerVenue ''arena''),
          flag (str_includes lowerVenue ''stadium''),
          flag (str_includes lowerVenue ''field'' \<or> str_includes lowerVenue ''park'')])"

definition encodeDateFeatures :: "jsdate \<Rightarrow> jsdate \<Rightarrow> real list" where
  "encodeDateFeatures now eventDate =
     (let daysDiff = \<bar>(getTime eventDate - getTime now) / (1000 * 60 * 60 * 24)\<bar>
      in [min (daysDiff / 365) 1,
          real (getMonth eventDate) / 12,
          real (getDay eventDate) / 7,
          flag (daysDiff < 7),
          flag (daysDiff < 30)])"

definition encodeAvailabilityFeatures :: "real \<Rightarrow> real list" where
  "encodeAvailabilityFeatures available =
     [min (available / 100) 1,
      flag (50 < available),
      flag (available < 10),
      flag (available = 0)]"

definition encodeTextFeatures :: "string \<Rightarrow> real list" where
  "encodeTextFeatures desc =
     map (\<lambda>keyword. flag (str_includes (toLowerCase desc) keyword))
       [''luxury'', ''premium'', ''exclusive'', ''family'', ''group'', ''corporate'', ''special'']"

definition encodeSeatingFeatures :: "string \<Rightarrow> real list" where
  "encodeSeatingFeatures category =
     (let lowerCategory = toLowerCase category
      in [flag (str_includes lowerCategory ''floor'' \<or> str_includes lowerCategory ''court''),
          flag (str_includes lowerCategory ''lower''),
          flag (str_includes lowerCategory ''upper''),
          flag (str_includes lowerCategory ''suite'' \<or> str_includes lowerCategory ''box''),
          flag (str_includes lowerCategory ''club'')])"

text \<open>
  \<open>createPackageEmbedding\<close>. \<open>now\<close> is the clock reading of \<open>new Date()\<close> and
  \<open>eventDateOf\<close> gives \<open>new Date(pkg.date)\<close>, taken to be a valid date: an Invalid
  Date would put NaN into the vector. The price is taken to be above -1, where the
  logarithm is a number. \<open>pkg.description || ''\<close> is the description itself.
\<close>

definition packageFeatures :: "jsdate \<Rightarrow> (string \<Rightarrow> jsdate) \<Rightarrow> TicketPackage \<Rightarrow> real list" where
  "packageFeatures now eventDateOf pkg =
     encodeLocationWithProximity (location pkg)
     @ encodeSportWithTeams (sportType pkg)
     @ encodePriceFeatures (price pkg)
     @ encodeHospitalityFeatures (hospitalityLevel pkg) (hospitalityType pkg)
     @ encodeVenueFeatures (venue pkg)
     @ encodeDateFeatures now (eventDateOf (date pkg))
     @ encodeAvailabilityFeatures (availableTickets pkg)
     @ encodeTextFeatures (description pkg)
     @ encodeSeatingFeatures (seatingCategory pkg)"

definition fss_createPackageEmbedding :: "jsdate \<Rightarrow> (string \<Rightarrow> jsdate) \<Rightarrow> TicketPackage \<Rightarrow> real list" where
  "fss_createPackageEmbedding now eventDateOf pkg = padToDimension (packageFeatures now eventDateOf pkg)"

text \<open>
  \<open>generatePackageEmbeddings\<close>. Its \<open>catch\<close> branch (\<open>createFallbackEmbedding\<close>,
  padded with \<open>Math.random()\<close>) runs only when \<open>createPackageEmbedding\<close> throws, which
  no well-typed \<open>TicketPackage\<close> causes; it has no counterpart in the model. The clock
  is read once per package; the model uses one reading for the loop.
\<close>

definition generatePackageEmbeddings ::
  "jsdate \<Rightarrow> (string \<Rightarrow> jsdate) \<Rightarrow> TicketPackage list \<Rightarrow> (string \<rightharpoonup> real list)
   \<Rightarrow> (string \<rightharpoonup> real list)" where
  "generatePackageEmbeddings now eventDateOf pkgs emb =
     fold (\<lambda>pkg m. m(pkgId pkg \<mapsto> fss_createPackageEmbedding now eventDateOf pkg)) pkgs emb"

definition buildIndex ::
  "'idx faiss_node \<Rightarrow> 'idx FAISSSearchService \<Rightarrow> js_error + 'idx FAISSSearchService" where
  "buildIndex faiss st =
     (case faissIndex st of
        None \<Rightarrow> Inr st
      | Some idx \<Rightarrow>
          (let embeddings = List.map_filter (\<lambda>pkg. fss_packageEmbeddings st (pkgId pkg)) (fss_packages st)
           in if length embeddings = 0 then Inl (Error ''No valid embeddings found'')
              else (case index_add faiss idx (concat embeddings) of
                      Inl e \<Rightarrow> Inl e
                    | Inr idx' \<Rightarrow> Inr (st\<lparr>faissIndex := Some idx'\<rparr>))))"

text \<open>
  \<open>initializeIndex\<close>, run to completion. \<open>imported\<close> is the outcome of
  \<open>await import('faiss-node')\<close>. Every exception of the \<open>try\<close> block ends in the
  \<open>catch\<close>, which leaves \<open>isInitialized\<close> false and keeps the assignments made so far.
\<close>

definition initializeIndex ::
  "js_error + 'idx faiss_node \<Rightarrow> jsdate \<Rightarrow> (string \<Rightarrow> jsdate) \<Rightarrow> 'idx FAISSSearchService
   \<Rightarrow> 'idx FAISSSearchService" where
  "initializeIndex imported now eventDateOf st =
     (case imported of
        Inl e \<Rightarrow> st\<lparr>isInitialized := False\<rparr>
      | Inr faiss \<Rightarrow>
          (case IndexFlatIP faiss embeddingDimension of
             Inl e \<Rightarrow> st\<lparr>isInitialized := False\<rparr>
           | Inr idx \<Rightarrow>
               (let st1 = st\<lparr>faissIndex := Some idx\<rparr>;
                    st2 = st1\<lparr>fss_packageEmbeddings :=
                            generatePackageEmbeddings now eventDateOf (fss_packages st1)
                              (fss_packageEmbeddings st1)\<rparr>
                in case buildIndex faiss st2 of
                     Inl e \<Rightarrow> st2\<lparr>isInitialized := False\<rparr>
                   | Inr st3 \<Rightarrow> st3\<lparr>isInitialized := True\<rparr>)))"

subsection \<open>Query-side encoders\<close>

definition fss_extractLocationFromQuery :: "string \<Rightarrow> real list" where
  "fss_extractLocationFromQuery query =
     (case firstIncluded query
             [(''new york'', [1, 0, 0, 0, 0, 0, 0, 0, 0.8, 0.3]),
              (''nyc'', [1, 0, 0, 0, 0, 0, 0, 0, 0.8, 0.3]),
              (''los angeles'', [0, 1, 0, 0, 0, 0, 0, 0, 0.2, 0.9]),
              (''la'', [0, 1, 0, 0, 0, 0, 0, 0, 0.2, 0.9]),
              (''boston'', [0, 0, 1, 0, 0, 0, 0, 0, 0.9, 0.1]),
              (''chicago'', [0, 0, 0, 1, 0, 0, 0, 0, 0.4, 0.4]),
              (''dallas'', [0, 0, 0, 0, 1, 0, 0, 0, 0.1, 0.6]),
              (''san francisco'', [0, 0, 0, 0, 0, 1, 0, 0, 0.1, 0.8]),
              (''sf'', [0, 0, 0, 0, 0, 1, 0, 0, 0.1, 0.8]),
              (''denver'', [0, 0, 0, 0, 0, 0, 1, 0, 0.2, 0.2]),
              (''green bay'', [0, 0, 0, 0, 0, 0, 0, 1, 0.3, 0.1])] of
        Some encoding \<Rightarrow> encoding
      | None \<Rightarrow> [0, 0, 0, 0, 0, 0, 0, 0, 0.5, 0.5])"

text \<open>\<open>sports[sport] || [0, 0, 0, 0, 0.5, 0.5, 0.5]\<close> for the sport of a team.\<close>

definition fss_extractSportFromQuery :: "string \<Rightarrow> real list" where
  "fss_extractSportFromQuery query =
     (case firstIncluded query sportFeatures of
        Some features \<Rightarrow> features
      | None \<Rightarrow>
          (case firstIncluded query
                  [(''knicks'', ''basketball''), (''lakers'', ''basketball''),
                   (''celtics'', ''basketball''), (''bulls'', ''basketball''),
                   (''yankees'', ''baseball''), (''red sox'', ''baseball''),
                   (''dodgers'', ''baseball''),
                   (''cowboys'', ''football''), (''patriots'', ''football''),
                   (''packers'', ''football'')] of
             Some sport \<Rightarrow>
               (case map_of sportFeatures sport of
                  Some features \<Rightarrow> features
                | None \<Rightarrow> [0, 0, 0, 0, 0.5, 0.5, 0.5])
           | None \<Rightarrow> [0, 0, 0, 0, 0.5, 0.5, 0.5]))"

definition extractPricePreferences :: "string \<Rightarrow> real list" where
  "extractPricePreferences query =
     (case (if str_includes query ''cheap'' \<or> str_includes query ''budget''
               \<or> str_includes query ''affordable''
            then (0.2, 1, 0, 0, 0)
            else if str_includes query ''premium'' \<or> str_includes query ''expensive''
            then (0.8, 0, 0, 1, 0)
            else if str_includes query ''vip'' \<or> str_includes query ''luxury''
            then (1.0, 0, 0, 0, 1)
            else if str_includes query ''mid'' \<or> str_includes query ''moderate''
            then (0.5, 0, 1, 0, 0)
            else (0.5, 0, 0, 0, 0)) of
        (priceLevel, budget, mid, premium, luxury) \<Rightarrow>
          [priceLevel, budget, mid, premium, luxury, ln (priceLevel * 1000 + 1) / 10])"

definition extractHospitalityPreferences :: "string \<Rightarrow> real list" where
  "extractHospitalityPreferences query =
     (if str_includes query ''vip'' then [1.0, 1, 0, 0, 0]
      else if str_includes query ''club'' then [0.75, 0, 1, 0, 0]
      else if str_includes query ''premium'' then [0.75, 0, 0, 1, 0]
      else if str_includes query ''standard'' \<or> str_includes query ''basic'' then [0.25, 0, 0, 0, 1]
      else [0.5, 0, 0, 0, 0])"

definition extractVenuePreferences :: "string \<Rightarrow> real list" where
  "extractVenuePreferences query =
     [0.5,
      flag (str_includes query ''center'' \<or> str_includes query ''arena''),
      flag (str_includes query ''stadium''),
      flag (str_includes query ''field'' \<or> str_includes query ''park'')]"

definition extractDatePreferences :: "jsdate \<Rightarrow> string \<Rightarrow> real list" where
  "extractDatePreferences now query =
     (let timePreference =
            (if str_includes query ''tonight'' \<or> str_includes query ''today'' then 0.1
             else if str_includes query ''this week'' then 0.2
             else if str_includes query ''this month'' then 0.3
             else if str_includes query ''next month'' then 0.5
             else 0.5)
      in [timePreference,
          real (getMonth now) / 12,
          real (getDay now) / 7,
          flag (str_includes query ''week''),
          flag (str_includes query ''month'')])"

definition extractGroupPreferences :: "string \<Rightarrow> real list" where
  "extractGroupPreferences query =
     (case (case regexGroup [''people'', ''person'', ''group'', ''friends'', ''family''] query of
              Some digits \<Rightarrow>
                (let groupSize = parseInt digits
                 in (min (groupSize / 10) 1, if 4 < groupSize then 0.8 else 0.5))
            | None \<Rightarrow> (0.5, 0.5)) of
        (size', availability) \<Rightarrow>
          [size',
           flag (str_includes query ''group''),
           flag (str_includes query ''family''),
           flag ((0.5 :: real) < availability)])"

definition extractIntentFeatures :: "string \<Rightarrow> real list" where
  "extractIntentFeatures query =
     [flag (str_includes query ''luxury''),
      flag (str_includes query ''family''),
      flag (str_includes query ''corporate''),
      flag (str_includes query ''date'' \<or> str_includes query ''romantic''),
      flag (str_includes query ''celebration'' \<or> str_includes query ''special''),
      flag (str_includes query ''business''),
      flag (str_includes query ''entertainment'')]"

definition extractSeatingPreferences :: "string \<Rightarrow> real list" where
  "extractSeatingPreferences query =
     [flag (str_includes query ''floor'' \<or> str_includes query ''court''),
      flag (str_includes query ''lower''),
      flag (str_includes query ''upper''),
      flag (str_includes query ''suite'' \<or> str_includes query ''box''),
      flag (str_includes query ''club'')]"

definition queryFeatures :: "jsdate \<Rightarrow> string \<Rightarrow> real list" where
  "queryFeatures now query =
     (let lowerQuery = toLowerCase query
      in fss_extractLocationFromQuery lowerQuery
         @ fss_extractSportFromQuery lowerQuery
         @ extractPricePreferences lowerQuery
         @ extractHospitalityPreferences lowerQuery
         @ extractVenuePreferences lowerQuery
         @ extractDatePreferences now lowerQuery
         @ extractGroupPreferences lowerQuery
         @ extractIntentFeatures lowerQuery
         @ extractSeatingPreferences lowerQuery)"

definition fss_createQueryEmbedding :: "jsdate \<Rightarrow> string \<Rightarrow> real list" where
  "fss_createQueryEmbedding now query = padToDimension (queryFeatures now query)"

subsection \<open>Ranking\<close>

definition fss_generateReasons :: "number_format \<Rightarrow> string \<Rightarrow> TicketPackage \<Rightarrow> real \<Rightarrow> string list" where
  "fss_generateReasons fmt query pkg similarity =
     (let reasons = matchReasons fmt query pkg
                    @ (if 0.8 < similarity then [''Excellent match for your preferences'']
                       else if 0.6 < similarity then [''Good match for your requirements'']
                       else [])
      in if reasons \<noteq> [] then reasons
         else [fmt (of_int (Math_round (similarity * 100))) @ ''% match for your search''])"

text \<open>
  \<open>fallbackSearch\<close> binds \<open>queryEmbedding\<close> to the result of the \<open>async\<close> method
  \<open>createQueryEmbedding\<close> without awaiting it, so \<open>cosineSimilarity\<close> receives a
  pending Promise. A Promise has no \<open>length\<close>: \<open>a.length !== b.length\<close> compares
  \<open>undefined\<close> with a number, and the method returns 0.
\<close>

datatype embedding_value = Resolved "real list" | Pending "real list"

definition fss_cosineSimilarity :: "embedding_value \<Rightarrow> real list \<Rightarrow> failure + real" where
  "fss_cosineSimilarity a b =
     (case a of
        Resolved v \<Rightarrow> cosineSimilarity v b
      | Pending v \<Rightarrow> Inr 0)"

fun fss_scoreLoop ::
  "number_format \<Rightarrow> (string \<rightharpoonup> real list) \<Rightarrow> string \<Rightarrow> embedding_value \<Rightarrow> TicketPackage list
   \<Rightarrow> failure + RecommendationScore list" where
  "fss_scoreLoop fmt emb query queryEmbedding [] = Inr []"
| "fss_scoreLoop fmt emb query queryEmbedding (pkg # pkgs) =
     (case emb (pkgId pkg) of
        None \<Rightarrow> fss_scoreLoop fmt emb query queryEmbedding pkgs
      | Some packageEmbedding \<Rightarrow>
          (case fss_cosineSimilarity queryEmbedding packageEmbedding of
             Inl e \<Rightarrow> Inl e
           | Inr similarity \<Rightarrow>
               (case fss_scoreLoop fmt emb query queryEmbedding pkgs of
                  Inl e \<Rightarrow> Inl e
                | Inr scores \<Rightarrow>
                    Inr (\<lparr>package = pkg,
                          score = Math_round (similarity * 100),
                          reasons = fss_generateReasons fmt query pkg similarity\<rparr> # scores))))"

text \<open>\<open>xs.slice(0, k)\<close>; a negative \<open>k\<close> counts from the end.\<close>

definition slice0 :: "int \<Rightarrow> 'a list \<Rightarrow> 'a list" where
  "slice0 k xs = (if k < 0 then take (nat (int (length xs) + k)) xs else take (nat k) xs)"

text \<open>The body of \<open>fallbackSearch\<close> for a given value of \<open>queryEmbedding\<close>.\<close>

definition linearScan ::
  "number_format \<Rightarrow> 'idx FAISSSearchService \<Rightarrow> embedding_value \<Rightarrow> string \<Rightarrow> int
   \<Rightarrow> failure + RecommendationScore list" where
  "linearScan fmt st queryEmbedding query k =
     (case fss_scoreLoop fmt (fss_packageEmbeddings st) query queryEmbedding (fss_packages st) of
        Inl e \<Rightarrow> Inl e
      | Inr scores \<Rightarrow>
          Inr (slice0 k (sortByScoreDesc (filter (\<lambda>item. 30 < score item) scores))))"

definition fallbackSearch ::
  "number_format \<Rightarrow> jsdate \<Rightarrow> 'idx FAISSSearchService \<Rightarrow> string \<Rightarrow> int
   \<Rightarrow> failure + RecommendationScore list" where
  "fallbackSearch fmt now st query k =
     linearScan fmt st (Pending (fss_createQueryEmbedding now query)) query k"

text \<open>
  The loop over \<open>results.labels\<close>. When \<open>results.distances\<close> is shorter than
  \<open>results.labels\<close> the similarity is \<open>undefined\<close> and the score NaN, which the
  final \<open>filter(r => r.score > 30)\<close> discards; the model leaves such an entry out.
\<close>

definition resultEntry ::
  "number_format \<Rightarrow> TicketPackage list \<Rightarrow> string \<Rightarrow> int \<Rightarrow> real \<Rightarrow> RecommendationScore list" where
  "resultEntry fmt pkgs query packageIndex similarity =
     (if 0 \<le> packageIndex \<and> packageIndex < int (length pkgs)
      then [\<lparr>package = pkgs ! nat packageIndex,
              score = Math_round (max 0 (similarity * 100)),
              reasons = fss_generateReasons fmt query (pkgs ! nat packageIndex) similarity\<rparr>]
      else [])"

definition resultsLoop ::
  "number_format \<Rightarrow> TicketPackage list \<Rightarrow> string \<Rightarrow> SearchResult \<Rightarrow> RecommendationScore list" where
  "resultsLoop fmt pkgs query results =
     concat (map (\<lambda>i. if i < length (distances results)
                       then resultEntry fmt pkgs query (labels results ! i) (distances results ! i)
                       else [])
                 [0..<length (labels results)])"

text \<open>
  \<open>findRecommendationsByQuery\<close>. \<open>faiss\<close> supplies the \<open>search\<close> method of the index
  object. The \<open>catch\<close> intercepts every exception of the \<open>try\<close> block.
\<close>

definition fss_findRecommendationsByQuery ::
  "'idx faiss_node \<Rightarrow> number_format \<Rightarrow> jsdate \<Rightarrow> 'idx FAISSSearchService \<Rightarrow> string \<Rightarrow> int
   \<Rightarrow> failure + RecommendationScore list" where
  "fss_findRecommendationsByQuery faiss fmt now st query k =
     (case faissIndex st of
        None \<Rightarrow> fallbackSearch fmt now st query k
      | Some idx \<Rightarrow>
          if isInitialized st
          then (case index_search faiss idx (fss_createQueryEmbedding now query) k of
                  Inl e \<Rightarrow> fallbackSearch fmt now st query k
                | Inr results \<Rightarrow>
                    Inr (filter (\<lambda>r. 30 < score r) (resultsLoop fmt (fss_packages st) query results)))
          else fallbackSearch fmt now st query k)"


section \<open>Calls of the ranking operations\<close>

text \<open>
  What a call of a ranking operation finds besides its arguments: the reading of the
  clock (\<open>new Date()\<close>) and the number of iterations that the embedding loop started
  by the constructor of \<open>VectorRecommendationEngine\<close> has completed.
\<close>

record environment =
  env_clock :: jsdate
  env_iterations :: nat

text \<open>
  \<open>new RecommendationEngine(catalog).findRecommendations(prefs)\<close>. The constructor
  stores the catalogue, and the method reads nothing else.
\<close>

definition rankByPreferences ::
  "environment \<Rightarrow> number_format \<Rightarrow> date_parser \<Rightarrow> TicketPackage list \<Rightarrow> UserPreferences
   \<Rightarrow> RecommendationScore list" where
  "rankByPreferences env fmt parseDate catalog prefs =
     findRecommendations fmt parseDate catalog prefs"

text \<open>
  \<open>findRecommendationsByQuery(query)\<close> on the engine constructed from the catalogue,
  with the embeddings stored so far.
\<close>

definition rankByQuery ::
  "environment \<Rightarrow> number_format \<Rightarrow> TicketPackage list \<Rightarrow> string
   \<Rightarrow> failure + RecommendationScore list" where
  "rankByQuery env fmt catalog query =
     vre_findRecommendationsByQuery fmt (engineAfter (env_iterations env) catalog) query"

text \<open>
  \<open>findRecommendationsByQuery(query, k)\<close> on a FAISS service that the call finds in
  state \<open>st\<close>.
\<close>

definition rankByIndex ::
  "environment \<Rightarrow> 'idx faiss_node \<Rightarrow> number_format \<Rightarrow> 'idx FAISSSearchService \<Rightarrow> string \<Rightarrow> int
   \<Rightarrow> failure + RecommendationScore list" where
  "rankByIndex env faiss fmt st query k =
     fss_findRecommendationsByQuery faiss fmt (env_clock env) st query k"

text \<open>The guard \<open>!this.isInitialized || !this.faissIndex\<close>.\<close>

definition uninitialized :: "'idx FAISSSearchService \<Rightarrow> bool" where
  "uninitialized st = (\<not> isInitialized st \<or> faissIndex st = None)"


section \<open>Sample catalogue and auxiliary notions for the statements\<close>

text \<open>The two packages of the repository's sample data (AWS set-up instructions).\<close>

definition samplePackage1 :: TicketPackage where
  "samplePackage1 =
     \<lparr>pkgId = ''1'', price = 450, venue = ''Madison Square Garden'', date = ''2024-03-15'',
      sportType = ''Basketball'', seatingCategory = ''Premium'',
      hospitalityType = ''VIP Lounge'', hospitalityVenue = ''Chase VIP Club'',
      hospitalityLevel = ''Platinum'', location = ''New York'', availableTickets = 8,
      description = ''Premium courtside seats with exclusive VIP lounge access''\<rparr>"

definition samplePackage2 :: TicketPackage where
  "samplePackage2 =
     \<lparr>pkgId = ''2'', price = 280, venue = ''Staples Center'', date = ''2024-03-20'',
      sportType = ''Basketball'', seatingCategory = ''Lower Level'',
      hospitalityType = ''Club Access'', hospitalityVenue = ''Lexus Club'',
      hospitalityLevel = ''Gold'', location = ''Los Angeles'', availableTickets = 12,
      description = ''Lower level seats with club access and premium dining''\<rparr>"

text \<open>The runtime's date parser on the two dates of the sample catalogue (UTC midnight).\<close>

definition sampleDate1 :: jsdate where
  "sampleDate1 = \<lparr>getTime = 1710460800000, getMonth = 2, getDay = 5\<rparr>"

definition sampleDate2 :: jsdate where
  "sampleDate2 = \<lparr>getTime = 1710892800000, getMonth = 2, getDay = 3\<rparr>"

definition sampleParseDate :: date_parser where
  "sampleParseDate s =
     (if s = ''2024-03-15'' then Some sampleDate1
      else if s = ''2024-03-20'' then Some sampleDate2
      else None)"

text \<open>Number formatting of a non-negative integer, as a template literal renders it.\<close>

fun formatNat :: "nat \<Rightarrow> string" where
  "formatNat n =
     (if n < 10 then [''0123456789'' ! n]
      else formatNat (n div 10) @ [''0123456789'' ! (n mod 10)])"

definition sampleFormat :: number_format where
  "sampleFormat x = formatNat (nat \<lfloor>x\<rfloor>)"

definition noPreferences :: UserPreferences where
  "noPreferences =
     \<lparr>pref_location = None, pref_peopleCount = None, pref_sport = None,
      pref_hospitalityType = None, pref_date = None, pref_budget = None\<rparr>"

text \<open>Preferences that the first sample package matches in every field but the date.\<close>

definition samplePreferences :: UserPreferences where
  "samplePreferences =
     \<lparr>pref_location = Some ''New York'', pref_peopleCount = Some 4,
      pref_sport = Some ''basketball'', pref_hospitalityType = Some ''VIP'',
      pref_date = None, pref_budget = Some \<lparr>bmin = 0, bmax = 500\<rparr>\<rparr>"

text \<open>The terms of \<open>calculateScore\<close> that do not read the price.\<close>

definition baseTerms :: "date_parser \<Rightarrow> TicketPackage \<Rightarrow> UserPreferences \<Rightarrow> real" where
  "baseTerms parseDate pkg prefs =
     locationTerm pkg prefs + sportTerm pkg prefs + hospitalityTerm pkg prefs
     + dateTerm parseDate pkg prefs + peopleTerm pkg prefs"

text \<open>A budget range is ordered when its minimum does not exceed its maximum.\<close>

definition budgetOrdered :: "UserPreferences \<Rightarrow> bool" where
  "budgetOrdered prefs = (case pref_budget prefs of None \<Rightarrow> True | Some b \<Rightarrow> bmin b \<le> bmax b)"


text \<open>Clock readings: Sunday 10 March 2024 and Saturday 16 March 2024, UTC midnight.\<close>

definition sampleNow :: jsdate where
  "sampleNow = \<lparr>getTime = 1710028800000, getMonth = 2, getDay = 0\<rparr>"

definition sampleLater :: jsdate where
  "sampleLater = \<lparr>getTime = 1710547200000, getMonth = 2, getDay = 6\<rparr>"

text \<open>\<open>new Date(pkg.date)\<close> on the dates of the sample catalogue.\<close>

definition sampleEventDate :: "string \<Rightarrow> jsdate" where
  "sampleEventDate s = (if s = ''2024-03-20'' then sampleDate2 else sampleDate1)"

text \<open>
  An index backend that accepts every vector and answers every search in the same way,
  by an exception or by a fixed result.
\<close>

definition stubFaiss :: "js_error + SearchResult \<Rightarrow> unit faiss_node" where
  "stubFaiss answer =
     \<lparr>IndexFlatIP = (\<lambda>d. Inr ()),
      index_add = (\<lambda>idx flat. Inr idx),
      index_search = (\<lambda>idx q k. answer)\<rparr>"

text \<open>
  The service over the sample catalogue, constructed at \<open>sampleNow\<close> with the given
  outcome of importing \<open>faiss-node\<close>.
\<close>

definition sampleService :: "js_error + unit faiss_node \<Rightarrow> unit FAISSSearchService" where
  "sampleService imported =
     initializeIndex imported sampleNow sampleEventDate
       (newFAISSSearchService [samplePackage1, samplePackage2])"


section \<open>A flat inner-product index\<close>

text \<open>
  A backend after the documented behaviour of the \<open>IndexFlatIP\<close> of \<open>faiss-node\<close>,
  for the concrete examples: it stores the vectors it is given; a search returns the
  \<open>k\<close> stored vectors of largest inner product with the query, best first, with
  their positions as labels and the inner products as distances; it throws when \<open>k\<close>
  exceeds the number of stored vectors.
\<close>

record FlatIndex =
  dimension :: nat
  vectors :: "real list list"

primrec chunks :: "nat \<Rightarrow> nat \<Rightarrow> 'a list \<Rightarrow> 'a list list" where
  "chunks d 0 xs = []"
| "chunks d (Suc n) xs = take d xs # chunks d n (drop d xs)"

definition innerProduct :: "real list \<Rightarrow> real list \<Rightarrow> real" where
  "innerProduct a b = sum_list (map2 (*) a b)"

definition flatAdd :: "FlatIndex \<Rightarrow> real list \<Rightarrow> js_error + FlatIndex" where
  "flatAdd idx flat =
     (if dimension idx = 0 then Inl (Error ''Invalid dimension'')
      else if length flat mod dimension idx = 0
      then Inr (idx\<lparr>vectors := vectors idx
                         @ chunks (dimension idx) (length flat div dimension idx) flat\<rparr>)
      else Inl (Error ''Invalid the given array length''))"

definition flatSearch :: "FlatIndex \<Rightarrow> real list \<Rightarrow> int \<Rightarrow> js_error + SearchResult" where
  "flatSearch idx q k =
     (if k < 0 \<or> int (length (vectors idx)) < k then Inl (Error ''Invalid the number of k'')
      else (let ranked = take (nat k)
                           (sort_key (\<lambda>(i, d). - d)
                              (zip [0..<length (vectors idx)] (map (innerProduct q) (vectors idx))))
            in Inr \<lparr>labels = map (\<lambda>(i, d). int i) ranked, distances = map snd ranked\<rparr>))"

definition flatIP :: "FlatIndex faiss_node" where
  "flatIP =
     \<lparr>IndexFlatIP = (\<lambda>d. Inr \<lparr>dimension = d, vectors = []\<rparr>),
      index_add = flatAdd,
      index_search = flatSearch\<rparr>"

text \<open>The service over the first sample package, with the flat index, built at \<open>sampleNow\<close>.\<close>

definition sampleFlatService :: "FlatIndex FAISSSearchService" where
  "sampleFlatService =
     initializeIndex (Inr flatIP) sampleNow sampleEventDate (newFAISSSearchService [samplePackage1])"

definition sampleQuery :: string where
  "sampleQuery = ''VIP basketball tickets in New York for 4 people''"

definition sampleEmbedding :: "real list" where
  "sampleEmbedding = fss_createPackageEmbedding sampleNow sampleEventDate samplePackage1"

text \<open>
  The inner product of the sample query, encoded at clock reading \<open>t\<close>, with the
  embedding of the first sample package.
\<close>

definition sampleProduct :: "jsdate \<Rightarrow> real" where
  "sampleProduct t = innerProduct (fss_createQueryEmbedding t sampleQuery) sampleEmbedding"

text \<open>
  The vector engine over the sample catalogue, and the cosine similarities of the sample
  query with its two packages.
\<close>

definition sampleEngine :: VectorRecommendationEngine where
  "sampleEngine = newVectorRecommendationEngine [samplePackage1, samplePackage2]"

definition sampleSimilarity1 :: real where
  "sampleSimilarity1 = 4264 / 1000 / (sqrt (466 / 100) * sqrt (44781 / 10000))"

definition sampleSimilarity2 :: real where
  "sampleSimilarity2 = 2876 / 1000 / (sqrt (466 / 100) * sqrt (39485 / 10000))"


section \<open>Rounding\<close>

lemma Math_round_add_int: "Math_round (x + of_int n) = Math_round x + n"
proof -
  have "x + of_int n + 1 / 2 = (x + 1 / 2) + of_int n" by simp
  then show ?thesis unfolding Math_round_def by (simp only: floor_add_int)
qed

lemma Math_round_mono: "x \<le> y \<Longrightarrow> Math_round x \<le> Math_round y"
  by (simp add: Math_round_def floor_mono)

lemma Math_round_of_int: "Math_round (of_int n) = n"
  using Math_round_add_int [of 0 n] by (simp add: Math_round_def)

lemma Math_round_numeral: "Math_round (numeral n) = numeral n"
  using Math_round_of_int [of "numeral n"] by simp

lemma Math_round_zero: "Math_round 0 = 0"
  by (simp add: Math_round_def)


section \<open>Attribute matcher: the terms and the score\<close>

lemma prefMatches_None [simp]: "prefMatches None f = False"
  by (simp add: prefMatches_def)

lemma peopleMatches_None [simp]: "peopleMatches None a = False"
  by (simp add: peopleMatches_def)

lemma locationTerm_nonneg: "0 \<le> locationTerm pkg prefs"
  by (simp add: locationTerm_def)

lemma sportTerm_nonneg: "0 \<le> sportTerm pkg prefs"
  by (simp add: sportTerm_def)

lemma hospitalityTerm_nonneg: "0 \<le> hospitalityTerm pkg prefs"
  by (simp add: hospitalityTerm_def)

lemma peopleTerm_nonneg: "0 \<le> peopleTerm pkg prefs"
  by (simp add: peopleTerm_def)

lemma budgetTerm_nonneg: "0 \<le> budgetTerm pkg prefs"
  by (simp add: budgetTerm_def split: option.splits)

lemma dateTerm_nonneg: "0 \<le> dateTerm pd pkg prefs"
  by (simp add: dateTerm_def Let_def split: option.splits)







lemma other_terms_price [simp]:
  "locationTerm (pkg\<lparr>price := x\<rparr>) prefs = locationTerm pkg prefs"
  "sportTerm (pkg\<lparr>price := x\<rparr>) prefs = sportTerm pkg prefs"
  "hospitalityTerm (pkg\<lparr>price := x\<rparr>) prefs = hospitalityTerm pkg prefs"
  "dateTerm pd (pkg\<lparr>price := x\<rparr>) prefs = dateTerm pd pkg prefs"
  "peopleTerm (pkg\<lparr>price := x\<rparr>) prefs = peopleTerm pkg prefs"
  by (simp_all add: locationTerm_def sportTerm_def hospitalityTerm_def dateTerm_def peopleTerm_def
        cong: option.case_cong if_cong)

lemma calculateScore_price:
  "calculateScore pd (pkg\<lparr>price := x\<rparr>) prefs
     = Math_round (baseTerms pd pkg prefs + budgetTerm (pkg\<lparr>price := x\<rparr>) prefs)"
  by (simp add: calculateScore_def baseTerms_def)

text \<open>
  Claim C6 (budget rule). Take a package and vary only its price, under preferences
  whose budget has \<open>min \<le> max\<close>. A price strictly below \<open>min\<close> scores strictly less
  than a price within \<open>[min, max]\<close>, and strictly more than a price above \<open>max\<close>.
  The budget term is 20 within the range, 10 below \<open>min\<close> and 0 above \<open>max\<close>.
\<close>

theorem budget_rule:
  assumes b: "pref_budget prefs = Some b" and mm: "bmin b \<le> bmax b"
    and lo: "lo < bmin b" and mid: "bmin b \<le> mid \<and> mid \<le> bmax b" and hi: "bmax b < hi"
  shows "calculateScore pd (pkg\<lparr>price := lo\<rparr>) prefs < calculateScore pd (pkg\<lparr>price := mid\<rparr>) prefs
       \<and> calculateScore pd (pkg\<lparr>price := hi\<rparr>) prefs < calculateScore pd (pkg\<lparr>price := lo\<rparr>) prefs
       \<and> budgetTerm (pkg\<lparr>price := mid\<rparr>) prefs = 20
       \<and> budgetTerm (pkg\<lparr>price := lo\<rparr>) prefs = 10
       \<and> budgetTerm (pkg\<lparr>price := hi\<rparr>) prefs = 0"
proof -
  have t_mid: "budgetTerm (pkg\<lparr>price := mid\<rparr>) prefs = 20"
    using b mid by (simp add: budgetTerm_def)
  have t_lo: "budgetTerm (pkg\<lparr>price := lo\<rparr>) prefs = 10"
    using b lo mm by (simp add: budgetTerm_def)
  have t_hi: "budgetTerm (pkg\<lparr>price := hi\<rparr>) prefs = 0"
    using b hi mm by (simp add: budgetTerm_def)
  have s_mid: "calculateScore pd (pkg\<lparr>price := mid\<rparr>) prefs = Math_round (baseTerms pd pkg prefs) + 20"
    using Math_round_add_int [of "baseTerms pd pkg prefs" 20] by (simp add: calculateScore_price t_mid)
  have s_lo: "calculateScore pd (pkg\<lparr>price := lo\<rparr>) prefs = Math_round (baseTerms pd pkg prefs) + 10"
    using Math_round_add_int [of "baseTerms pd pkg prefs" 10] by (simp add: calculateScore_price t_lo)
  have s_hi: "calculateScore pd (pkg\<lparr>price := hi\<rparr>) prefs = Math_round (baseTerms pd pkg prefs)"
    by (simp add: calculateScore_price t_hi)
  show ?thesis
    using t_mid t_lo t_hi s_mid s_lo s_hi by simp
qed

text \<open>
  Witness for C6: the first sample package priced at 50, 450 and 900 under a budget of
  100 to 500.
\<close>

theorem budget_rule_witness:
  "calculateScore sampleParseDate (samplePackage1\<lparr>price := 50\<rparr>)
       (noPreferences\<lparr>pref_budget := Some \<lparr>bmin = 100, bmax = 500\<rparr>\<rparr>)
     < calculateScore sampleParseDate (samplePackage1\<lparr>price := 450\<rparr>)
       (noPreferences\<lparr>pref_budget := Some \<lparr>bmin = 100, bmax = 500\<rparr>\<rparr>)
   \<and> calculateScore sampleParseDate (samplePackage1\<lparr>price := 900\<rparr>)
       (noPreferences\<lparr>pref_budget := Some \<lparr>bmin = 100, bmax = 500\<rparr>\<rparr>)
     < calculateScore sampleParseDate (samplePackage1\<lparr>price := 50\<rparr>)
       (noPreferences\<lparr>pref_budget := Some \<lparr>bmin = 100, bmax = 500\<rparr>\<rparr>)"
  using budget_rule [of "noPreferences\<lparr>pref_budget := Some \<lparr>bmin = 100, bmax = 500\<rparr>\<rparr>"
      "\<lparr>bmin = 100, bmax = 500\<rparr>" 50 450 900 sampleParseDate samplePackage1]
  by simp

text \<open>
  Claim C10 (monotone in the preference set). For each of the six preference fields,
  the score with the field set is at least the score with the field unset, the other
  fields being equal; every term of the score is non-negative.
\<close>

theorem calculateScore_monotone:
  "calculateScore pd pkg (prefs\<lparr>pref_location := None\<rparr>)
     \<le> calculateScore pd pkg (prefs\<lparr>pref_location := Some l\<rparr>)
   \<and> calculateScore pd pkg (prefs\<lparr>pref_sport := None\<rparr>)
     \<le> calculateScore pd pkg (prefs\<lparr>pref_sport := Some s\<rparr>)
   \<and> calculateScore pd pkg (prefs\<lparr>pref_hospitalityType := None\<rparr>)
     \<le> calculateScore pd pkg (prefs\<lparr>pref_hospitalityType := Some h\<rparr>)
   \<and> calculateScore pd pkg (prefs\<lparr>pref_date := None\<rparr>)
     \<le> calculateScore pd pkg (prefs\<lparr>pref_date := Some d\<rparr>)
   \<and> calculateScore pd pkg (prefs\<lparr>pref_peopleCount := None\<rparr>)
     \<le> calculateScore pd pkg (prefs\<lparr>pref_peopleCount := Some n\<rparr>)
   \<and> calculateScore pd pkg (prefs\<lparr>pref_budget := None\<rparr>)
     \<le> calculateScore pd pkg (prefs\<lparr>pref_budget := Some b\<rparr>)
   \<and> 0 \<le> locationTerm pkg prefs \<and> 0 \<le> sportTerm pkg prefs \<and> 0 \<le> hospitalityTerm pkg prefs
   \<and> 0 \<le> dateTerm pd pkg prefs \<and> 0 \<le> peopleTerm pkg prefs \<and> 0 \<le> budgetTerm pkg prefs"
proof -
  have 1: "calculateScore pd pkg (prefs\<lparr>pref_location := None\<rparr>)
             \<le> calculateScore pd pkg (prefs\<lparr>pref_location := Some l\<rparr>)"
    unfolding calculateScore_def
    by (rule Math_round_mono)
       (simp add: locationTerm_def sportTerm_def hospitalityTerm_def dateTerm_def peopleTerm_def
          budgetTerm_def)
  have 2: "calculateScore pd pkg (prefs\<lparr>pref_sport := None\<rparr>)
             \<le> calculateScore pd pkg (prefs\<lparr>pref_sport := Some s\<rparr>)"
    unfolding calculateScore_def
    by (rule Math_round_mono)
       (simp add: locationTerm_def sportTerm_def hospitalityTerm_def dateTerm_def peopleTerm_def
          budgetTerm_def)
  have 3: "calculateScore pd pkg (prefs\<lparr>pref_hospitalityType := None\<rparr>)
             \<le> calculateScore pd pkg (prefs\<lparr>pref_hospitalityType := Some h\<rparr>)"
    unfolding calculateScore_def
    by (rule Math_round_mono)
       (simp add: locationTerm_def sportTerm_def hospitalityTerm_def dateTerm_def peopleTerm_def
          budgetTerm_def)
  have d0: "0 \<le> dateTerm pd pkg (prefs\<lparr>pref_date := Some d\<rparr>)"
    by (rule dateTerm_nonneg)
  have 4: "calculateScore pd pkg (prefs\<lparr>pref_date := None\<rparr>)
             \<le> calculateScore pd pkg (prefs\<lparr>pref_date := Some d\<rparr>)"
    unfolding calculateScore_def
    apply (rule Math_round_mono)
    using d0
    by (simp add: locationTerm_def sportTerm_def hospitalityTerm_def peopleTerm_def budgetTerm_def)
       (simp add: dateTerm_def)
  have 5: "calculateScore pd pkg (prefs\<lparr>pref_peopleCount := None\<rparr>)
             \<le> calculateScore pd pkg (prefs\<lparr>pref_peopleCount := Some n\<rparr>)"
    unfolding calculateScore_def
    by (rule Math_round_mono)
       (simp add: locationTerm_def sportTerm_def hospitalityTerm_def dateTerm_def peopleTerm_def
          budgetTerm_def)
  have b0: "0 \<le> budgetTerm pkg (prefs\<lparr>pref_budget := Some b\<rparr>)"
    by (rule budgetTerm_nonneg)
  have 6: "calculateScore pd pkg (prefs\<lparr>pref_budget := None\<rparr>)
             \<le> calculateScore pd pkg (prefs\<lparr>pref_budget := Some b\<rparr>)"
    unfolding calculateScore_def
    apply (rule Math_round_mono)
    using b0
    by (simp add: locationTerm_def sportTerm_def hospitalityTerm_def dateTerm_def peopleTerm_def)
       (simp add: budgetTerm_def)
  show ?thesis
    using 1 2 3 4 5 6 locationTerm_nonneg sportTerm_nonneg hospitalityTerm_nonneg
      dateTerm_nonneg peopleTerm_nonneg budgetTerm_nonneg by simp
qed


section \<open>Attribute matcher: the reasons\<close>

lemma reason_distinct:
  "locationReason p \<noteq> sportReason p" "locationReason p \<noteq> hospitalityReason p"
  "locationReason p \<noteq> peopleReason f p" "locationReason p \<noteq> budgetReason f p"
  "sportReason p \<noteq> hospitalityReason p" "sportReason p \<noteq> peopleReason f p"
  "sportReason p \<noteq> budgetReason f p" "hospitalityReason p \<noteq> peopleReason f p"
  "hospitalityReason p \<noteq> budgetReason f p" "peopleReason f p \<noteq> budgetReason f p"
  by (simp_all add: locationReason_def sportReason_def hospitalityReason_def peopleReason_def
      budgetReason_def)

lemma budget_reason_iff_term:
  "budgetOrdered prefs \<Longrightarrow> budgetWithinMax pkg prefs \<longleftrightarrow> budgetTerm pkg prefs \<noteq> 0"
  by (auto simp: budgetOrdered_def budgetWithinMax_def budgetTerm_def split: option.splits)

text \<open>
  Counterexample to C8 as stated: with only a target date set, equal to the date of the
  first sample package, the date term contributes 15 to a score of 15 and the reasons
  list is empty.
\<close>

theorem date_term_without_reason:
  "dateTerm sampleParseDate samplePackage1 (noPreferences\<lparr>pref_date := Some ''2024-03-15''\<rparr>) = 15
   \<and> calculateScore sampleParseDate samplePackage1 (noPreferences\<lparr>pref_date := Some ''2024-03-15''\<rparr>) = 15
   \<and> getReasons sampleFormat samplePackage1 (noPreferences\<lparr>pref_date := Some ''2024-03-15''\<rparr>) = []"
  by (simp add: calculateScore_def dateTerm_def getReasons_def locationTerm_def sportTerm_def
      hospitalityTerm_def peopleTerm_def budgetTerm_def budgetWithinMax_def Math_round_def
      noPreferences_def samplePackage1_def sampleParseDate_def sampleDate1_def)

text \<open>
  Claim C8, amended. For preferences whose budget range, if any, is ordered: the
  location, sport, hospitality, party-size and budget reasons are in the reasons list
  exactly when the corresponding term of the score is non-zero; the list holds no other
  string; and the target date has no influence on the list, so the date term has no
  reason.
\<close>

theorem reasons_mirror_terms:
  assumes "budgetOrdered prefs"
  shows "(locationReason pkg \<in> set (getReasons fmt pkg prefs) \<longleftrightarrow> locationTerm pkg prefs \<noteq> 0)
       \<and> (sportReason pkg \<in> set (getReasons fmt pkg prefs) \<longleftrightarrow> sportTerm pkg prefs \<noteq> 0)
       \<and> (hospitalityReason pkg \<in> set (getReasons fmt pkg prefs) \<longleftrightarrow> hospitalityTerm pkg prefs \<noteq> 0)
       \<and> (peopleReason fmt pkg \<in> set (getReasons fmt pkg prefs) \<longleftrightarrow> peopleTerm pkg prefs \<noteq> 0)
       \<and> (budgetReason fmt pkg \<in> set (getReasons fmt pkg prefs) \<longleftrightarrow> budgetTerm pkg prefs \<noteq> 0)
       \<and> set (getReasons fmt pkg prefs) \<subseteq> {locationReason pkg, sportReason pkg,
            hospitalityReason pkg, peopleReason fmt pkg, budgetReason fmt pkg}
       \<and> getReasons fmt pkg (prefs\<lparr>pref_date := d\<rparr>) = getReasons fmt pkg prefs"
proof -
  have b: "budgetWithinMax pkg prefs \<longleftrightarrow> budgetTerm pkg prefs \<noteq> 0"
    using assms by (rule budget_reason_iff_term)
  have 1: "locationReason pkg \<in> set (getReasons fmt pkg prefs) \<longleftrightarrow> locationTerm pkg prefs \<noteq> 0"
    by (simp add: reason_distinct reason_distinct [THEN not_sym] getReasons_def locationTerm_def)
  have 2: "sportReason pkg \<in> set (getReasons fmt pkg prefs) \<longleftrightarrow> sportTerm pkg prefs \<noteq> 0"
    by (simp add: reason_distinct reason_distinct [THEN not_sym] getReasons_def sportTerm_def)
  have 3: "hospitalityReason pkg \<in> set (getReasons fmt pkg prefs) \<longleftrightarrow> hospitalityTerm pkg prefs \<noteq> 0"
    by (simp add: reason_distinct reason_distinct [THEN not_sym] getReasons_def hospitalityTerm_def)
  have 4: "peopleReason fmt pkg \<in> set (getReasons fmt pkg prefs) \<longleftrightarrow> peopleTerm pkg prefs \<noteq> 0"
    by (simp add: reason_distinct reason_distinct [THEN not_sym] getReasons_def peopleTerm_def)
  have 5: "budgetReason fmt pkg \<in> set (getReasons fmt pkg prefs) \<longleftrightarrow> budgetWithinMax pkg prefs"
    by (simp add: reason_distinct reason_distinct [THEN not_sym] getReasons_def)
  have 6: "set (getReasons fmt pkg prefs) \<subseteq> {locationReason pkg, sportReason pkg,
            hospitalityReason pkg, peopleReason fmt pkg, budgetReason fmt pkg}"
    by (auto simp: getReasons_def split: if_splits)
  have 7: "getReasons fmt pkg (prefs\<lparr>pref_date := d\<rparr>) = getReasons fmt pkg prefs"
    by (simp add: getReasons_def budgetWithinMax_def)
  show ?thesis using 1 2 3 4 5 6 7 b by simp
qed

text \<open>
  Witness for C8: the sample preferences have an ordered budget; against the first
  sample package the four matching reasons and the budget reason are listed.
\<close>

theorem reasons_mirror_terms_witness:
  "budgetOrdered samplePreferences
   \<and> (locationReason samplePackage1 \<in> set (getReasons sampleFormat samplePackage1 samplePreferences)
        \<longleftrightarrow> locationTerm samplePackage1 samplePreferences \<noteq> 0)
   \<and> (budgetReason sampleFormat samplePackage1
          \<in> set (getReasons sampleFormat samplePackage1 samplePreferences)
        \<longleftrightarrow> budgetTerm samplePackage1 samplePreferences \<noteq> 0)
   \<and> budgetTerm samplePackage1 samplePreferences = 20
   \<and> locationTerm samplePackage1 samplePreferences = 30"
proof -
  have ord: "budgetOrdered samplePreferences"
    by (simp add: budgetOrdered_def samplePreferences_def)
  have b: "budgetTerm samplePackage1 samplePreferences = 20"
    by (simp add: budgetTerm_def samplePreferences_def samplePackage1_def)
  have l: "locationTerm samplePackage1 samplePreferences = 30"
    by (simp add: locationTerm_def prefMatches_def samplePreferences_def samplePackage1_def
        toLowerCase_def char_lower_def)
  show ?thesis
    using ord b l reasons_mirror_terms [OF ord, of samplePackage1 sampleFormat] by simp
qed


section \<open>Similarity scorer\<close>

lemma dotLoop_fold:
  "fold (\<lambda>i (dotProduct, normA, normB).
             (dotProduct + a ! i * b ! i, normA + a ! i * a ! i, normB + b ! i * b ! i))
          [0..<n] (d, x, y)
   = (d + (\<Sum>i<n. a ! i * b ! i), x + (\<Sum>i<n. a ! i * a ! i), y + (\<Sum>i<n. b ! i * b ! i))"
  by (induction n) (simp_all add: algebra_simps)

lemma dotLoop_sums:
  "dotLoop a b = ((\<Sum>i<length a. a ! i * b ! i), (\<Sum>i<length a. a ! i * a ! i),
                  (\<Sum>i<length a. b ! i * b ! i))"
  by (simp add: dotLoop_def dotLoop_fold)

text \<open>One step of the Cauchy-Schwarz inequality for finite sums.\<close>

lemma cs_step:
  fixes D A B x y :: real
  assumes "D\<^sup>2 \<le> A * B" "0 \<le> A" "0 \<le> B"
  shows "(D + x * y)\<^sup>2 \<le> (A + x * x) * (B + y * y)"
proof -
  have sq: "(2 * D * x * y)\<^sup>2 \<le> (A * (y * y) + B * (x * x))\<^sup>2"
  proof -
    have "(2 * D * x * y)\<^sup>2 = 4 * D\<^sup>2 * (x * x * (y * y))"
      by (simp add: power2_eq_square)
    also have "\<dots> \<le> 4 * (A * B) * (x * x * (y * y))"
      using assms(1) by (intro mult_right_mono mult_left_mono) simp_all
    also have "\<dots> \<le> 4 * (A * B) * (x * x * (y * y)) + (A * (y * y) - B * (x * x))\<^sup>2"
      by simp
    also have "\<dots> = (A * (y * y) + B * (x * x))\<^sup>2"
      by (simp add: power2_eq_square algebra_simps)
    finally show ?thesis .
  qed
  have nn: "0 \<le> A * (y * y) + B * (x * x)"
    using assms(2,3) by simp
  have "2 * D * x * y \<le> A * (y * y) + B * (x * x)"
    using sq nn by (rule power2_le_imp_le)
  moreover have "(A + x * x) * (B + y * y) - (D + x * y)\<^sup>2
      = (A * B - D\<^sup>2) + (A * (y * y) + B * (x * x) - 2 * D * x * y)"
    by (simp add: power2_eq_square algebra_simps)
  ultimately show ?thesis using assms(1) by linarith
qed

lemma cauchy_schwarz_sum:
  fixes f g :: "nat \<Rightarrow> real"
  shows "(\<Sum>i<n. f i * g i)\<^sup>2 \<le> (\<Sum>i<n. f i * f i) * (\<Sum>i<n. g i * g i)"
proof (induction n)
  case 0
  show ?case by simp
next
  case (Suc n)
  have "0 \<le> (\<Sum>i<n. f i * f i)" "0 \<le> (\<Sum>i<n. g i * g i)"
    by (simp_all add: sum_nonneg)
  with Suc show ?case
    using cs_step [of "\<Sum>i<n. f i * g i" "\<Sum>i<n. f i * f i" "\<Sum>i<n. g i * g i" "f n" "g n"]
    by simp
qed

lemma cosine_bound:
  fixes D A B :: real
  assumes "D\<^sup>2 \<le> A * B" "0 < A" "0 < B"
  shows "sqrt A * sqrt B \<noteq> 0" "- 1 \<le> D / (sqrt A * sqrt B)" "D / (sqrt A * sqrt B) \<le> 1"
proof -
  have pos: "0 < sqrt A * sqrt B" using assms(2,3) by simp
  then show "sqrt A * sqrt B \<noteq> 0" by (rule less_imp_neq [THEN not_sym])
  have "\<bar>D\<bar> = sqrt (D\<^sup>2)" by simp
  also have "\<dots> \<le> sqrt (A * B)" using assms(1) by (simp only: real_sqrt_le_iff)
  also have "\<dots> = sqrt A * sqrt B" by (simp add: real_sqrt_mult)
  finally have "\<bar>D\<bar> \<le> sqrt A * sqrt B" .
  then have "\<bar>D / (sqrt A * sqrt B)\<bar> \<le> 1" using pos by simp
  then show "- 1 \<le> D / (sqrt A * sqrt B)" "D / (sqrt A * sqrt B) \<le> 1" by linarith+
qed

lemma sumSquares_zero_iff: "sumSquares a = 0 \<longleftrightarrow> (\<forall>x\<in>set a. x = 0)"
proof -
  have "sumSquares a = 0 \<longleftrightarrow> (\<forall>i\<in>{..<length a}. a ! i * a ! i = 0)"
    unfolding sumSquares_def by (rule sum_nonneg_eq_0_iff) simp_all
  also have "\<dots> \<longleftrightarrow> (\<forall>x\<in>set a. x = 0)"
    by (auto simp: in_set_conv_nth dest: nth_mem)
  finally show ?thesis .
qed

text \<open>The value of \<open>cosineSimilarity\<close> in closed form, used by the ranking proofs.\<close>

lemma cosineSimilarity_cases:
  "\<exists>r. cosineSimilarity a b = Inr r \<and> - 1 \<le> r \<and> r \<le> 1
       \<and> (if length a \<noteq> length b \<or> sumSquares a = 0 \<or> sumSquares b = 0 then r = 0
           else sqrt (sumSquares a) * sqrt (sumSquares b) \<noteq> 0)"
proof (cases "length a = length b")
  case False
  then show ?thesis by (simp add: cosineSimilarity_def)
next
  case len: True
  let ?D = "\<Sum>i<length a. a ! i * b ! i"
  have loop: "dotLoop a b = (?D, sumSquares a, sumSquares b)"
    by (simp add: dotLoop_sums sumSquares_def len)
  show ?thesis
  proof (cases "sumSquares a = 0 \<or> sumSquares b = 0")
    case True
    then show ?thesis by (auto simp: cosineSimilarity_def loop len)
  next
    case False
    have nn: "0 \<le> sumSquares a" "0 \<le> sumSquares b"
      by (simp_all add: sumSquares_def sum_nonneg)
    with False have pos: "0 < sumSquares a" "0 < sumSquares b" by simp_all
    have cs: "?D\<^sup>2 \<le> sumSquares a * sumSquares b"
      using cauchy_schwarz_sum [of "\<lambda>i. a ! i" "\<lambda>i. b ! i" "length a"]
      by (simp add: sumSquares_def len)
    from cosine_bound [OF cs pos] False show ?thesis
      by (simp add: cosineSimilarity_def loop len js_divide_def)
  qed
qed


section \<open>Similarity scorer in double-precision arithmetic\<close>

subsection \<open>Powers of two\<close>

lemma pow2_pos [simp]: "0 < pow2 k" by (simp add: pow2_def)

lemma pow2_nonneg [simp]: "0 \<le> pow2 k" by (simp add: pow2_def)

lemma pow2_neq0 [simp]: "pow2 k \<noteq> 0" by (simp add: pow2_def)

lemma pow2_not_le0 [simp]: "\<not> pow2 k \<le> 0" by (simp add: not_le)

lemma pow2_not_less0 [simp]: "\<not> pow2 k < 0" by (simp add: not_less)

lemma pow2_add: "pow2 (j + k) = pow2 j * pow2 k" by (simp add: pow2_def powr_add)

lemma pow2_0 [simp]: "pow2 0 = 1" by (simp add: pow2_def)

lemma pow2_1 [simp]: "pow2 1 = 2" by (simp add: pow2_def)

lemma pow2_le [simp]: "pow2 j \<le> pow2 k \<longleftrightarrow> j \<le> k" by (simp add: pow2_def)

lemma pow2_less [simp]: "pow2 j < pow2 k \<longleftrightarrow> j < k" by (simp add: pow2_def)

lemma pow2_nat: "pow2 (int n) = 2 ^ n" by (simp add: pow2_def powr_realpow)

lemma pow2_neg: "pow2 (- k) = 1 / pow2 k" by (simp add: pow2_def powr_minus_divide)

lemma pow2_diff: "pow2 (j - k) = pow2 j / pow2 k"
  using pow2_add [of j "- k"] by (simp add: pow2_neg)

lemma pow2_ge_one [simp]: "1 \<le> pow2 k \<longleftrightarrow> 0 \<le> k"
  using pow2_le [of 0 k] by (simp del: pow2_le)

lemma pow2_le_one [simp]: "pow2 k \<le> 1 \<longleftrightarrow> k \<le> 0"
  using pow2_le [of k 0] by (simp del: pow2_le)

lemma pow2_less_one [simp]: "pow2 k < 1 \<longleftrightarrow> k < 0"
  using pow2_less [of k 0] by (simp del: pow2_less)

lemma pow2_double: "pow2 (2 * k) = pow2 k * pow2 k"
  using pow2_add [of k k] by simp

lemma pow2_sqrt: "sqrt (pow2 (2 * k)) = pow2 k"
  by (simp add: pow2_double)


subsection \<open>Binades\<close>

lemma binade_bounds:
  assumes "x \<noteq> 0"
  shows "pow2 (binade x) \<le> \<bar>x\<bar>" "\<bar>x\<bar> < pow2 (binade x + 1)"
proof -
  have "pow2 (binade x) \<le> \<bar>x\<bar> \<and> \<bar>x\<bar> < pow2 (binade x + 1)"
    using floor_log_eq_powr_iff [of "\<bar>x\<bar>" 2 "binade x"] assms
    by (simp add: binade_def pow2_def)
  then show "pow2 (binade x) \<le> \<bar>x\<bar>" "\<bar>x\<bar> < pow2 (binade x + 1)" by simp_all
qed

lemma binade_ge:
  assumes "pow2 k \<le> \<bar>x\<bar>"
  shows "k \<le> binade x"
proof (rule ccontr)
  assume "\<not> k \<le> binade x"
  then have "binade x + 1 \<le> k" by simp
  then have "pow2 (binade x + 1) \<le> pow2 k" by (simp only: pow2_le)
  moreover have "x \<noteq> 0" using assms pow2_pos [of k] by auto
  ultimately show False using binade_bounds(2) [of x] assms by linarith
qed

lemma binade_less:
  assumes "x \<noteq> 0" "\<bar>x\<bar> < pow2 k"
  shows "binade x < k"
proof -
  have "pow2 (binade x) < pow2 k" using binade_bounds(1) [OF assms(1)] assms(2) by linarith
  then show ?thesis by (simp only: pow2_less)
qed

lemma binade_eqI:
  assumes "pow2 k \<le> \<bar>x\<bar>" "\<bar>x\<bar> < pow2 (k + 1)"
  shows "binade x = k"
proof -
  have "x \<noteq> 0" using assms(1) pow2_pos [of k] by auto
  from binade_ge [OF assms(1)] binade_less [OF this assms(2)] show ?thesis by simp
qed


subsection \<open>Rounding to an integer\<close>

lemma roundTiesToEven_error: "\<bar>of_int (roundTiesToEven y) - y\<bar> \<le> 1 / 2"
proof -
  have "of_int \<lfloor>y\<rfloor> \<le> y" "y < of_int \<lfloor>y\<rfloor> + 1" by linarith+
  then show ?thesis by (auto simp: roundTiesToEven_def)
qed

lemma roundTiesToEven_of_int [simp]: "roundTiesToEven (of_int m) = m"
  by (simp add: roundTiesToEven_def)

lemma roundTiesToEven_eqI:
  assumes "\<bar>y - of_int m\<bar> < 1 / 2"
  shows "roundTiesToEven y = m"
proof -
  have "\<bar>(of_int (roundTiesToEven y) :: real) - of_int m\<bar> < 1"
    using roundTiesToEven_error [of y] assms by linarith
  then have "\<bar>(of_int (roundTiesToEven y - m) :: real)\<bar> < 1" by simp
  then have "\<bar>roundTiesToEven y - m\<bar> < 1"
    by (metis of_int_abs of_int_less_1_iff)
  then show ?thesis by simp
qed

lemma roundTiesToEven_nonzero:
  assumes "1 / 2 < \<bar>y\<bar>"
  shows "roundTiesToEven y \<noteq> 0"
  using roundTiesToEven_error [of y] assms by auto


subsection \<open>Rounding to a double\<close>

lemma ulp_pos [simp]: "0 < ulp x" by (simp add: ulp_def)

lemma ulp_nonneg [simp]: "0 \<le> ulp x" by (simp add: ulp_def)

lemma ulp_neq0 [simp]: "ulp x \<noteq> 0" by (simp add: ulp_def)

lemma ulp_normal:
  assumes "pow2 (- 1022) \<le> \<bar>x\<bar>"
  shows "ulp x = pow2 (binade x - 52)"
  using binade_ge [OF assms] by (simp add: ulp_def max_def)

lemma ulp_subnormal:
  assumes "x \<noteq> 0" "\<bar>x\<bar> < pow2 (- 1022)"
  shows "ulp x = pow2 (- 1074)"
  using binade_less [OF assms] by (simp add: ulp_def max_def)

lemma ulp_cases:
  assumes "x \<noteq> 0"
  shows "ulp x = pow2 (- 1074) \<or> (pow2 (- 1022) \<le> \<bar>x\<bar> \<and> ulp x = pow2 (binade x - 52))"
proof (cases "pow2 (- 1022) \<le> \<bar>x\<bar>")
  case True
  then show ?thesis by (simp add: ulp_normal)
next
  case False
  then show ?thesis using ulp_subnormal [OF assms] by simp
qed

lemma roundToDouble_zero [simp]: "roundToDouble 0 = 0"
  by (simp add: roundToDouble_def)

lemma roundToDouble_error: "\<bar>roundToDouble x - x\<bar> \<le> ulp x / 2"
proof (cases "x = 0")
  case True
  then show ?thesis by simp
next
  case False
  have "roundToDouble x - x = (of_int (roundTiesToEven (x / ulp x)) - x / ulp x) * ulp x"
    using False by (simp add: roundToDouble_def algebra_simps)
  then have "\<bar>roundToDouble x - x\<bar> = \<bar>of_int (roundTiesToEven (x / ulp x)) - x / ulp x\<bar> * ulp x"
    by (simp add: abs_mult)
  also have "\<dots> \<le> 1 / 2 * ulp x"
    by (intro mult_right_mono roundTiesToEven_error) simp
  finally show ?thesis by simp
qed

text \<open>The unit roundoff.\<close>

lemma roundToDouble_normal:
  assumes "pow2 (- 1022) \<le> \<bar>x\<bar>"
  shows "\<bar>roundToDouble x - x\<bar> \<le> pow2 (- 53) * \<bar>x\<bar>"
proof -
  have x0: "x \<noteq> 0" using assms pow2_pos [of "- 1022"] by auto
  have "ulp x / 2 = pow2 (- 53) * pow2 (binade x)"
    using pow2_add [of "- 53" "binade x"] pow2_add [of "- 1" "binade x - 52"]
    by (simp add: ulp_normal [OF assms] pow2_neg)
  also have "\<dots> \<le> pow2 (- 53) * \<bar>x\<bar>"
    using binade_bounds(1) [OF x0] by (intro mult_left_mono) simp_all
  finally show ?thesis using roundToDouble_error [of x] by linarith
qed

lemma roundToDouble_grid: "\<exists>m :: int. roundToDouble x = of_int m * pow2 (- 1074)"
proof (cases "x = 0")
  case True
  then show ?thesis by (intro exI [of _ 0]) simp
next
  case False
  define k where "k = max (binade x) (- 1022) - 52"
  have k: "0 \<le> k + 1074" by (simp add: k_def)
  have "pow2 k = pow2 (int (nat (k + 1074))) * pow2 (- 1074)"
    using k pow2_add [of "k + 1074" "- 1074"] by simp
  also have "\<dots> = of_int (2 ^ nat (k + 1074)) * pow2 (- 1074)"
    by (simp only: pow2_nat) simp
  finally have "ulp x = of_int (2 ^ nat (k + 1074)) * pow2 (- 1074)"
    by (simp add: ulp_def k_def)
  then have "roundToDouble x
      = of_int (roundTiesToEven (x / ulp x) * 2 ^ nat (k + 1074)) * pow2 (- 1074)"
    using False by (simp add: roundToDouble_def)
  then show ?thesis by blast
qed

lemma roundToDouble_subnormal_exact:
  assumes "x = of_int m * pow2 (- 1074)" "\<bar>x\<bar> < pow2 (- 1022)"
  shows "roundToDouble x = x"
proof (cases "x = 0")
  case True
  then show ?thesis by simp
next
  case False
  have u: "ulp x = pow2 (- 1074)" using False assms(2) by (rule ulp_subnormal)
  have "x / ulp x = of_int m" unfolding u by (simp add: assms(1))
  then have "roundToDouble x = of_int m * ulp x"
    using False by (simp add: roundToDouble_def)
  then show ?thesis unfolding u by (simp add: assms(1))
qed

text \<open>A number on the grid of the doubles is rounded with a relative error of at most
  the unit roundoff, also below the normal range, where it is represented exactly.\<close>

lemma roundToDouble_on_grid:
  assumes "x = of_int m * pow2 (- 1074)"
  shows "\<bar>roundToDouble x - x\<bar> \<le> pow2 (- 53) * \<bar>x\<bar>"
proof (cases "pow2 (- 1022) \<le> \<bar>x\<bar>")
  case True
  then show ?thesis by (rule roundToDouble_normal)
next
  case False
  then have "roundToDouble x = x"
    using roundToDouble_subnormal_exact [OF assms] by simp
  then show ?thesis by simp
qed

lemma roundToDouble_nonzero:
  assumes "pow2 (- 1075) < \<bar>x\<bar>"
  shows "roundToDouble x \<noteq> 0"
proof -
  have x0: "x \<noteq> 0" using assms pow2_pos [of "- 1075"] by auto
  have "ulp x / 2 < \<bar>x\<bar>"
    using ulp_cases [OF x0]
  proof
    assume "ulp x = pow2 (- 1074)"
    moreover have "pow2 (- 1074) / 2 = pow2 (- 1075)"
      using pow2_add [of "- 1" "- 1074"] by (simp add: pow2_neg)
    ultimately show ?thesis using assms by simp
  next
    assume a: "pow2 (- 1022) \<le> \<bar>x\<bar> \<and> ulp x = pow2 (binade x - 52)"
    have "pow2 (binade x - 52) / 2 < pow2 (binade x)"
      using pow2_less [of "binade x - 52" "binade x"] pow2_pos [of "binade x - 52"]
      by (simp del: pow2_less pow2_pos)
    then show ?thesis using a binade_bounds(1) [OF x0] by simp
  qed
  then have "1 / 2 < \<bar>x / ulp x\<bar>"
    by (simp add: abs_divide pos_less_divide_eq)
  then have "roundTiesToEven (x / ulp x) \<noteq> 0" by (rule roundTiesToEven_nonzero)
  then show ?thesis using x0 by (simp add: roundToDouble_def)
qed

subsection \<open>Totality\<close>

lemma pow2_numeral: "pow2 (numeral n) = 2 ^ numeral n"
  using pow2_nat [of "numeral n"] by simp

lemma pow2_neg_numeral: "pow2 (- numeral n) = 1 / 2 ^ numeral n"
  by (simp only: pow2_neg pow2_numeral)

lemma dotLoop_components:
  "fold (\<lambda>i (dotProduct, normA, normB).
             (number_add dotProduct (number_mul (a ! i) (b ! i)),
              number_add normA (number_mul (a ! i) (a ! i)),
              number_add normB (number_mul (b ! i) (b ! i))))
          [0..<n] (Finite 0, Finite 0, Finite 0)
   = (accumulate a b n, accumulate a a n, accumulate b b n)"
  by (induction n) (simp_all add: accumulate_def)

lemma dotLoopIEEE_accumulate:
  "dotLoopIEEE a b
     = (accumulate a b (length a), accumulate a a (length a), accumulate b b (length a))"
  by (simp add: dotLoopIEEE_def dotLoop_components)

lemma accumulate_0 [simp]: "accumulate x y 0 = Finite 0"
  by (simp add: accumulate_def)

lemma accumulate_Suc:
  "accumulate x y (Suc n) = number_add (accumulate x y n) (number_mul (x ! n) (y ! n))"
  by (simp add: accumulate_def)

lemma toNumber_zero [simp]: "toNumber 0 = Finite 0"
  by (simp add: toNumber_def)

lemma onGrid_zero [simp]: "onGrid 0"
  unfolding onGrid_def by (intro exI [of _ 0]) simp

lemma toNumber_cases:
  "toNumber x = PosInfinity \<or> toNumber x = NegInfinity
     \<or> (toNumber x = Finite (roundToDouble x) \<and> \<bar>roundToDouble x\<bar> < pow2 1024)"
  by (simp add: toNumber_def)

lemma toNumber_onGrid:
  assumes "toNumber x = Finite r"
  shows "onGrid r"
proof -
  have "r = roundToDouble x" using assms by (simp add: toNumber_def split: if_splits)
  then show ?thesis unfolding onGrid_def using roundToDouble_grid [of x] by simp
qed

lemma number_add_onGrid: "number_add x y = Finite r \<Longrightarrow> onGrid r"
  by (cases x; cases y) (auto dest: toNumber_onGrid)

lemma accumulate_onGrid: "accumulate x y n = Finite r \<Longrightarrow> onGrid r"
  by (cases n) (auto simp: accumulate_Suc dest: number_add_onGrid)

lemma accumulate_zeros:
  assumes "\<forall>i<n. x ! i = Finite 0"
  shows "accumulate x x n = Finite 0"
  using assms by (induction n) (simp_all add: accumulate_Suc)

lemma onGrid_pos:
  assumes "onGrid r" "0 < r"
  shows "pow2 (- 1074) \<le> r"
proof -
  obtain m :: int where m: "r = of_int m * pow2 (- 1074)"
    using assms(1) unfolding onGrid_def by blast
  have "0 < m" using assms(2) unfolding m by (simp add: zero_less_mult_iff)
  then have "(1 :: real) \<le> of_int m" by simp
  then have "1 * pow2 (- 1074) \<le> of_int m * pow2 (- 1074)"
    by (intro mult_right_mono) simp_all
  then show ?thesis unfolding m by simp
qed

text \<open>The square root of a positive double is a positive double.\<close>

lemma number_sqrt_positive:
  assumes "onGrid r" "0 < r"
  shows "number_sqrt (Finite r) = PosInfinity
         \<or> (\<exists>s. number_sqrt (Finite r) = Finite s \<and> 3 / 4 * pow2 (- 537) \<le> s)"
proof -
  have "pow2 (2 * (- 537)) \<le> r" using onGrid_pos [OF assms] by simp
  then have "sqrt (pow2 (2 * (- 537))) \<le> sqrt r" by (simp only: real_sqrt_le_iff)
  then have lo: "pow2 (- 537) \<le> sqrt r" by (simp only: pow2_sqrt)
  then have n: "pow2 (- 1022) \<le> \<bar>sqrt r\<bar>"
    using pow2_le [of "- 1022" "- 537"] by (simp del: pow2_le)
  have u: "pow2 (- 53) \<le> 1 / 4"
    using pow2_le [of "- 53" "- 2"] by (simp add: pow2_neg_numeral del: pow2_le)
  have a: "\<bar>sqrt r\<bar> = sqrt r" using assms(2) by simp
  have "pow2 (- 53) * \<bar>sqrt r\<bar> \<le> 1 / 4 * \<bar>sqrt r\<bar>"
    using u by (intro mult_right_mono) simp_all
  with roundToDouble_normal [OF n]
  have "\<bar>roundToDouble (sqrt r) - sqrt r\<bar> \<le> 1 / 4 * sqrt r"
    unfolding a by (rule order_trans)
  then have s: "3 / 4 * sqrt r \<le> roundToDouble (sqrt r)" by linarith
  have "3 / 4 * pow2 (- 537) \<le> 3 / 4 * sqrt r" using lo by simp
  with s have b: "3 / 4 * pow2 (- 537) \<le> roundToDouble (sqrt r)" by linarith
  have "toNumber (sqrt r) = Finite (roundToDouble (sqrt r)) \<or> toNumber (sqrt r) = PosInfinity"
    using assms(2) by (simp add: toNumber_def)
  then show ?thesis using b assms(2) by auto
qed

lemma number_sqrt_shape:
  assumes "v \<noteq> Finite 0" "\<forall>r. v = Finite r \<longrightarrow> onGrid r"
  shows "number_sqrt v = NaN \<or> number_sqrt v = PosInfinity
         \<or> (\<exists>s. number_sqrt v = Finite s \<and> 3 / 4 * pow2 (- 537) \<le> s)"
proof (cases v)
  case (Finite r)
  show ?thesis
  proof (cases "r < 0")
    case True
    then show ?thesis by (simp add: Finite)
  next
    case False
    then have "0 < r" using assms(1) Finite by simp
    moreover have "onGrid r" using assms(2) Finite by simp
    ultimately show ?thesis using number_sqrt_positive [of r] by (simp only: Finite) blast
  qed
qed simp_all

lemma number_mul_roots:
  assumes "x = NaN \<or> x = PosInfinity \<or> (\<exists>s. x = Finite s \<and> 3 / 4 * pow2 (- 537) \<le> s)"
    and "y = NaN \<or> y = PosInfinity \<or> (\<exists>s. y = Finite s \<and> 3 / 4 * pow2 (- 537) \<le> s)"
  shows "number_mul x y \<noteq> Finite 0"
proof -
  have pos: "0 < 3 / 4 * pow2 (- 537)" by simp
  have fin: "number_mul (Finite s) (Finite t) \<noteq> Finite 0"
    if "3 / 4 * pow2 (- 537) \<le> s" "3 / 4 * pow2 (- 537) \<le> t" for s t
  proof -
    have s0: "0 \<le> s" using that(1) pos by linarith
    have "3 / 4 * pow2 (- 537) * (3 / 4 * pow2 (- 537)) \<le> s * t"
      using that(1) that(2) s0 by (rule mult_mono) simp
    moreover have "pow2 (- 537) * pow2 (- 537) = 2 * pow2 (- 1075)"
      using pow2_add [of "- 537" "- 537"] pow2_add [of 1 "- 1075"] by simp
    ultimately have "9 / 8 * pow2 (- 1075) \<le> s * t" by simp
    moreover have "pow2 (- 1075) < 9 / 8 * pow2 (- 1075)" by simp
    ultimately have "pow2 (- 1075) < \<bar>s * t\<bar>" by linarith
    then have "roundToDouble (s * t) \<noteq> 0" by (rule roundToDouble_nonzero)
    then show ?thesis by (simp add: toNumber_def)
  qed
  have inf: "infinity_times v \<noteq> Finite 0" "number_negate (infinity_times v) \<noteq> Finite 0" for v
    by (cases v; simp)+
  show ?thesis
    using assms fin by (auto simp: inf simp del: infinity_times.simps)
qed

lemma number_div_total:
  assumes "y \<noteq> Finite 0"
  shows "\<exists>r. number_div x y = Inr r"
  using assms by (cases x; cases y) simp_all

text \<open>
  The scorer returns for all vectors, whatever their entries, and returns 0 when the
  lengths differ or one of the vectors consists of zeros.
\<close>

lemma cosineSimilarityIEEE_total:
  "\<exists>r. cosineSimilarityIEEE a b = Inr r
       \<and> (length a \<noteq> length b \<or> list_all (\<lambda>x. x = Finite 0) a
            \<or> list_all (\<lambda>x. x = Finite 0) b \<longrightarrow> r = Finite 0)"
proof (cases "length a = length b")
  case False
  then show ?thesis by (simp add: cosineSimilarityIEEE_def)
next
  case len: True
  let ?nA = "accumulate a a (length a)" and ?nB = "accumulate b b (length a)"
  show ?thesis
  proof (cases "?nA = Finite 0 \<or> ?nB = Finite 0")
    case True
    then show ?thesis by (auto simp: cosineSimilarityIEEE_def dotLoopIEEE_accumulate len)
  next
    case False
    have za: "\<not> list_all (\<lambda>x. x = Finite 0) a"
      using False accumulate_zeros [of "length a" a] by (auto simp: list_all_length)
    have zb: "\<not> list_all (\<lambda>x. x = Finite 0) b"
      using False accumulate_zeros [of "length b" b] len by (auto simp: list_all_length)
    have "number_mul (number_sqrt ?nA) (number_sqrt ?nB) \<noteq> Finite 0"
      using False
      by (intro number_mul_roots number_sqrt_shape) (auto dest: accumulate_onGrid)
    from number_div_total [OF this, of "accumulate a b (length a)"] za zb False show ?thesis
      by (auto simp: cosineSimilarityIEEE_def dotLoopIEEE_accumulate len)
  qed
qed

subsection \<open>Error growth\<close>

lemma growth_ge_one: "1 \<le> growth"
  by (simp add: growth_def pow2_neg_numeral)

lemma growth_pos: "0 < growth"
  using growth_ge_one by linarith

lemma growth_inverse: "x / growth = x * (1 - pow2 (- 53))"
  by (simp add: growth_def)

lemma growth_ge_one_plus: "1 + pow2 (- 53) \<le> growth"
  by (simp add: growth_def pow2_neg_numeral)

lemma growth_power_ge_one: "1 \<le> growth ^ m"
  using growth_ge_one by (rule one_le_power)

lemma growth_power:
  assumes "real m * pow2 (- 53) < 1"
  shows "growth ^ m \<le> 1 / (1 - real m * pow2 (- 53))"
proof -
  have "1 + real m * (- pow2 (- 53)) \<le> (1 + (- pow2 (- 53))) ^ m"
    by (rule Bernoulli_inequality) (simp add: pow2_neg_numeral)
  then have b: "1 - real m * pow2 (- 53) \<le> (1 - pow2 (- 53)) ^ m" by simp
  have "growth ^ m = 1 / (1 - pow2 (- 53)) ^ m"
    by (simp add: growth_def power_one_over)
  also have "\<dots> \<le> 1 / (1 - real m * pow2 (- 53))"
    using assms b by (intro divide_left_mono) (simp_all add: pow2_neg_numeral)
  finally show ?thesis .
qed

lemma growth_power_le_2:
  assumes "m \<le> 2 ^ 23"
  shows "growth ^ m \<le> 2"
proof -
  have m: "real m \<le> 2 ^ 23" using assms by (metis of_nat_le_iff of_nat_numeral of_nat_power)
  have "real m * pow2 (- 53) \<le> 2 ^ 23 * pow2 (- 53)"
    using m by (intro mult_right_mono) simp_all
  also have "\<dots> = 1 / 2 ^ 30" by (simp add: pow2_neg_numeral)
  finally have s: "real m * pow2 (- 53) \<le> 1 / 2 ^ 30" .
  then have "real m * pow2 (- 53) < 1" by simp
  then have "growth ^ m \<le> 1 / (1 - real m * pow2 (- 53))" by (rule growth_power)
  also have "\<dots> \<le> 1 / (1 - 1 / 2 ^ 30)"
    using s by (intro divide_left_mono) simp_all
  also have "\<dots> \<le> 2" by simp
  finally show ?thesis .
qed

lemma accurate_zero [simp]: "accurate 0"
  by (simp add: accurate_def)

lemma accurate_normal: "pow2 (- 1022) \<le> \<bar>x\<bar> \<Longrightarrow> accurate x"
  unfolding accurate_def by (rule roundToDouble_normal)

lemma accurate_onGrid: "onGrid x \<Longrightarrow> accurate x"
  unfolding accurate_def onGrid_def using roundToDouble_on_grid by blast

lemma accurate_upper:
  assumes "accurate x"
  shows "\<bar>roundToDouble x\<bar> \<le> growth * \<bar>x\<bar>"
proof -
  have "\<bar>roundToDouble x\<bar> \<le> \<bar>x\<bar> + pow2 (- 53) * \<bar>x\<bar>"
    using assms unfolding accurate_def by linarith
  also have "\<dots> = (1 + pow2 (- 53)) * \<bar>x\<bar>" by (simp add: algebra_simps)
  also have "\<dots> \<le> growth * \<bar>x\<bar>"
    by (intro mult_right_mono growth_ge_one_plus) simp
  finally show ?thesis .
qed

lemma accurate_lower:
  assumes "accurate x" "0 \<le> x"
  shows "x / growth \<le> roundToDouble x"
proof -
  have "x - pow2 (- 53) * x \<le> roundToDouble x"
    using assms unfolding accurate_def by (simp add: abs_le_iff)
  then show ?thesis by (simp add: growth_inverse algebra_simps)
qed

lemma accurate_nonneg:
  assumes "accurate x" "0 \<le> x"
  shows "0 \<le> roundToDouble x"
proof -
  have "0 \<le> x / growth" using assms(2) growth_pos by simp
  then show ?thesis using accurate_lower [OF assms] by linarith
qed

lemma toNumber_finite:
  assumes "accurate x" "\<bar>x\<bar> \<le> pow2 1023"
  shows "toNumber x = Finite (roundToDouble x)"
proof -
  have "\<bar>roundToDouble x\<bar> \<le> \<bar>x\<bar> + pow2 (- 53) * \<bar>x\<bar>"
    using assms(1) unfolding accurate_def by linarith
  moreover have "pow2 (- 53) * \<bar>x\<bar> \<le> 1 / 2 * \<bar>x\<bar>"
    by (intro mult_right_mono) (simp_all add: pow2_neg_numeral)
  ultimately have "\<bar>roundToDouble x\<bar> \<le> 3 / 2 * pow2 1023" using assms(2) by linarith
  moreover have "3 / 2 * pow2 1023 < pow2 1024"
    using pow2_add [of 1 1023] by simp
  ultimately show ?thesis by (simp add: toNumber_def)
qed

lemma onGrid_add:
  assumes "onGrid x" "onGrid y"
  shows "onGrid (x + y)"
proof -
  obtain m n :: int where "x = of_int m * pow2 (- 1074)" "y = of_int n * pow2 (- 1074)"
    using assms unfolding onGrid_def by blast
  then have "x + y = of_int (m + n) * pow2 (- 1074)" by (simp add: algebra_simps)
  then show ?thesis unfolding onGrid_def by blast
qed

lemma onGrid_roundToDouble [simp]: "onGrid (roundToDouble x)"
  unfolding onGrid_def by (rule roundToDouble_grid)

lemma moderate_product:
  assumes "moderate (Finite x)" "moderate (Finite y)"
  shows "accurate (x * y)" "\<bar>x * y\<bar> \<le> pow2 1000" "x * y = 0 \<or> pow2 (- 1000) \<le> \<bar>x * y\<bar>"
proof -
  have *: "accurate (x * y) \<and> \<bar>x * y\<bar> \<le> pow2 1000 \<and> (x * y = 0 \<or> pow2 (- 1000) \<le> \<bar>x * y\<bar>)"
  proof (cases "x = 0 \<or> y = 0")
    case True
    then show ?thesis by auto
  next
    case False
    then have x: "pow2 (- 500) \<le> \<bar>x\<bar>" "\<bar>x\<bar> \<le> pow2 500"
      and y: "pow2 (- 500) \<le> \<bar>y\<bar>" "\<bar>y\<bar> \<le> pow2 500"
      using assms by simp_all
    have "pow2 (- 500) * pow2 (- 500) \<le> \<bar>x\<bar> * \<bar>y\<bar>"
      using x(1) y(1) by (intro mult_mono) simp_all
    then have lo: "pow2 (- 1000) \<le> \<bar>x * y\<bar>"
      using pow2_add [of "- 500" "- 500"] by (simp add: abs_mult)
    have "\<bar>x\<bar> * \<bar>y\<bar> \<le> pow2 500 * pow2 500"
      using x(2) y(2) by (intro mult_mono) simp_all
    then have hi: "\<bar>x * y\<bar> \<le> pow2 1000"
      using pow2_add [of 500 500] by (simp add: abs_mult)
    have "pow2 (- 1022) \<le> pow2 (- 1000)" by simp
    with lo have "pow2 (- 1022) \<le> \<bar>x * y\<bar>" by linarith
    then have "accurate (x * y)" by (rule accurate_normal)
    with lo hi show ?thesis by simp
  qed
  from * show "accurate (x * y)" "\<bar>x * y\<bar> \<le> pow2 1000"
    "x * y = 0 \<or> pow2 (- 1000) \<le> \<bar>x * y\<bar>" by simp_all
qed

text \<open>One iteration of the loop: an upper bound on the magnitude of an accumulator.\<close>

lemma step_upper:
  assumes d: "onGrid d" "\<bar>d\<bar> \<le> W * S" and W: "1 \<le> W" and S: "0 \<le> S"
    and xy: "moderate (Finite x)" "moderate (Finite y)"
    and bound: "W * growth\<^sup>2 * (S + \<bar>x * y\<bar>) \<le> pow2 1023"
  shows "\<exists>d'. number_add (Finite d) (number_mul (Finite x) (Finite y)) = Finite d'
            \<and> d' = roundToDouble (d + roundToDouble (x * y))
            \<and> onGrid d' \<and> \<bar>d'\<bar> \<le> W * growth\<^sup>2 * (S + \<bar>x * y\<bar>)"
proof -
  define P where "P = x * y"
  define p where "p = roundToDouble P"
  note g1 = growth_ge_one
  have g0: "0 \<le> growth" using g1 by linarith
  have W0: "0 \<le> W" using W by linarith
  have SP: "0 \<le> S + \<bar>P\<bar>" using S by simp
  have accP: "accurate P" unfolding P_def using xy by (rule moderate_product(1))
  have Wg: "W * growth \<le> W * growth\<^sup>2"
    unfolding power2_eq_square mult.assoc [symmetric]
    using mult_left_mono [OF g1, of "W * growth"] W0 g0 by simp
  have one: "1 \<le> W * growth" using W g1 mult_mono [of 1 W 1 growth] by simp
  have b1: "W * growth * (S + \<bar>P\<bar>) \<le> W * growth\<^sup>2 * (S + \<bar>P\<bar>)"
    using Wg SP by (rule mult_right_mono)
  have b0: "S + \<bar>P\<bar> \<le> W * growth * (S + \<bar>P\<bar>)"
    using mult_right_mono [OF one SP] by simp
  have top: "W * growth\<^sup>2 * (S + \<bar>P\<bar>) \<le> pow2 1023" using bound by (simp add: P_def)
  have "\<bar>P\<bar> \<le> pow2 1023" using S b0 b1 top by linarith
  with accP have tP: "toNumber P = Finite p" unfolding p_def by (rule toNumber_finite)
  have pP: "\<bar>p\<bar> \<le> growth * \<bar>P\<bar>" unfolding p_def using accP by (rule accurate_upper)
  have gp: "onGrid p" by (simp add: p_def)
  have acc: "accurate (d + p)" using d(1) gp by (intro accurate_onGrid onGrid_add)
  have "W * S \<le> W * growth * S"
    using mult_left_mono [OF g1, of "W * S"] W0 S by (simp add: mult_ac)
  moreover have "growth * \<bar>P\<bar> \<le> W * growth * \<bar>P\<bar>"
    using mult_right_mono [OF W, of "growth * \<bar>P\<bar>"] g0 by (simp add: mult_ac)
  ultimately have s: "\<bar>d + p\<bar> \<le> W * growth * (S + \<bar>P\<bar>)"
    using d(2) pP by (simp add: algebra_simps)
  then have "\<bar>d + p\<bar> \<le> pow2 1023" using b1 top by linarith
  with acc have t: "toNumber (d + p) = Finite (roundToDouble (d + p))" by (rule toNumber_finite)
  have "\<bar>roundToDouble (d + p)\<bar> \<le> growth * \<bar>d + p\<bar>" using acc by (rule accurate_upper)
  also have "\<dots> \<le> growth * (W * growth * (S + \<bar>P\<bar>))" using s g0 by (rule mult_left_mono)
  also have "\<dots> = W * growth\<^sup>2 * (S + \<bar>P\<bar>)" by (simp add: power2_eq_square mult_ac)
  finally have "\<bar>roundToDouble (d + p)\<bar> \<le> W * growth\<^sup>2 * (S + \<bar>P\<bar>)" .
  then show ?thesis
    using tP t by (simp add: P_def [symmetric] p_def [symmetric])
qed

text \<open>One iteration of the loop: a lower bound on a sum of squares.\<close>

lemma step_lower:
  assumes a: "onGrid \<alpha>" "A / W \<le> \<alpha>" and W: "1 \<le> W" and A: "0 \<le> A"
    and x: "moderate (Finite x)"
  shows "(A + x * x) / (W * growth\<^sup>2) \<le> roundToDouble (\<alpha> + roundToDouble (x * x))"
proof -
  define Q where "Q = x * x"
  define q where "q = roundToDouble Q"
  note g1 = growth_ge_one
  have g0: "0 < growth" using g1 by linarith
  have W0: "0 < W" using W by linarith
  have Q0: "0 \<le> Q" by (simp add: Q_def)
  have accQ: "accurate Q" unfolding Q_def using x x by (rule moderate_product(1))
  have q1: "Q / growth \<le> q" unfolding q_def using accQ Q0 by (rule accurate_lower)
  have "Q / (W * growth) \<le> Q / growth"
    using Q0 g0 W by (intro divide_left_mono) (simp_all add: mult_pos_pos W0)
  with q1 have q2: "Q / (W * growth) \<le> q" by linarith
  have "A / (W * growth) \<le> A / W"
    using A W0 g1 g0 by (intro divide_left_mono) (simp_all add: mult_pos_pos)
  with a(2) have a2: "A / (W * growth) \<le> \<alpha>" by linarith
  have s: "(A + Q) / (W * growth) \<le> \<alpha> + q"
    using a2 q2 by (simp add: add_divide_distrib)
  have nn: "0 \<le> (A + Q) / (W * growth)" using A Q0 W0 g0 by simp
  then have pos: "0 \<le> \<alpha> + q" using s by linarith
  have acc: "accurate (\<alpha> + q)"
    using a(1) by (intro accurate_onGrid onGrid_add) (simp_all add: q_def)
  have "(A + Q) / (W * growth) / growth \<le> (\<alpha> + q) / growth"
    using s by (rule divide_right_mono) (simp add: g0 less_imp_le)
  also have "\<dots> \<le> roundToDouble (\<alpha> + q)" using acc pos by (rule accurate_lower)
  finally show ?thesis by (simp add: power2_eq_square Q_def q_def mult_ac)
qed

subsection \<open>The loop\<close>

lemma moderate_Finite: "moderate v \<Longrightarrow> v = Finite (val v)"
  by (cases v) simp_all

lemma moderate_val: "moderate v \<Longrightarrow> moderate (Finite (val v))"
  by (cases v) simp_all

lemma sum_products_le:
  assumes "\<forall>i<n. moderate (a ! i) \<and> moderate (b ! i)"
  shows "(\<Sum>i<n. \<bar>val (a ! i) * val (b ! i)\<bar>) \<le> real n * pow2 1000"
proof -
  have "(\<Sum>i\<in>{..<n}. \<bar>val (a ! i) * val (b ! i)\<bar>) \<le> of_nat (card {..<n}) * pow2 1000"
    using assms by (intro sum_bounded_above moderate_product(2) moderate_val) simp_all
  then show ?thesis by simp
qed

lemma total_bound:
  assumes "m \<le> 2 ^ 23" "n \<le> 2 ^ 20" "0 \<le> T" "T \<le> real n * pow2 1000"
  shows "growth ^ m * T \<le> pow2 1021"
proof -
  have n: "real n \<le> 2 ^ 20" using assms(2) by (metis of_nat_le_iff of_nat_numeral of_nat_power)
  have "real n * pow2 1000 \<le> 2 ^ 20 * pow2 1000"
    using n by (intro mult_right_mono) simp_all
  also have "\<dots> = pow2 1020" using pow2_add [of 20 1000] by (simp add: pow2_numeral)
  finally have T: "T \<le> pow2 1020" using assms(4) by linarith
  have "growth ^ m * T \<le> 2 * pow2 1020"
    using growth_power_le_2 [OF assms(1)] T assms(3) by (intro mult_mono) simp_all
  also have "\<dots> = pow2 1021" using pow2_add [of 1 1020] by simp
  finally show ?thesis .
qed

lemma growth_step: "growth ^ (2 * Suc n) = growth ^ (2 * n) * growth\<^sup>2"
  by (simp add: power2_eq_square)

lemma accumulate_upper:
  assumes "\<forall>i<n. moderate (a ! i) \<and> moderate (b ! i)" "n \<le> 2 ^ 20"
  shows "\<exists>d. accumulate a b n = Finite d \<and> onGrid d
           \<and> \<bar>d\<bar> \<le> growth ^ (2 * n) * (\<Sum>i<n. \<bar>val (a ! i) * val (b ! i)\<bar>)"
  using assms
proof (induction n)
  case 0
  show ?case by simp
next
  case (Suc n)
  define S where "S = (\<Sum>i<n. \<bar>val (a ! i) * val (b ! i)\<bar>)"
  define x where "x = val (a ! n)"
  define y where "y = val (b ! n)"
  obtain d where d: "accumulate a b n = Finite d" "onGrid d" "\<bar>d\<bar> \<le> growth ^ (2 * n) * S"
    using Suc unfolding S_def by auto
  have mn: "moderate (a ! n)" "moderate (b ! n)" using Suc.prems(1) by blast+
  have mx: "moderate (Finite x)" unfolding x_def using mn(1) by (rule moderate_val)
  have my: "moderate (Finite y)" unfolding y_def using mn(2) by (rule moderate_val)
  have ax: "a ! n = Finite x" unfolding x_def using mn(1) by (rule moderate_Finite)
  have by': "b ! n = Finite y" unfolding y_def using mn(2) by (rule moderate_Finite)
  have S0: "0 \<le> S" unfolding S_def by (rule sum_nonneg) simp
  have T: "S + \<bar>x * y\<bar> \<le> real (Suc n) * pow2 1000"
    using sum_products_le [OF Suc.prems(1)] by (simp add: S_def x_def y_def)
  have m: "2 * Suc n \<le> 2 ^ 23" using Suc.prems(2) by simp
  have "0 \<le> S + \<bar>x * y\<bar>" using S0 by simp
  then have "growth ^ (2 * Suc n) * (S + \<bar>x * y\<bar>) \<le> pow2 1021"
    using T by (rule total_bound [OF m Suc.prems(2)])
  moreover have "pow2 1021 \<le> pow2 1023" by simp
  ultimately have bound: "growth ^ (2 * n) * growth\<^sup>2 * (S + \<bar>x * y\<bar>) \<le> pow2 1023"
    unfolding growth_step by linarith
  from step_upper [OF d(2,3) growth_power_ge_one S0 mx my bound]
  show ?case
    unfolding accumulate_Suc d(1) ax by' growth_step
    by (auto simp: S_def x_def y_def simp del: number_add.simps number_mul.simps)
qed

lemma accumulate_squares:
  assumes "\<forall>i<n. moderate (a ! i)" "n \<le> 2 ^ 20"
  shows "\<exists>\<alpha>. accumulate a a n = Finite \<alpha> \<and> onGrid \<alpha>
           \<and> (\<Sum>i<n. val (a ! i) * val (a ! i)) / growth ^ (2 * n) \<le> \<alpha>
           \<and> \<alpha> \<le> growth ^ (2 * n) * (\<Sum>i<n. val (a ! i) * val (a ! i))"
  using assms
proof (induction n)
  case 0
  show ?case by simp
next
  case (Suc n)
  define A where "A = (\<Sum>i<n. val (a ! i) * val (a ! i))"
  define x where "x = val (a ! n)"
  obtain \<alpha> where al: "accumulate a a n = Finite \<alpha>" "onGrid \<alpha>"
    "A / growth ^ (2 * n) \<le> \<alpha>" "\<alpha> \<le> growth ^ (2 * n) * A"
    using Suc unfolding A_def by auto
  have mn: "moderate (a ! n)" using Suc.prems(1) by blast
  have mx: "moderate (Finite x)" unfolding x_def using mn by (rule moderate_val)
  have ax: "a ! n = Finite x" unfolding x_def using mn by (rule moderate_Finite)
  have A0: "0 \<le> A" unfolding A_def by (rule sum_nonneg) simp
  have "0 \<le> A / growth ^ (2 * n)" using A0 growth_pos by simp
  then have abs: "\<bar>\<alpha>\<bar> \<le> growth ^ (2 * n) * A" using al(3,4) by linarith
  have "(\<Sum>i<Suc n. \<bar>val (a ! i) * val (a ! i)\<bar>) \<le> real (Suc n) * pow2 1000"
    using Suc.prems(1) by (intro sum_products_le) simp
  then have T: "A + \<bar>x * x\<bar> \<le> real (Suc n) * pow2 1000"
    by (simp add: A_def x_def)
  have m: "2 * Suc n \<le> 2 ^ 23" using Suc.prems(2) by simp
  have "0 \<le> A + \<bar>x * x\<bar>" using A0 by simp
  then have "growth ^ (2 * Suc n) * (A + \<bar>x * x\<bar>) \<le> pow2 1021"
    using T by (rule total_bound [OF m Suc.prems(2)])
  moreover have "pow2 1021 \<le> pow2 1023" by simp
  ultimately have bound: "growth ^ (2 * n) * growth\<^sup>2 * (A + \<bar>x * x\<bar>) \<le> pow2 1023"
    unfolding growth_step by linarith
  obtain \<alpha>' where al': "number_add (Finite \<alpha>) (number_mul (Finite x) (Finite x)) = Finite \<alpha>'"
    "\<alpha>' = roundToDouble (\<alpha> + roundToDouble (x * x))" "onGrid \<alpha>'"
    "\<bar>\<alpha>'\<bar> \<le> growth ^ (2 * n) * growth\<^sup>2 * (A + \<bar>x * x\<bar>)"
    using step_upper [OF al(2) abs growth_power_ge_one A0 mx mx bound] by blast
  have lo: "(A + x * x) / (growth ^ (2 * n) * growth\<^sup>2) \<le> \<alpha>'"
    unfolding al'(2) using al(2,3) growth_power_ge_one A0 mx by (rule step_lower)
  have hi: "\<alpha>' \<le> growth ^ (2 * n) * growth\<^sup>2 * (A + x * x)"
    using al'(4) by simp
  show ?case
    unfolding accumulate_Suc al(1) ax growth_step
    using al'(1,3) lo hi by (simp add: A_def x_def del: number_add.simps number_mul.simps)
qed

subsection \<open>The bound\<close>

lemma roundToDouble_magnitude:
  "\<bar>roundToDouble x\<bar> \<le> growth * max \<bar>x\<bar> (pow2 (- 1022))"
proof (cases "pow2 (- 1022) \<le> \<bar>x\<bar>")
  case True
  then have "\<bar>roundToDouble x\<bar> \<le> growth * \<bar>x\<bar>"
    by (intro accurate_upper accurate_normal)
  then show ?thesis using True by (simp add: max_def)
next
  case False
  show ?thesis
  proof (cases "x = 0")
    case True
    then show ?thesis using growth_pos by (simp add: max_def)
  next
    case x0: False
    have u: "ulp x = pow2 (- 1074)" using x0 False by (intro ulp_subnormal) simp_all
    have "pow2 (- 1074) / 2 = pow2 (- 53) * pow2 (- 1022)"
      using pow2_add [of "- 53" "- 1022"] pow2_add [of "- 1" "- 1074"] by (simp add: pow2_neg)
    then have "\<bar>roundToDouble x\<bar> \<le> pow2 (- 1022) + pow2 (- 53) * pow2 (- 1022)"
      using roundToDouble_error [of x] False unfolding u by linarith
    also have "\<dots> = (1 + pow2 (- 53)) * pow2 (- 1022)" by (simp add: algebra_simps)
    also have "\<dots> \<le> growth * pow2 (- 1022)"
      by (intro mult_right_mono growth_ge_one_plus) simp
    finally show ?thesis using False by (simp add: max_def)
  qed
qed

text \<open>The square root of a sum of squares in the normal range.\<close>

lemma number_sqrt_bounds:
  assumes "pow2 (- 1002) \<le> \<alpha>" "\<alpha> \<le> pow2 1022"
  shows "number_sqrt (Finite \<alpha>) = Finite (roundToDouble (sqrt \<alpha>))"
    "sqrt \<alpha> / growth \<le> roundToDouble (sqrt \<alpha>)"
    "roundToDouble (sqrt \<alpha>) \<le> growth * sqrt \<alpha>"
    "pow2 (- 501) \<le> sqrt \<alpha>" "sqrt \<alpha> \<le> pow2 511"
proof -
  have a0: "0 < \<alpha>" using assms(1) pow2_pos [of "- 1002"] by linarith
  have "sqrt (pow2 (2 * (- 501))) \<le> sqrt \<alpha>" using assms(1) by simp
  then show lo: "pow2 (- 501) \<le> sqrt \<alpha>" by (simp only: pow2_sqrt)
  have "sqrt \<alpha> \<le> sqrt (pow2 (2 * 511))" using assms(2) by simp
  then show hi: "sqrt \<alpha> \<le> pow2 511" by (simp only: pow2_sqrt)
  have s0: "0 \<le> sqrt \<alpha>" using a0 by simp
  have "pow2 (- 1022) \<le> pow2 (- 501)" by simp
  then have "pow2 (- 1022) \<le> \<bar>sqrt \<alpha>\<bar>" using lo by linarith
  then have acc: "accurate (sqrt \<alpha>)" by (rule accurate_normal)
  show "sqrt \<alpha> / growth \<le> roundToDouble (sqrt \<alpha>)" using acc s0 by (rule accurate_lower)
  show "roundToDouble (sqrt \<alpha>) \<le> growth * sqrt \<alpha>"
    using accurate_upper [OF acc] s0 by simp
  have "pow2 511 \<le> pow2 1023" by simp
  then have "\<bar>sqrt \<alpha>\<bar> \<le> pow2 1023" using hi s0 by linarith
  with acc have "toNumber (sqrt \<alpha>) = Finite (roundToDouble (sqrt \<alpha>))" by (rule toNumber_finite)
  then show "number_sqrt (Finite \<alpha>) = Finite (roundToDouble (sqrt \<alpha>))"
    using a0 by simp
qed

lemma sum_squares_lower:
  assumes "\<forall>i<n. moderate (a ! i)" "(\<Sum>i<n. val (a ! i) * val (a ! i)) \<noteq> 0"
  shows "pow2 (- 1000) \<le> (\<Sum>i<n. val (a ! i) * val (a ! i))"
proof -
  obtain i where i: "i < n" "val (a ! i) * val (a ! i) \<noteq> 0"
    using assms(2) by (metis (no_types, lifting) lessThan_iff sum.neutral)
  have "moderate (Finite (val (a ! i)))" using assms(1) i(1) by (intro moderate_val) simp
  then have "pow2 (- 1000) \<le> \<bar>val (a ! i) * val (a ! i)\<bar>"
    using moderate_product(3) [of "val (a ! i)" "val (a ! i)"] i(2) by blast
  then have "pow2 (- 1000) \<le> val (a ! i) * val (a ! i)" by simp
  also have "\<dots> \<le> (\<Sum>i<n. val (a ! i) * val (a ! i))"
    using i(1) by (intro member_le_sum) simp_all
  finally show ?thesis .
qed

lemma sum_products_cauchy_schwarz:
  "(\<Sum>i<n. \<bar>val (a ! i) * val (b ! i)\<bar>)
     \<le> sqrt ((\<Sum>i<n. val (a ! i) * val (a ! i)) * (\<Sum>i<n. val (b ! i) * val (b ! i)))"
proof -
  have "(\<Sum>i<n. \<bar>val (a ! i)\<bar> * \<bar>val (b ! i)\<bar>)\<^sup>2
      \<le> (\<Sum>i<n. \<bar>val (a ! i)\<bar> * \<bar>val (a ! i)\<bar>) * (\<Sum>i<n. \<bar>val (b ! i)\<bar> * \<bar>val (b ! i)\<bar>)"
    by (rule cauchy_schwarz_sum)
  then have "(\<Sum>i<n. \<bar>val (a ! i) * val (b ! i)\<bar>)\<^sup>2
      \<le> (\<Sum>i<n. val (a ! i) * val (a ! i)) * (\<Sum>i<n. val (b ! i) * val (b ! i))"
    by (simp add: abs_mult)
  then show ?thesis by (rule real_le_rsqrt)
qed

lemma final_growth:
  assumes "n \<le> 2 ^ 20"
  shows "growth ^ (4 * n + 4) \<le> 1 + 1 / 2 ^ 29"
proof -
  have "real n \<le> 2 ^ 20" using assms by (metis of_nat_le_iff of_nat_numeral of_nat_power)
  then have m: "real (4 * n + 4) \<le> 2 ^ 22 + 4" by simp
  have "real (4 * n + 4) * pow2 (- 53) \<le> (2 ^ 22 + 4) * pow2 (- 53)"
    using m by (intro mult_right_mono) simp_all
  also have "\<dots> = (2 ^ 22 + 4) / 2 ^ 53" by (simp add: pow2_neg_numeral)
  finally have s: "real (4 * n + 4) * pow2 (- 53) \<le> (2 ^ 22 + 4) / 2 ^ 53" .
  then have "real (4 * n + 4) * pow2 (- 53) < 1" by simp
  then have "growth ^ (4 * n + 4) \<le> 1 / (1 - real (4 * n + 4) * pow2 (- 53))"
    by (rule growth_power)
  also have "\<dots> \<le> 1 / (1 - (2 ^ 22 + 4) / 2 ^ 53)"
    using s by (intro divide_left_mono) simp_all
  also have "\<dots> \<le> 1 + 1 / 2 ^ 29" by simp
  finally show ?thesis .
qed

text \<open>
  For vectors of moderate entries the rounding errors of the loop, the two square roots,
  the product and the quotient enlarge the magnitude of the result by at most the factor
  \<open>growth ^ (4 n + 4)\<close> over the exact cosine, which the Cauchy-Schwarz inequality
  bounds by 1.
\<close>

lemma cosineSimilarityIEEE_bound:
  assumes len: "length a = length b" and n: "length a \<le> 2 ^ 20"
    and ma: "list_all moderate a" and mb: "list_all moderate b"
  shows "\<exists>r. cosineSimilarityIEEE a b = Inr (Finite r) \<and> \<bar>r\<bar> \<le> 1 + 1 / 2 ^ 29"
proof -
  define n where "n = length a"
  define W where "W = growth ^ (2 * n)"
  define S where "S = (\<Sum>i<n. \<bar>val (a ! i) * val (b ! i)\<bar>)"
  define A where "A = (\<Sum>i<n. val (a ! i) * val (a ! i))"
  define B where "B = (\<Sum>i<n. val (b ! i) * val (b ! i))"
  have n20: "n \<le> 2 ^ 20" using n by (simp add: n_def)
  have mods: "\<forall>i<n. moderate (a ! i)" "\<forall>i<n. moderate (b ! i)"
    using ma mb len by (simp_all add: n_def list_all_length)
  then have both: "\<forall>i<n. moderate (a ! i) \<and> moderate (b ! i)" by simp
  obtain d where d: "accumulate a b n = Finite d" "\<bar>d\<bar> \<le> W * S"
    using accumulate_upper [OF both n20] unfolding W_def S_def by blast
  obtain \<alpha> where al: "accumulate a a n = Finite \<alpha>" "A / W \<le> \<alpha>" "\<alpha> \<le> W * A"
    using accumulate_squares [OF mods(1) n20] unfolding W_def A_def by blast
  obtain \<beta> where be: "accumulate b b n = Finite \<beta>" "B / W \<le> \<beta>" "\<beta> \<le> W * B"
    using accumulate_squares [OF mods(2) n20] unfolding W_def B_def by blast
  have loop: "dotLoopIEEE a b = (Finite d, Finite \<alpha>, Finite \<beta>)"
    by (simp add: dotLoopIEEE_accumulate n_def [symmetric] d(1) al(1) be(1))
  have W1: "1 \<le> W" unfolding W_def by (rule growth_power_ge_one)
  have W0: "0 < W" using W1 by linarith
  have W2: "W \<le> 2" unfolding W_def using n20 by (intro growth_power_le_2) simp
  have A0: "0 \<le> A" unfolding A_def by (rule sum_nonneg) simp
  have B0: "0 \<le> B" unfolding B_def by (rule sum_nonneg) simp
  have S0: "0 \<le> S" unfolding S_def by (rule sum_nonneg) simp
  show ?thesis
  proof (cases "A = 0 \<or> B = 0")
    case True
    then have "\<alpha> = 0 \<or> \<beta> = 0" using al(2,3) be(2,3) by auto
    then show ?thesis by (auto simp: cosineSimilarityIEEE_def len loop)
  next
    case False
    have Apos: "0 < A" and Bpos: "0 < B" using False A0 B0 by simp_all
    have range: "pow2 (- 1002) \<le> \<gamma> \<and> \<gamma> \<le> pow2 1022"
      if c: "C / W \<le> \<gamma>" "\<gamma> \<le> W * C" and C: "pow2 (- 1000) \<le> C" "C \<le> real n * pow2 1000"
      for C \<gamma>
    proof
      have C0: "0 \<le> C" using C(1) pow2_pos [of "- 1000"] by linarith
      have "pow2 (- 1000) / 2 \<le> C / W"
        using C(1) W2 W0 C0 by (intro frac_le) simp_all
      moreover have "pow2 (- 1000) / 2 = pow2 (- 1001)"
        using pow2_add [of "- 1" "- 1000"] by (simp add: pow2_neg)
      moreover have "pow2 (- 1002) \<le> pow2 (- 1001)" by simp
      ultimately show "pow2 (- 1002) \<le> \<gamma>" using c(1) by linarith
      have "growth ^ (2 * n) * C \<le> pow2 1021"
        using n20 C0 C(2) by (intro total_bound) simp_all
      moreover have "pow2 1021 \<le> pow2 1022" by simp
      ultimately show "\<gamma> \<le> pow2 1022" using c(2) unfolding W_def by linarith
    qed
    have Alo: "pow2 (- 1000) \<le> A" unfolding A_def
      using mods(1) False by (intro sum_squares_lower) (simp_all add: A_def)
    have Blo: "pow2 (- 1000) \<le> B" unfolding B_def
      using mods(2) False by (intro sum_squares_lower) (simp_all add: B_def)
    have Ahi: "A \<le> real n * pow2 1000"
      using sum_products_le [of n a a] mods(1) by (simp add: A_def)
    have Bhi: "B \<le> real n * pow2 1000"
      using sum_products_le [of n b b] mods(2) by (simp add: B_def)
    note ra = range [OF al(2,3) Alo Ahi] and rb = range [OF be(2,3) Blo Bhi]
    define s where "s = roundToDouble (sqrt \<alpha>)"
    define t where "t = roundToDouble (sqrt \<beta>)"
    note sa = number_sqrt_bounds [OF ra [THEN conjunct1] ra [THEN conjunct2], folded s_def]
    note sb = number_sqrt_bounds [OF rb [THEN conjunct1] rb [THEN conjunct2], folded t_def]
    note g1 = growth_ge_one
    have g0: "0 < growth" by (rule growth_pos)
    have g2: "growth\<^sup>2 \<le> 2" using growth_power_le_2 [of 2] by simp
    have al0: "0 < \<alpha>" using ra pow2_pos [of "- 1002"] by linarith
    have be0: "0 < \<beta>" using rb pow2_pos [of "- 1002"] by linarith
    have half: "pow2 (- 502) \<le> pow2 (- 501) / growth"
    proof -
      have "growth \<le> 2" using growth_power_le_2 [of 1] by simp
      then have "pow2 (- 501) / 2 \<le> pow2 (- 501) / growth"
        using g0 by (intro divide_left_mono) simp_all
      moreover have "pow2 (- 501) / 2 = pow2 (- 502)"
        using pow2_add [of "- 1" "- 501"] by (simp add: pow2_neg)
      ultimately show ?thesis by simp
    qed
    have slo: "pow2 (- 502) \<le> s"
    proof -
      have "pow2 (- 501) / growth \<le> sqrt \<alpha> / growth"
        using sa(4) g0 by (simp add: divide_right_mono)
      then show ?thesis using half sa(2) by linarith
    qed
    have tlo: "pow2 (- 502) \<le> t"
    proof -
      have "pow2 (- 501) / growth \<le> sqrt \<beta> / growth"
        using sb(4) g0 by (simp add: divide_right_mono)
      then show ?thesis using half sb(2) by linarith
    qed
    have s0: "0 < s" using slo pow2_pos [of "- 502"] by linarith
    have t0: "0 < t" using tlo pow2_pos [of "- 502"] by linarith
    have st0: "0 < s * t" using s0 t0 by simp
    have "pow2 (- 502) * pow2 (- 502) \<le> s * t"
      using slo tlo s0 t0 by (intro mult_mono) simp_all
    then have stlo: "pow2 (- 1004) \<le> s * t"
      using pow2_add [of "- 502" "- 502"] by simp
    have "s * t \<le> growth * sqrt \<alpha> * (growth * sqrt \<beta>)"
      using sa(3) sb(3) s0 t0 by (intro mult_mono) simp_all
    also have "\<dots> = growth\<^sup>2 * (sqrt \<alpha> * sqrt \<beta>)"
      by (simp add: power2_eq_square)
    also have "\<dots> \<le> 2 * (pow2 511 * pow2 511)"
      using g2 sa(5) sb(5) al0 be0 by (intro mult_mono) simp_all
    also have "\<dots> = pow2 1023"
      using pow2_add [of 511 511] pow2_add [of 1 1022] by simp
    finally have sthi: "s * t \<le> pow2 1023" .
    have "pow2 (- 1022) \<le> pow2 (- 1004)" by simp
    then have "pow2 (- 1022) \<le> \<bar>s * t\<bar>" using stlo by linarith
    then have accst: "accurate (s * t)" by (rule accurate_normal)
    define D where "D = roundToDouble (s * t)"
    have "\<bar>s * t\<bar> \<le> pow2 1023" using sthi st0 by simp
    with accst have prod: "number_mul (Finite s) (Finite t) = Finite D"
      unfolding D_def number_mul.simps by (rule toNumber_finite)
    have Dlo: "s * t / growth \<le> D"
      unfolding D_def using accst st0 by (intro accurate_lower) simp_all
    have D0: "0 < D"
    proof -
      have "0 < s * t / growth" using st0 g0 by simp
      then show ?thesis using Dlo by linarith
    qed
    define R where "R = sqrt (A * B)"
    have R0: "0 < R" unfolding R_def using Apos Bpos by simp
    have SR: "S \<le> R" unfolding S_def R_def A_def B_def by (rule sum_products_cauchy_schwarz)
    have "sqrt (A / W) * sqrt (B / W) \<le> sqrt \<alpha> * sqrt \<beta>"
      using al(2) be(2) A0 B0 W0 al0 be0 by (intro mult_mono) simp_all
    moreover have "sqrt (A / W) * sqrt (B / W) = R / W"
      using W0 by (simp add: R_def real_sqrt_mult [symmetric] real_sqrt_divide)
    ultimately have roots: "R / W \<le> sqrt \<alpha> * sqrt \<beta>" by simp
    have "sqrt \<alpha> / growth * (sqrt \<beta> / growth) \<le> s * t"
      using sa(2) sb(2) al0 be0 g0 s0 t0 by (intro mult_mono) simp_all
    then have "sqrt \<alpha> * sqrt \<beta> / growth\<^sup>2 \<le> s * t"
      by (simp add: power2_eq_square)
    moreover have "R / W / growth\<^sup>2 \<le> sqrt \<alpha> * sqrt \<beta> / growth\<^sup>2"
      using roots by (rule divide_right_mono) simp
    ultimately have "R / W / growth\<^sup>2 \<le> s * t" by linarith
    then have "R / W / growth\<^sup>2 / growth \<le> s * t / growth"
      by (rule divide_right_mono) (simp add: g0 less_imp_le)
    with Dlo have DR: "R / (W * growth ^ 3) \<le> D"
      by (simp add: power2_eq_square power3_eq_cube mult_ac)
    define K where "K = W\<^sup>2 * growth ^ 3"
    have K1: "1 \<le> K"
    proof -
      have "1 \<le> W\<^sup>2" using W1 by (simp add: power2_eq_square mult_ge1_I)
      moreover have "1 \<le> growth ^ 3" by (rule growth_power_ge_one)
      ultimately show ?thesis unfolding K_def by (simp add: mult_ge1_I)
    qed
    have "W * S \<le> W * R" using SR by (rule mult_left_mono) (simp add: W0 less_imp_le)
    with d(2) have "\<bar>d\<bar> \<le> W * R" by linarith
    also have "\<dots> = K * (R / (W * growth ^ 3))"
      using W0 g0 by (simp add: K_def power2_eq_square)
    also have "\<dots> \<le> K * D" using DR K1 by (intro mult_left_mono) simp_all
    finally have "\<bar>d\<bar> \<le> K * D" .
    then have q: "\<bar>d / D\<bar> \<le> K" using D0 by (simp add: pos_divide_le_eq)
    define r where "r = roundToDouble (d / D)"
    have "pow2 (- 1022) \<le> 1" by simp
    then have "pow2 (- 1022) \<le> K" using K1 by linarith
    then have "max \<bar>d / D\<bar> (pow2 (- 1022)) \<le> K" using q by (simp only: max.bounded_iff)
    then have "growth * max \<bar>d / D\<bar> (pow2 (- 1022)) \<le> growth * K"
      using g0 by (intro mult_left_mono) simp_all
    then have rK: "\<bar>r\<bar> \<le> growth * K"
      unfolding r_def using roundToDouble_magnitude [of "d / D"] by linarith
    have e4: "growth ^ 4 = growth * growth ^ 3" by (simp add: numeral_eq_Suc)
    have "2 * n * 2 = 4 * n" by simp
    then have W4: "W\<^sup>2 = growth ^ (4 * n)"
      unfolding W_def power_mult [symmetric] by (simp only:)
    have Kpow: "growth * K = growth ^ (4 * n + 4)"
      unfolding K_def W4 power_add e4 by (simp only: mult_ac)
    have "\<bar>r\<bar> \<le> 1 + 1 / 2 ^ 29" using rK final_growth [OF n20] unfolding Kpow by linarith
    moreover have "(1 + 1 / 2 ^ 29 :: real) < pow2 1024"
      using pow2_less [of 1 1024] by (simp del: pow2_less)
    ultimately have fin: "toNumber (d / D) = Finite r"
      by (simp add: toNumber_def r_def [symmetric])
    have "cosineSimilarityIEEE a b = Inr (Finite r)"
      using al0 be0 D0 fin
      by (simp add: cosineSimilarityIEEE_def len loop sa(1) sb(1) prod
          del: number_sqrt.simps number_mul.simps)
    with \<open>\<bar>r\<bar> \<le> 1 + 1 / 2 ^ 29\<close> show ?thesis by simp
  qed
qed

subsection \<open>The scorer on the vector of ones\<close>

lemma roundToDouble_eqI:
  assumes "pow2 e \<le> \<bar>x\<bar>" "\<bar>x\<bar> < pow2 (e + 1)" "- 1022 \<le> e"
    and "\<bar>x / pow2 (e - 52) - of_int m\<bar> < 1 / 2"
  shows "roundToDouble x = of_int m * pow2 (e - 52)"
proof -
  have x0: "x \<noteq> 0" using assms(1) pow2_pos [of e] by auto
  have b: "binade x = e" using assms(1,2) by (rule binade_eqI)
  have u: "ulp x = pow2 (e - 52)" using assms(3) by (simp add: ulp_def b max_def)
  have "roundTiesToEven (x / pow2 (e - 52)) = m" using assms(4) by (rule roundTiesToEven_eqI)
  then show ?thesis using x0 by (simp add: roundToDouble_def u)
qed

lemma toNumber_eqI:
  assumes "pow2 e \<le> \<bar>x\<bar>" "\<bar>x\<bar> < pow2 (e + 1)" "- 1022 \<le> e" "e < 1023"
    and "\<bar>x / pow2 (e - 52) - of_int m\<bar> < 1 / 2"
  shows "toNumber x = Finite (of_int m * pow2 (e - 52))"
proof -
  have r: "roundToDouble x = of_int m * pow2 (e - 52)"
    using assms(1,2,3,5) by (rule roundToDouble_eqI)
  have x0: "x \<noteq> 0" using assms(1) pow2_pos [of e] by auto
  have "binade x = e" using assms(1,2) by (rule binade_eqI)
  then have u: "ulp x = pow2 (e - 52)" using assms(3) by (simp add: ulp_def max_def)
  have "pow2 (e - 52) \<le> pow2 (e + 1)" by simp
  then have "\<bar>roundToDouble x\<bar> < 2 * pow2 (e + 1)"
    using roundToDouble_error [of x] assms(2) pow2_pos [of "e - 52"] unfolding u by linarith
  also have "\<dots> = pow2 (e + 2)" using pow2_add [of 1 "e + 1"] by (simp add: add.commute)
  also have "\<dots> \<le> pow2 1024" using assms(4) by simp
  finally show ?thesis by (simp add: toNumber_def r [symmetric])
qed

lemma toNumber_1: "toNumber 1 = Finite 1"
  using toNumber_eqI [of 0 1 4503599627370496] by (simp add: pow2_neg_numeral)

lemma toNumber_2: "toNumber 2 = Finite 2"
  using toNumber_eqI [of 1 2 4503599627370496] by (simp add: pow2_neg_numeral pow2_numeral)

lemma toNumber_3: "toNumber 3 = Finite 3"
  using toNumber_eqI [of 1 3 6755399441055744] by (simp add: pow2_neg_numeral pow2_numeral)

lemma toNumber_sqrt_3: "toNumber (sqrt 3) = Finite (7800463371553962 / 2 ^ 52)"
proof -
  have lo: "(7800463371553962 - 1 / 2) / 2 ^ 52 < sqrt 3"
    by (rule real_less_rsqrt) (simp add: power2_eq_square)
  have hi: "sqrt 3 < (7800463371553962 + 1 / 2) / 2 ^ 52"
    by (rule real_less_lsqrt) (simp_all add: power2_eq_square)
  have 1: "1 \<le> sqrt 3" by simp
  have 2: "sqrt 3 < 2" by (rule real_less_lsqrt) simp_all
  define t where "t = sqrt 3 * 4503599627370496 - 7800463371553962"
  have "- (1 / 2) < t" "t < 1 / 2" using lo hi by (simp_all add: t_def)
  then have "\<bar>t\<bar> < 1 / 2" by (simp only: abs_less_iff) simp
  moreover have "sqrt 3 / pow2 (0 - 52) - of_int 7800463371553962 = t"
    by (simp add: t_def pow2_neg_numeral)
  ultimately have "\<bar>sqrt 3 / pow2 (0 - 52) - of_int 7800463371553962\<bar> < 1 / 2"
    by (simp only:)
  with 1 2 show ?thesis
    using toNumber_eqI [of 0 "sqrt 3" 7800463371553962] by (simp add: pow2_neg_numeral)
qed

lemma toNumber_square:
  "toNumber (7800463371553962 / 2 ^ 52 * (7800463371553962 / 2 ^ 52))
     = Finite (6755399441055743 / 2 ^ 51)"
  using toNumber_eqI [of 1 "7800463371553962 / 2 ^ 52 * (7800463371553962 / 2 ^ 52)"
      6755399441055743]
  by (simp add: pow2_neg_numeral pow2_numeral)

lemma toNumber_quotient:
  "toNumber (3 / (6755399441055743 / 2 ^ 51)) = Finite (1 + 1 / 2 ^ 52)"
  using toNumber_eqI [of 0 "3 / (6755399441055743 / 2 ^ 51)" 4503599627370497]
  by (simp add: pow2_neg_numeral)

lemma accumulate_ones:
  "accumulate [Finite 1, Finite 1, Finite 1] [Finite 1, Finite 1, Finite 1] (Suc (Suc (Suc 0)))
     = Finite 3"
  by (simp add: accumulate_Suc toNumber_1 toNumber_2 toNumber_3)

lemma cosine_of_ones:
  "cosineSimilarityIEEE [Finite 1, Finite 1, Finite 1] [Finite 1, Finite 1, Finite 1]
     = Inr (Finite (1 + 1 / 2 ^ 52))"
proof -
  define s :: real where "s = 7800463371553962 / 2 ^ 52"
  define p :: real where "p = 6755399441055743 / 2 ^ 51"
  have root: "number_sqrt (Finite 3) = Finite s"
    unfolding s_def by (simp add: toNumber_sqrt_3)
  have prod: "number_mul (Finite s) (Finite s) = Finite p"
    unfolding s_def p_def number_mul.simps by (rule toNumber_square)
  have p0: "p \<noteq> 0" by (simp add: p_def)
  have "toNumber (3 / p) = Finite (1 + 1 / 2 ^ 52)"
    unfolding p_def by (rule toNumber_quotient)
  then have quot: "number_div (Finite 3) (Finite p) = Inr (Finite (1 + 1 / 2 ^ 52))"
    using p0 by simp
  show ?thesis
    by (simp add: cosineSimilarityIEEE_def dotLoopIEEE_accumulate accumulate_ones root prod
        del: number_sqrt.simps number_mul.simps number_div.simps)
      (simp add: quot del: number_div.simps)
qed

text \<open>
  Counterexample to C3 as stated: for \<open>a = b = [1, 1, 1]\<close> the method returns
  \<open>1 + 2^-52\<close>, the double \<open>1.0000000000000002\<close>, which lies outside \<open>[-1, 1]\<close>.
  The square root of 3 is rounded down, its square is rounded to the double below 3, and
  the quotient of 3 by that double is rounded up.
\<close>

theorem cosine_of_ones_exceeds_one:
  "cosineSimilarityIEEE [Finite 1, Finite 1, Finite 1] [Finite 1, Finite 1, Finite 1]
     = Inr (Finite (1 + 1 / 2 ^ 52))
   \<and> \<not> (1 + 1 / 2 ^ 52 :: real) \<le> 1"
  by (simp add: cosine_of_ones)

text \<open>
  Claim C3 (fail-soft cosine), amended. For all vectors \<open>a\<close> and \<open>b\<close> of numbers,
  NaN and the infinities included, \<open>cosineSimilarity\<close> returns a number: it never
  fails, and in particular never divides by zero; the number is 0 whenever the lengths
  differ or one of the vectors consists of zeros only. For vectors of equal length at
  most \<open>2^20\<close> whose entries are zero or of magnitude between \<open>2^-500\<close> and
  \<open>2^500\<close>, the number is finite and of magnitude at most \<open>1 + 2^-29\<close>.
\<close>

theorem cosineSimilarityIEEE_safe:
  "(\<exists>r. cosineSimilarityIEEE a b = Inr r
        \<and> (length a \<noteq> length b \<or> list_all (\<lambda>x. x = Finite 0) a
             \<or> list_all (\<lambda>x. x = Finite 0) b \<longrightarrow> r = Finite 0))
   \<and> (length a = length b \<and> length a \<le> 2 ^ 20 \<and> list_all moderate a \<and> list_all moderate b
        \<longrightarrow> (\<exists>r. cosineSimilarityIEEE a b = Inr (Finite r) \<and> \<bar>r\<bar> \<le> 1 + 1 / 2 ^ 29))"
  using cosineSimilarityIEEE_total [of a b] cosineSimilarityIEEE_bound [of a b] by blast

text \<open>
  Witness for C3: a zero vector against a non-zero one gives 0, and the vector
  \<open>[1, 1, 1]\<close> against itself gives a finite number within the bound.
\<close>

theorem cosineSimilarityIEEE_safe_witness:
  "(\<exists>r. cosineSimilarityIEEE [Finite 3, Finite 4] [Finite 0, Finite 0] = Inr r \<and> r = Finite 0)
   \<and> (\<exists>r. cosineSimilarityIEEE [Finite 1, Finite 1, Finite 1] [Finite 1, Finite 1, Finite 1]
             = Inr (Finite r) \<and> \<bar>r\<bar> \<le> 1 + 1 / 2 ^ 29)"
  using cosineSimilarityIEEE_safe [of "[Finite 3, Finite 4]" "[Finite 0, Finite 0]"]
    cosineSimilarityIEEE_safe [of "[Finite 1, Finite 1, Finite 1]" "[Finite 1, Finite 1, Finite 1]"]
  by simp


section \<open>Ranking: totality, thresholds and lengths\<close>


lemma list_all_sortByScoreDesc: "list_all P (sortByScoreDesc rs) = list_all P rs"
  by (simp add: sortByScoreDesc_def list_all_iff)

lemma length_sortByScoreDesc: "length (sortByScoreDesc rs) = length rs"
  by (simp add: sortByScoreDesc_def)

lemma list_all_take: "list_all P xs \<Longrightarrow> list_all P (take n xs)"
  by (auto simp: list_all_iff dest: in_set_takeD)

lemma list_all_slice0: "list_all P xs \<Longrightarrow> list_all P (slice0 k xs)"
  by (simp add: slice0_def list_all_take)

lemma length_slice0: "0 \<le> k \<Longrightarrow> int (length (slice0 k xs)) \<le> k"
  by (simp add: slice0_def)

lemma list_all_filter_both: "list_all Q xs \<Longrightarrow> list_all (\<lambda>x. P x \<and> Q x) (filter P xs)"
  by (simp add: list_all_iff)

lemma percent_bounds:
  assumes "- 1 \<le> s" "s \<le> 1"
  shows "- 100 \<le> Math_round (s * 100)" "Math_round (s * 100) \<le> 100"
proof -
  have "Math_round (- 100) \<le> Math_round (s * 100)"
    using assms(1) by (intro Math_round_mono) simp
  moreover have "Math_round (- 100) = - 100"
    using Math_round_of_int [of "- 100"] by simp
  ultimately show "- 100 \<le> Math_round (s * 100)" by simp
  have "Math_round (s * 100) \<le> Math_round 100"
    using assms(2) by (intro Math_round_mono) simp
  then show "Math_round (s * 100) \<le> 100" by (simp add: Math_round_numeral)
qed

lemma vre_scoreLoop_total:
  "\<exists>scores. vre_scoreLoop fmt emb query qe pkgs = Inr scores
     \<and> list_all (\<lambda>r. score r \<le> 100) scores \<and> length scores \<le> length pkgs"
proof (induction pkgs)
  case Nil
  show ?case by simp
next
  case (Cons pkg pkgs)
  then obtain scores where ih: "vre_scoreLoop fmt emb query qe pkgs = Inr scores"
    "list_all (\<lambda>r. score r \<le> 100) scores" "length scores \<le> length pkgs" by blast
  show ?case
  proof (cases "emb (pkgId pkg)")
    case None
    with ih show ?thesis by simp
  next
    case (Some pe)
    obtain s where s: "cosineSimilarity qe pe = Inr s" "- 1 \<le> s" "s \<le> 1"
      using cosineSimilarity_cases [of qe pe] by blast
    with Some ih percent_bounds(2) [of s] show ?thesis by simp
  qed
qed

lemma fss_cosineSimilarity_total:
  "\<exists>s. fss_cosineSimilarity qe pe = Inr s \<and> - 1 \<le> s \<and> s \<le> 1"
proof (cases qe)
  case (Resolved v)
  then show ?thesis using cosineSimilarity_cases [of v pe] by (auto simp: fss_cosineSimilarity_def)
next
  case (Pending v)
  then show ?thesis by (simp add: fss_cosineSimilarity_def)
qed

lemma fss_scoreLoop_total:
  "\<exists>scores. fss_scoreLoop fmt emb query qe pkgs = Inr scores
     \<and> list_all (\<lambda>r. score r \<le> 100) scores \<and> length scores \<le> length pkgs"
proof (induction pkgs)
  case Nil
  show ?case by simp
next
  case (Cons pkg pkgs)
  then obtain scores where ih: "fss_scoreLoop fmt emb query qe pkgs = Inr scores"
    "list_all (\<lambda>r. score r \<le> 100) scores" "length scores \<le> length pkgs" by blast
  show ?case
  proof (cases "emb (pkgId pkg)")
    case None
    with ih show ?thesis by simp
  next
    case (Some pe)
    obtain s where s: "fss_cosineSimilarity qe pe = Inr s" "- 1 \<le> s" "s \<le> 1"
      using fss_cosineSimilarity_total [of qe pe] by blast
    with Some ih percent_bounds(2) [of s] show ?thesis by simp
  qed
qed

lemma vre_find_total:
  "\<exists>out. vre_findRecommendationsByQuery fmt eng query = Inr out
     \<and> list_all (\<lambda>r. 30 < score r \<and> score r \<le> 100) out \<and> length out \<le> 5"
proof -
  obtain scores where sc:
    "vre_scoreLoop fmt (vre_packageEmbeddings eng) query (vre_createQueryEmbedding query)
       (vre_packages eng) = Inr scores"
    "list_all (\<lambda>r. score r \<le> 100) scores"
    using vre_scoreLoop_total by blast
  have "list_all (\<lambda>r. 30 < score r \<and> score r \<le> 100)
          (take 5 (sortByScoreDesc (filter (\<lambda>item. 30 < score item) scores)))"
    using sc(2) by (intro list_all_take) (simp add: list_all_sortByScoreDesc list_all_filter_both)
  with sc(1) show ?thesis by (simp add: vre_findRecommendationsByQuery_def)
qed

lemma linearScan_total:
  "\<exists>out. linearScan fmt st qe query k = Inr out
     \<and> list_all (\<lambda>r. 30 < score r \<and> score r \<le> 100) out \<and> (0 \<le> k \<longrightarrow> int (length out) \<le> k)"
proof -
  obtain scores where sc:
    "fss_scoreLoop fmt (fss_packageEmbeddings st) query qe (fss_packages st) = Inr scores"
    "list_all (\<lambda>r. score r \<le> 100) scores"
    using fss_scoreLoop_total by blast
  have "list_all (\<lambda>r. 30 < score r \<and> score r \<le> 100)
          (slice0 k (sortByScoreDesc (filter (\<lambda>item. 30 < score item) scores)))"
    using sc(2) by (intro list_all_slice0) (simp add: list_all_sortByScoreDesc list_all_filter_both)
  with sc(1) show ?thesis by (simp add: linearScan_def length_slice0)
qed

lemma fallbackSearch_total:
  "\<exists>out. fallbackSearch fmt now st query k = Inr out
     \<and> list_all (\<lambda>r. 30 < score r \<and> score r \<le> 100) out \<and> (0 \<le> k \<longrightarrow> int (length out) \<le> k)"
  unfolding fallbackSearch_def by (rule linearScan_total)

lemma resultEntry_props:
  "list_all (\<lambda>r. 0 \<le> score r \<and> (similarity \<le> 1 \<longrightarrow> score r \<le> 100))
     (resultEntry fmt pkgs query label similarity)"
  "length (resultEntry fmt pkgs query label similarity) \<le> 1"
proof -
  have "0 \<le> Math_round (max 0 (similarity * 100))"
    using Math_round_mono [of 0 "max 0 (similarity * 100)"] by (simp add: Math_round_zero)
  moreover have "similarity \<le> 1 \<Longrightarrow> Math_round (max 0 (similarity * 100)) \<le> 100"
    using Math_round_mono [of "max 0 (similarity * 100)" 100] by (simp add: Math_round_numeral)
  ultimately show "list_all (\<lambda>r. 0 \<le> score r \<and> (similarity \<le> 1 \<longrightarrow> score r \<le> 100))
     (resultEntry fmt pkgs query label similarity)"
    by (simp add: resultEntry_def)
  show "length (resultEntry fmt pkgs query label similarity) \<le> 1"
    by (simp add: resultEntry_def)
qed

lemma length_concat_le:
  "list_all (\<lambda>x. length (f x) \<le> 1) xs \<Longrightarrow> length (concat (map f xs)) \<le> length xs"
proof (induction xs)
  case Nil
  show ?case by simp
next
  case (Cons x xs)
  then have "length (f x) \<le> 1" "length (concat (map f xs)) \<le> length xs" by simp_all
  then show ?case by simp
qed

lemma resultsLoop_length: "length (resultsLoop fmt pkgs query results) \<le> length (labels results)"
proof -
  have "length (concat (map (\<lambda>i. if i < length (distances results)
                       then resultEntry fmt pkgs query (labels results ! i) (distances results ! i)
                       else []) [0..<length (labels results)]))
        \<le> length [0..<length (labels results)]"
    using resultEntry_props(2) [of fmt pkgs query]
    by (intro length_concat_le) (simp add: list_all_iff)
  then show ?thesis by (simp add: resultsLoop_def)
qed

lemma resultsLoop_scores:
  "list_all (\<lambda>r. 0 \<le> score r) (resultsLoop fmt pkgs query results)"
  "list_all (\<lambda>d. d \<le> 1) (distances results)
     \<Longrightarrow> list_all (\<lambda>r. score r \<le> 100) (resultsLoop fmt pkgs query results)"
proof -
  show "list_all (\<lambda>r. 0 \<le> score r) (resultsLoop fmt pkgs query results)"
    using resultEntry_props(1) [of _ fmt pkgs query]
    by (auto simp: resultsLoop_def list_all_iff split: if_splits)
  assume d: "list_all (\<lambda>d. d \<le> 1) (distances results)"
  show "list_all (\<lambda>r. score r \<le> 100) (resultsLoop fmt pkgs query results)"
    using resultEntry_props(1) [of _ fmt pkgs query] d
    by (auto simp: resultsLoop_def list_all_iff split: if_splits)
qed


lemma indexPath_props:
  "list_all (\<lambda>r. 30 < score r) (filter (\<lambda>r. 30 < score r) (resultsLoop fmt pkgs query results))"
  "length (filter (\<lambda>r. 30 < score r) (resultsLoop fmt pkgs query results)) \<le> length (labels results)"
  "list_all (\<lambda>d. d \<le> 1) (distances results) \<Longrightarrow>
     list_all (\<lambda>r. score r \<le> 100) (filter (\<lambda>r. 30 < score r) (resultsLoop fmt pkgs query results))"
proof -
  show "list_all (\<lambda>r. 30 < score r) (filter (\<lambda>r. 30 < score r) (resultsLoop fmt pkgs query results))"
    by (simp add: list_all_iff)
  have "length (filter (\<lambda>r. 30 < score r) (resultsLoop fmt pkgs query results))
          \<le> length (resultsLoop fmt pkgs query results)"
    by (rule length_filter_le)
  then show "length (filter (\<lambda>r. 30 < score r) (resultsLoop fmt pkgs query results))
          \<le> length (labels results)"
    using resultsLoop_length [of fmt pkgs query results] by linarith
  assume "list_all (\<lambda>d. d \<le> 1) (distances results)"
  then have "list_all (\<lambda>r. score r \<le> 100) (resultsLoop fmt pkgs query results)"
    by (rule resultsLoop_scores(2))
  then show "list_all (\<lambda>r. score r \<le> 100)
      (filter (\<lambda>r. 30 < score r) (resultsLoop fmt pkgs query results))"
    by (simp add: list_all_iff)
qed

text \<open>The three ways through \<open>findRecommendationsByQuery\<close>.\<close>

lemma fss_find_cases:
  "fss_findRecommendationsByQuery faiss fmt now st query k = fallbackSearch fmt now st query k
   \<or> (\<exists>idx results. faissIndex st = Some idx \<and> isInitialized st
         \<and> index_search faiss idx (fss_createQueryEmbedding now query) k = Inr results
         \<and> fss_findRecommendationsByQuery faiss fmt now st query k
             = Inr (filter (\<lambda>r. 30 < score r) (resultsLoop fmt (fss_packages st) query results)))"
  by (auto simp: fss_findRecommendationsByQuery_def split: option.splits sum.splits)


text \<open>
  Claim C5 (K-bound). The attribute matcher and the vector engine return at most 5
  items. For \<open>k \<ge> 0\<close> the linear scan of the FAISS service, hence its
  \<open>fallbackSearch\<close>, returns at most \<open>k\<close> items, and so does \<open>findRecommendationsByQuery\<close>, given that a search of the index
  for \<open>k\<close> neighbours returns at most \<open>k\<close> labels: the index path passes \<open>k\<close> to
  the index and does not truncate afterwards.
\<close>

theorem at_most_k_items:
  assumes k: "0 \<le> k"
    and idx: "\<And>idx r. index_search faiss idx (fss_createQueryEmbedding now query) k = Inr r
                \<Longrightarrow> int (length (labels r)) \<le> k"
  shows "length (findRecommendations fmt pd pkgs prefs) \<le> 5
       \<and> (\<exists>out. vre_findRecommendationsByQuery fmt eng query = Inr out \<and> length out \<le> 5)
       \<and> (\<exists>out. linearScan fmt st queryEmbedding query k = Inr out \<and> int (length out) \<le> k)
       \<and> (\<exists>out. fallbackSearch fmt now st query k = Inr out \<and> int (length out) \<le> k)
       \<and> (\<exists>out. fss_findRecommendationsByQuery faiss fmt now st query k = Inr out
              \<and> int (length out) \<le> k)"
proof -
  have l: "\<exists>out. linearScan fmt st queryEmbedding query k = Inr out \<and> int (length out) \<le> k"
    using linearScan_total [of fmt st queryEmbedding query k] k by blast
  have a: "length (findRecommendations fmt pd pkgs prefs) \<le> 5"
    by (simp add: findRecommendations_def)
  have v: "\<exists>out. vre_findRecommendationsByQuery fmt eng query = Inr out \<and> length out \<le> 5"
    using vre_find_total [of fmt eng query] by blast
  have f: "\<exists>out. fallbackSearch fmt now st query k = Inr out \<and> int (length out) \<le> k"
    using fallbackSearch_total [of fmt now st query k] k by blast
  have i: "\<exists>out. fss_findRecommendationsByQuery faiss fmt now st query k = Inr out
              \<and> int (length out) \<le> k"
    using fss_find_cases [of faiss fmt now st query k]
  proof
    assume "fss_findRecommendationsByQuery faiss fmt now st query k = fallbackSearch fmt now st query k"
    with f show ?thesis by simp
  next
    assume "\<exists>idx results. faissIndex st = Some idx \<and> isInitialized st
         \<and> index_search faiss idx (fss_createQueryEmbedding now query) k = Inr results
         \<and> fss_findRecommendationsByQuery faiss fmt now st query k
             = Inr (filter (\<lambda>r. 30 < score r) (resultsLoop fmt (fss_packages st) query results))"
    then obtain idx' results where r:
      "index_search faiss idx' (fss_createQueryEmbedding now query) k = Inr results"
      "fss_findRecommendationsByQuery faiss fmt now st query k
             = Inr (filter (\<lambda>r. 30 < score r) (resultsLoop fmt (fss_packages st) query results))"
      by blast
    have "int (length (filter (\<lambda>r. 30 < score r) (resultsLoop fmt (fss_packages st) query results)))
            \<le> int (length (labels results))"
      using indexPath_props(2) [of fmt "fss_packages st" query results] by simp
    also have "\<dots> \<le> k" using idx [OF r(1)] .
    finally show ?thesis using r(2) by simp
  qed
  from a v l f i show ?thesis by blast
qed

text \<open>
  Witness for C5: the sample catalogue, \<open>k = 1\<close> and an index that answers with one
  label.
\<close>

theorem at_most_k_items_witness:
  "length (findRecommendations sampleFormat sampleParseDate [samplePackage1, samplePackage2]
             samplePreferences) \<le> 5
   \<and> (\<exists>out. vre_findRecommendationsByQuery sampleFormat
               (newVectorRecommendationEngine [samplePackage1, samplePackage2])
               ''VIP basketball tickets in New York for 4 people'' = Inr out \<and> length out \<le> 5)
   \<and> (\<exists>out. fss_findRecommendationsByQuery
               (stubFaiss (Inr \<lparr>labels = [0], distances = [9 / 10]\<rparr>)) sampleFormat sampleNow
               (sampleService (Inr (stubFaiss (Inr \<lparr>labels = [0], distances = [9 / 10]\<rparr>))))
               ''VIP basketball tickets in New York for 4 people'' 1 = Inr out
          \<and> int (length out) \<le> 1)"
proof -
  have k: "(0::int) \<le> 1" by simp
  have idx: "\<And>idx r. index_search (stubFaiss (Inr \<lparr>labels = [0], distances = [9 / 10]\<rparr>)) idx
                (fss_createQueryEmbedding sampleNow ''VIP basketball tickets in New York for 4 people'') 1
                = Inr r \<Longrightarrow> int (length (labels r)) \<le> 1"
    by (auto simp: stubFaiss_def)
  show ?thesis
    using k idx
      at_most_k_items [where k = 1
        and faiss = "stubFaiss (Inr \<lparr>labels = [0], distances = [9 / 10]\<rparr>)"
        and now = sampleNow and query = "''VIP basketball tickets in New York for 4 people''"
        and fmt = sampleFormat and pd = sampleParseDate
        and pkgs = "[samplePackage1, samplePackage2]" and prefs = samplePreferences
        and eng = "newVectorRecommendationEngine [samplePackage1, samplePackage2]"
        and st = "sampleService (Inr (stubFaiss (Inr \<lparr>labels = [0], distances = [9 / 10]\<rparr>)))"]
    by blast
qed


section \<open>The services on the sample catalogue\<close>

lemma sample_fields [simp]:
  "pkgId samplePackage1 = ''1''" "pkgId samplePackage2 = ''2''"
  "location samplePackage1 = ''New York''" "sportType samplePackage1 = ''Basketball''"
  "price samplePackage1 = 450" "hospitalityLevel samplePackage1 = ''Platinum''"
  "hospitalityType samplePackage1 = ''VIP Lounge''"
  by (simp_all add: samplePackage1_def samplePackage2_def)

lemma init_stub:
  "sampleService (Inr (stubFaiss a))
   = \<lparr>faissIndex = Some (), fss_packages = [samplePackage1, samplePackage2],
      fss_packageEmbeddings = [''1'' \<mapsto> fss_createPackageEmbedding sampleNow sampleEventDate samplePackage1,
          ''2'' \<mapsto> fss_createPackageEmbedding sampleNow sampleEventDate samplePackage2],
      isInitialized = True\<rparr>"
  by (simp add: sampleService_def initializeIndex_def stubFaiss_def newFAISSSearchService_def
      buildIndex_def generatePackageEmbeddings_def List.map_filter_simps Let_def)

lemma lower_query: "toLowerCase ''VIP basketball tickets in New York for 4 people'' = ''vip basketball tickets in new york for 4 people''"
  by (simp add: toLowerCase_def char_lower_def)

lemma lower_fields:
  "toLowerCase ''New York'' = ''new york''" "toLowerCase ''Basketball'' = ''basketball''"
  by (simp_all add: toLowerCase_def char_lower_def)

lemma reasons1: "fss_generateReasons sampleFormat ''VIP basketball tickets in New York for 4 people'' samplePackage1 (9 / 10)
  = [''Located in New York as requested'', ''Perfect for Basketball fans'',
                      ''Premium Platinum experience'', ''Includes VIP access and amenities'',
                      ''Excellent match for your preferences'']"
  by (simp add: fss_generateReasons_def matchReasons_def lower_query lower_fields)

lemma index_path_example:
  "fss_findRecommendationsByQuery
               (stubFaiss (Inr \<lparr>labels = [0], distances = [9 / 10]\<rparr>)) sampleFormat sampleNow
               (sampleService (Inr (stubFaiss (Inr \<lparr>labels = [0], distances = [9 / 10]\<rparr>))))
               ''VIP basketball tickets in New York for 4 people'' 1
   = Inr [\<lparr>package = samplePackage1, score = 90,
           reasons = [''Located in New York as requested'', ''Perfect for Basketball fans'',
                      ''Premium Platinum experience'', ''Includes VIP access and amenities'',
                      ''Excellent match for your preferences'']\<rparr>]"
  unfolding init_stub
  by (simp add: fss_findRecommendationsByQuery_def stubFaiss_def resultsLoop_def
      resultEntry_def Math_round_def reasons1)


section \<open>Index failures\<close>

text \<open>
  Claim C7 (index errors never surface). \<open>findRecommendationsByQuery\<close> always returns
  a list. When the index is not initialised or absent, and when the search of the index
  throws, the list is the result of \<open>fallbackSearch\<close>. An initialisation that fails at
  the import, at the construction of the index or while building it leaves the service
  not initialised.
\<close>

theorem index_errors_never_surface:
  "(\<exists>out. fss_findRecommendationsByQuery faiss fmt now st query k = Inr out)
   \<and> (\<not> isInitialized st \<or> faissIndex st = None \<longrightarrow>
        fss_findRecommendationsByQuery faiss fmt now st query k = fallbackSearch fmt now st query k)
   \<and> (faissIndex st = Some idx
        \<and> index_search faiss idx (fss_createQueryEmbedding now query) k = Inl e \<longrightarrow>
        fss_findRecommendationsByQuery faiss fmt now st query k = fallbackSearch fmt now st query k)
   \<and> (imported = Inl e \<longrightarrow> \<not> isInitialized (initializeIndex imported t0 ev st0))
   \<and> (imported = Inr lib \<and> IndexFlatIP lib embeddingDimension = Inl e \<longrightarrow>
        \<not> isInitialized (initializeIndex imported t0 ev st0))
   \<and> (imported = Inr lib \<and> IndexFlatIP lib embeddingDimension = Inr idx0
        \<and> buildIndex lib (st0\<lparr>faissIndex := Some idx0,
               fss_packageEmbeddings := generatePackageEmbeddings t0 ev (fss_packages st0)
                                          (fss_packageEmbeddings st0)\<rparr>) = Inl e \<longrightarrow>
        \<not> isInitialized (initializeIndex imported t0 ev st0))"
proof -
  have 1: "\<exists>out. fss_findRecommendationsByQuery faiss fmt now st query k = Inr out"
    using fss_find_cases [of faiss fmt now st query k] fallbackSearch_total [of fmt now st query k]
    by auto
  have 2: "\<not> isInitialized st \<or> faissIndex st = None \<longrightarrow>
        fss_findRecommendationsByQuery faiss fmt now st query k = fallbackSearch fmt now st query k"
    by (auto simp: fss_findRecommendationsByQuery_def split: option.splits)
  have 3: "faissIndex st = Some idx
        \<and> index_search faiss idx (fss_createQueryEmbedding now query) k = Inl e \<longrightarrow>
        fss_findRecommendationsByQuery faiss fmt now st query k = fallbackSearch fmt now st query k"
    by (auto simp: fss_findRecommendationsByQuery_def)
  have 4: "imported = Inl e \<longrightarrow> \<not> isInitialized (initializeIndex imported t0 ev st0)"
    by (simp add: initializeIndex_def)
  have 5: "imported = Inr lib \<and> IndexFlatIP lib embeddingDimension = Inl e \<longrightarrow>
        \<not> isInitialized (initializeIndex imported t0 ev st0)"
    by (simp add: initializeIndex_def)
  have 6: "imported = Inr lib \<and> IndexFlatIP lib embeddingDimension = Inr idx0
        \<and> buildIndex lib (st0\<lparr>faissIndex := Some idx0,
               fss_packageEmbeddings := generatePackageEmbeddings t0 ev (fss_packages st0)
                                          (fss_packageEmbeddings st0)\<rparr>) = Inl e \<longrightarrow>
        \<not> isInitialized (initializeIndex imported t0 ev st0)"
    by (simp add: initializeIndex_def Let_def)
  from 1 2 3 4 5 6 show ?thesis by blast
qed

text \<open>
  Since the similarity computed by \<open>fallbackSearch\<close> is 0 for every package, no score
  passes the threshold.
\<close>

lemma fallbackSearch_empty: "fallbackSearch fmt now st query k = Inr []"
proof -
  have "\<exists>scores. fss_scoreLoop fmt emb query (Pending v) pkgs = Inr scores
          \<and> list_all (\<lambda>r. score r = 0) scores" for emb v pkgs
    by (induction pkgs) (auto simp: fss_cosineSimilarity_def Math_round_zero split: option.splits)
  then obtain scores where
    "fss_scoreLoop fmt (fss_packageEmbeddings st) query (Pending (fss_createQueryEmbedding now query))
       (fss_packages st) = Inr scores" "list_all (\<lambda>r. score r = 0) scores"
    by blast
  moreover from this(2) have "filter (\<lambda>item. 30 < score item) scores = []"
    by (simp add: list_all_iff filter_empty_conv)
  ultimately show ?thesis
    by (simp add: fallbackSearch_def linearScan_def sortByScoreDesc_def slice0_def)
qed

text \<open>
  Witness for C7: on the sample catalogue, a failed import leaves the service not
  initialised and the query is answered by the fallback; with an index whose search
  throws, the service is initialised and the query is answered by the fallback as well.
\<close>

theorem index_errors_never_surface_witness:
  "\<not> isInitialized (sampleService (Inl (Error ''Cannot find package faiss-node'')))
   \<and> fss_findRecommendationsByQuery (stubFaiss (Inl (Error ''search failed''))) sampleFormat sampleNow
        (sampleService (Inl (Error ''Cannot find package faiss-node'')))
        ''VIP basketball tickets in New York for 4 people'' 5
      = fallbackSearch sampleFormat sampleNow
          (sampleService (Inl (Error ''Cannot find package faiss-node'')))
          ''VIP basketball tickets in New York for 4 people'' 5
   \<and> isInitialized (sampleService (Inr (stubFaiss (Inl (Error ''search failed'')))))
   \<and> fss_findRecommendationsByQuery (stubFaiss (Inl (Error ''search failed''))) sampleFormat sampleNow
        (sampleService (Inr (stubFaiss (Inl (Error ''search failed'')))))
        ''VIP basketball tickets in New York for 4 people'' 5
      = fallbackSearch sampleFormat sampleNow
          (sampleService (Inr (stubFaiss (Inl (Error ''search failed'')))))
          ''VIP basketball tickets in New York for 4 people'' 5"
proof -
  let ?q = "''VIP basketball tickets in New York for 4 people''"
  let ?st0 = "newFAISSSearchService [samplePackage1, samplePackage2] :: unit FAISSSearchService"
  let ?bad = "Inl (Error ''Cannot find package faiss-node'') :: js_error + unit faiss_node"
  let ?lib = "stubFaiss (Inl (Error ''search failed''))"
  note w1 = index_errors_never_surface [where faiss = ?lib and fmt = sampleFormat
        and now = sampleNow and st = "sampleService ?bad"
        and query = ?q and k = 5 and idx = "()" and e = "Error ''Cannot find package faiss-node''"
        and imported = ?bad and ?t0.0 = sampleNow and ev = sampleEventDate and ?st0.0 = ?st0
        and lib = ?lib and ?idx0.0 = "()"]
  note w2 = index_errors_never_surface [where faiss = ?lib and fmt = sampleFormat
        and now = sampleNow and st = "sampleService (Inr ?lib)"
        and query = ?q and k = 5 and idx = "()" and e = "Error ''search failed''"
        and imported = ?bad and ?t0.0 = sampleNow and ev = sampleEventDate and ?st0.0 = ?st0
        and lib = ?lib and ?idx0.0 = "()"]
  have a: "\<not> isInitialized (sampleService ?bad)"
    using w1 by (simp add: sampleService_def)
  have b: "fss_findRecommendationsByQuery ?lib sampleFormat sampleNow (sampleService ?bad) ?q 5
           = fallbackSearch sampleFormat sampleNow (sampleService ?bad) ?q 5"
    using a w1 by simp
  have s: "faissIndex (sampleService (Inr ?lib)) = Some ()"
    "isInitialized (sampleService (Inr ?lib))"
    "index_search ?lib () (fss_createQueryEmbedding sampleNow ?q) 5 = Inl (Error ''search failed'')"
    by (simp_all add: init_stub) (simp add: stubFaiss_def)
  have c: "fss_findRecommendationsByQuery ?lib sampleFormat sampleNow (sampleService (Inr ?lib)) ?q 5
           = fallbackSearch sampleFormat sampleNow (sampleService (Inr ?lib)) ?q 5"
    using s w2 by blast
  from a b c s(2) show ?thesis by simp
qed


section \<open>Score ranges\<close>







section \<open>Location encoders\<close>

text \<open>
  Claim C9 (encoder alignment) fails for the table entry Dallas. The catalogue path
  encodes \<open>Dallas\<close> as the fifth city. The query path scans its table in insertion
  order, and the alias \<open>la\<close> of Los Angeles, which precedes \<open>dallas\<close>, occurs inside
  \<open>dallas\<close>: the query path returns the encoding of Los Angeles.
\<close>

theorem dallas_encodings_differ:
  "encodeLocationWithProximity ''Dallas'' = [0, 0, 0, 0, 1, 0, 0, 0, 0.1, 0.6]
   \<and> fss_extractLocationFromQuery (toLowerCase ''Dallas'') = [0, 1, 0, 0, 0, 0, 0, 0, 0.2, 0.9]
   \<and> encodeLocationWithProximity ''Dallas'' \<noteq> fss_extractLocationFromQuery (toLowerCase ''Dallas'')"
  by (simp add: encodeLocationWithProximity_def fss_extractLocationFromQuery_def firstIncluded_def
      toLowerCase_def char_lower_def)

text \<open>
  The two paths agree on the other seven cities of the table.
\<close>

lemma other_cities_aligned:
  "list_all (\<lambda>city. encodeLocationWithProximity city = fss_extractLocationFromQuery (toLowerCase city))
     [''New York'', ''Los Angeles'', ''Boston'', ''Chicago'', ''San Francisco'', ''Denver'', ''Green Bay'']"
  by (simp add: encodeLocationWithProximity_def fss_extractLocationFromQuery_def firstIncluded_def
      toLowerCase_def char_lower_def)


section \<open>The index path on the sample catalogue\<close>

lemma sampleQuery_lower:
  "toLowerCase sampleQuery = ''vip basketball tickets in new york for 4 people''"
  by (simp add: sampleQuery_def toLowerCase_def char_lower_def)

lemma sample_group: "regexGroup [''people'', ''person'', ''group'', ''friends'', ''family'']
     ''vip basketball tickets in new york for 4 people'' = Some ''4''"
  by (simp add: matchHere_def isDigit_def isSpace_def)

lemma parseInt_4: "parseInt ''4'' = 4"
  by (simp add: parseInt_def digitValue_def)

lemma queryFeatures_sample:
  "queryFeatures t sampleQuery =
     [1, 0, 0, 0, 0, 0, 0, 0, 0.8, 0.3,
      1, 0, 0, 0, 0.9, 0.8, 0.7,
      1, 0, 0, 0, 1, ln 1001 / 10,
      1, 1, 0, 0, 0,
      0.5, 0, 0, 0,
      0.5, real (getMonth t) / 12, real (getDay t) / 7, 0, 0,
      0.4, 0, 0, 0,
      0, 0, 0, 0, 0, 0, 0,
      0, 0, 0, 0, 0]"
  by (simp add: queryFeatures_def sampleQuery_lower fss_extractLocationFromQuery_def
      fss_extractSportFromQuery_def extractPricePreferences_def extractHospitalityPreferences_def
      extractVenuePreferences_def extractDatePreferences_def extractGroupPreferences_def
      extractIntentFeatures_def extractSeatingPreferences_def firstIncluded_def sportFeatures_def
      flag_def sample_group parseInt_4 del: regexGroup.simps)

lemma packageFeatures_sample:
  "packageFeatures sampleNow sampleEventDate samplePackage1 =
     [1, 0, 0, 0, 0, 0, 0, 0, 0.8, 0.3,
      1, 0, 0, 0, 0.9, 0.8, 0.7,
      0.45, 0, 1, 0, 0, ln 451 / 10,
      1, 1, 0, 0, 0,
      1, 0, 0, 0,
      5 / 365, 2 / 12, 5 / 7, 1, 1,
      0.08, 0, 1, 0,
      0, 1, 1, 0, 0, 0, 0,
      0, 0, 0, 0, 0]"
  by (simp add: packageFeatures_def samplePackage1_def sampleNow_def sampleEventDate_def
      sampleDate1_def encodeLocationWithProximity_def encodeSportWithTeams_def
      encodePriceFeatures_def encodeHospitalityFeatures_def encodeHospitalityLevel_def
      encodeVenueFeatures_def
      encodeDateFeatures_def encodeAvailabilityFeatures_def encodeTextFeatures_def
      encodeSeatingFeatures_def Let_def sportFeatures_def firstIncluded_def flag_def
      toLowerCase_def char_lower_def)

lemma padToDimension_short:
  "length xs \<le> embeddingDimension
     \<Longrightarrow> padToDimension xs = xs @ replicate (embeddingDimension - length xs) 0"
  by (simp add: padToDimension_def)

lemma length_padToDimension: "length (padToDimension xs) = embeddingDimension"
  by (simp add: padToDimension_def)

lemma innerProduct_append:
  "length a = length b \<Longrightarrow> innerProduct (a @ c) (b @ d) = innerProduct a b + innerProduct c d"
  by (simp add: innerProduct_def)

lemma innerProduct_zeros: "innerProduct (replicate n 0) (replicate n 0) = 0"
  by (induction n) (simp_all add: innerProduct_def)

lemma innerProduct_padded:
  assumes "length a = length b" "length a \<le> embeddingDimension"
  shows "innerProduct (padToDimension a) (padToDimension b) = innerProduct a b"
  using assms
  by (simp add: padToDimension_short innerProduct_append innerProduct_zeros)

lemma chunks_one: "length xs = d \<Longrightarrow> chunks d (Suc 0) xs = [xs]"
  by simp

lemma sampleFlatService_eq:
  "sampleFlatService =
     \<lparr>faissIndex = Some \<lparr>dimension = embeddingDimension, vectors = [sampleEmbedding]\<rparr>,
      fss_packages = [samplePackage1],
      fss_packageEmbeddings = [pkgId samplePackage1 \<mapsto> sampleEmbedding],
      isInitialized = True\<rparr>"
proof -
  have len: "length sampleEmbedding = embeddingDimension"
    by (simp add: sampleEmbedding_def fss_createPackageEmbedding_def length_padToDimension)
  have pos: "embeddingDimension \<noteq> 0" by (simp add: embeddingDimension_def)
  have add: "flatAdd \<lparr>dimension = embeddingDimension, vectors = []\<rparr> sampleEmbedding
           = Inr \<lparr>dimension = embeddingDimension, vectors = [sampleEmbedding]\<rparr>"
    using len pos by (simp add: flatAdd_def)
  show ?thesis
    by (simp add: sampleFlatService_def initializeIndex_def flatIP_def newFAISSSearchService_def
        buildIndex_def generatePackageEmbeddings_def List.map_filter_simps Let_def
        sampleEmbedding_def [symmetric] add)
qed

lemma sampleProduct_eq:
  "sampleProduct t = 7652 / 1000 + 5 / 730 + ln 1001 * ln 451 / 100
                     + real (getMonth t) / 72 + 5 * real (getDay t) / 49"
proof -
  have "sampleProduct t
          = innerProduct (queryFeatures t sampleQuery)
              (packageFeatures sampleNow sampleEventDate samplePackage1)"
    unfolding sampleProduct_def sampleEmbedding_def fss_createQueryEmbedding_def
      fss_createPackageEmbedding_def
    by (rule innerProduct_padded)
       (simp_all add: queryFeatures_sample packageFeatures_sample embeddingDimension_def)
  also have "\<dots> = 7652 / 1000 + 5 / 730 + ln 1001 * ln 451 / 100
                     + real (getMonth t) / 72 + 5 * real (getDay t) / 49"
    by (simp add: queryFeatures_sample packageFeatures_sample innerProduct_def)
  finally show ?thesis .
qed

lemma flatSearch_sample:
  "flatSearch \<lparr>dimension = embeddingDimension, vectors = [sampleEmbedding]\<rparr>
     (fss_createQueryEmbedding t sampleQuery) 1
   = Inr \<lparr>labels = [0], distances = [sampleProduct t]\<rparr>"
  by (simp add: flatSearch_def sampleProduct_def)

lemma sampleProduct_lower: "7 \<le> sampleProduct t"
proof -
  have "0 \<le> ln (1001 :: real)" "0 \<le> ln (451 :: real)" by simp_all
  then have "0 \<le> ln 1001 * ln (451 :: real) / 100" by simp
  moreover have "0 \<le> real (getMonth t) / 72" "0 \<le> 5 * real (getDay t) / 49" by simp_all
  ultimately show ?thesis unfolding sampleProduct_eq by linarith
qed

lemma sampleScore_passes: "30 < Math_round (max 0 (sampleProduct t * 100))"
proof -
  have "Math_round 700 \<le> Math_round (max 0 (sampleProduct t * 100))"
    using sampleProduct_lower [of t] by (intro Math_round_mono) simp
  then show ?thesis by (simp add: Math_round_numeral)
qed

lemma sample_output:
  "fss_findRecommendationsByQuery flatIP fmt t sampleFlatService sampleQuery 1
   = Inr [\<lparr>package = samplePackage1,
           score = Math_round (max 0 (sampleProduct t * 100)),
           reasons = fss_generateReasons fmt sampleQuery samplePackage1 (sampleProduct t)\<rparr>]"
  unfolding sampleFlatService_eq
  by (simp add: fss_findRecommendationsByQuery_def flatIP_def flatSearch_sample resultsLoop_def
      resultEntry_def sampleScore_passes)

lemma sampleProduct_later: "sampleProduct sampleLater = sampleProduct sampleNow + 30 / 49"
  by (simp add: sampleProduct_eq sampleNow_def sampleLater_def)

lemma sampleScore_later:
  "Math_round (max 0 (sampleProduct sampleNow * 100)) + 61
     \<le> Math_round (max 0 (sampleProduct sampleLater * 100))"
proof -
  have pos: "0 \<le> sampleProduct sampleNow * 100" "0 \<le> sampleProduct sampleLater * 100"
    using sampleProduct_lower [of sampleNow] sampleProduct_lower [of sampleLater] by simp_all
  have "Math_round (sampleProduct sampleNow * 100) + 61
          = Math_round (sampleProduct sampleNow * 100 + of_int 61)"
    by (simp only: Math_round_add_int)
  also have "\<dots> \<le> Math_round (sampleProduct sampleLater * 100)"
    by (rule Math_round_mono) (simp add: sampleProduct_later)
  finally show ?thesis using pos by (simp add: max_def)
qed

text \<open>
  The service over the first sample package, with the flat inner-product index, answers
  the same query with the same \<open>k\<close> differently on a Sunday and on the following
  Saturday. The query vector encodes the weekday of the clock, and the score grows by at
  least 61.
\<close>

lemma ranking_differs_between_weekdays:
  "fss_findRecommendationsByQuery flatIP sampleFormat sampleNow sampleFlatService sampleQuery 1
     \<noteq> fss_findRecommendationsByQuery flatIP sampleFormat sampleLater sampleFlatService sampleQuery 1"
  using sampleScore_later by (simp add: sample_output)

lemma extractDatePreferences_clock:
  "getMonth now1 = getMonth now2 \<Longrightarrow> getDay now1 = getDay now2
     \<Longrightarrow> extractDatePreferences now1 q = extractDatePreferences now2 q"
  by (simp add: extractDatePreferences_def)

lemma fss_createQueryEmbedding_clock:
  "getMonth now1 = getMonth now2 \<Longrightarrow> getDay now1 = getDay now2
     \<Longrightarrow> fss_createQueryEmbedding now1 q = fss_createQueryEmbedding now2 q"
  by (simp add: fss_createQueryEmbedding_def queryFeatures_def Let_def
      extractDatePreferences_clock [of now1 now2])


section \<open>Scenarios on the sample catalogue\<close>

lemma Math_round_eqI:
  assumes "of_int n - 1 / 2 \<le> x" "x < of_int n + 1 / 2"
  shows "Math_round x = n"
  unfolding Math_round_def using assms by (intro floor_unique) simp_all

text \<open>
  The percentage of a cosine \<open>d / (sqrt A * sqrt B)\<close> rounds to \<open>n\<close> when
  \<open>200 d\<close> lies between \<open>(2n - 1) sqrt (A B)\<close> and \<open>(2n + 1) sqrt (A B)\<close>.
\<close>

lemma percent_of_cosine:
  fixes d A B :: real
  assumes "0 < A" "0 < B" "0 \<le> d" "0 < n"
    and lo: "(of_int (2 * n - 1))\<^sup>2 * (A * B) \<le> (200 * d)\<^sup>2"
    and hi: "(200 * d)\<^sup>2 < (of_int (2 * n + 1))\<^sup>2 * (A * B)"
  shows "Math_round (d / (sqrt A * sqrt B) * 100) = n"
proof -
  define S where "S = sqrt (A * B)"
  have S: "0 < S" using assms(1,2) by (simp add: S_def)
  have SS: "S\<^sup>2 = A * B" using assms(1,2) by (simp add: S_def)
  have n2: "0 \<le> (of_int (2 * n + 1) :: real) * S" using assms(4) S by simp
  have d0: "0 \<le> 200 * d" using assms(3) by simp
  have "(of_int (2 * n - 1) * S)\<^sup>2 = (of_int (2 * n - 1))\<^sup>2 * (A * B)"
    "(of_int (2 * n + 1) * S)\<^sup>2 = (of_int (2 * n + 1))\<^sup>2 * (A * B)"
    by (simp_all only: power_mult_distrib SS)
  note sq = this
  have "(of_int (2 * n - 1) * S)\<^sup>2 \<le> (200 * d)\<^sup>2"
    unfolding sq by (rule lo)
  then have a: "of_int (2 * n - 1) * S \<le> 200 * d"
    using d0 by (rule power2_le_imp_le)
  have "(200 * d)\<^sup>2 < (of_int (2 * n + 1) * S)\<^sup>2"
    unfolding sq by (rule hi)
  then have b: "200 * d < of_int (2 * n + 1) * S"
    using n2 by (rule power2_less_imp_less)
  have "(of_int n - 1 / 2) * S \<le> 100 * d"
    using a by (simp add: algebra_simps)
  then have 1: "of_int n - 1 / 2 \<le> d / S * 100"
    using S by (simp add: pos_le_divide_eq mult.commute)
  have "100 * d < (of_int n + 1 / 2) * S"
    using b by (simp add: algebra_simps)
  then have 2: "d / S * 100 < of_int n + 1 / 2"
    using S by (simp add: pos_divide_less_eq mult.commute)
  from 1 2 have "Math_round (d / S * 100) = n" by (rule Math_round_eqI)
  then show ?thesis by (simp add: S_def real_sqrt_mult)
qed

lemma dotLoop_sum_list:
  assumes "length a = length b"
  shows "dotLoop a b = (sum_list (map2 (*) a b), sum_list (map (\<lambda>x. x * x) a),
                        sum_list (map (\<lambda>x. x * x) b))"
proof -
  have 1: "sum_list (map2 (*) a b) = (\<Sum>i<length a. a ! i * b ! i)"
    using assms by (simp add: sum_list_sum_nth atLeast0LessThan)
  have 2: "sum_list (map (\<lambda>x. x * x) a) = (\<Sum>i<length a. a ! i * a ! i)"
    by (simp add: sum_list_sum_nth atLeast0LessThan)
  have 3: "sum_list (map (\<lambda>x. x * x) b) = (\<Sum>i<length a. b ! i * b ! i)"
    using assms by (simp add: sum_list_sum_nth atLeast0LessThan)
  show ?thesis by (simp add: dotLoop_sums 1 2 3)
qed

lemma sampleEngine_eq:
  "sampleEngine =
     \<lparr>vre_packages = [samplePackage1, samplePackage2],
      vre_packageEmbeddings =
        [''1'' \<mapsto> vre_createPackageEmbedding samplePackage1,
         ''2'' \<mapsto> vre_createPackageEmbedding samplePackage2]\<rparr>"
  by (simp add: sampleEngine_def newVectorRecommendationEngine_def initializeEmbeddings_def)

lemma vre_package_samples:
  "vre_createPackageEmbedding samplePackage1
     = [1, 0, 0, 0, 0, 0, 0, 0, 1, 0, 0, 0, 0.45, 1, 1, 0.5, 0.16]"
  "vre_createPackageEmbedding samplePackage2
     = [0, 1, 0, 0, 0, 0, 0, 0, 1, 0, 0, 0, 0.28, 0.75, 1, 0.5, 0.24]"
  by (simp_all add: vre_createPackageEmbedding_def encodeLocation_def encodeSport_def
      encodeHospitalityLevel_def encodeVenuePrestige_def samplePackage1_def samplePackage2_def
      toLowerCase_def char_lower_def)

lemma sample_group_vre:
  "regexGroup [''people'', ''person'', ''group'', ''friends'']
     ''vip basketball tickets in new york for 4 people'' = Some ''4''"
  by (simp add: matchHere_def isDigit_def isSpace_def)

lemma vre_query_sample:
  "vre_createQueryEmbedding sampleQuery
     = [1, 0, 0, 0, 0, 0, 0, 0, 1, 0, 0, 0, 1, 1, 0.5, 0.5, 0.4]"
  by (simp add: vre_createQueryEmbedding_def sampleQuery_lower vre_extractLocationFromQuery_def
      vre_extractSportFromQuery_def extractPricePreferenceFromQuery_def
      extractHospitalityFromQuery_def extractGroupSizeInfluence_def sample_group_vre parseInt_4
      del: regexGroup.simps)

lemma sample_similarities:
  "cosineSimilarity (vre_createQueryEmbedding sampleQuery)
     (vre_createPackageEmbedding samplePackage1) = Inr sampleSimilarity1"
  "cosineSimilarity (vre_createQueryEmbedding sampleQuery)
     (vre_createPackageEmbedding samplePackage2) = Inr sampleSimilarity2"
  by (simp_all add: vre_query_sample vre_package_samples cosineSimilarity_def dotLoop_sum_list
      js_divide_def sampleSimilarity1_def sampleSimilarity2_def)

lemma sample_percents:
  "Math_round (sampleSimilarity1 * 100) = 93"
  "Math_round (sampleSimilarity2 * 100) = 67"
  unfolding sampleSimilarity1_def sampleSimilarity2_def
  by (rule percent_of_cosine; simp add: power2_eq_square)+

lemma sample_excellent: "8 / 10 < sampleSimilarity1" "\<not> 8 / 10 < sampleSimilarity2"
proof -
  have s1: "sqrt (466 / 100) * sqrt (44781 / 10000) < (533 / 100 :: real)"
    unfolding real_sqrt_mult [symmetric]
    by (rule real_less_lsqrt) (simp_all add: power2_eq_square)
  have p1: "(0 :: real) < sqrt (466 / 100) * sqrt (44781 / 10000)" by simp
  show "8 / 10 < sampleSimilarity1"
    unfolding sampleSimilarity1_def using s1 p1 by (simp add: pos_less_divide_eq)
  have s2: "(3595 / 1000 :: real) \<le> sqrt (466 / 100) * sqrt (39485 / 10000)"
    unfolding real_sqrt_mult [symmetric]
    by (rule real_le_rsqrt) (simp add: power2_eq_square)
  have p2: "(0 :: real) < sqrt (466 / 100) * sqrt (39485 / 10000)" by simp
  show "\<not> 8 / 10 < sampleSimilarity2"
    unfolding sampleSimilarity2_def using s2 p2 by (simp add: pos_less_divide_eq not_less)
qed

lemma vre_reasons_sample:
  "vre_generateReasons sampleFormat sampleQuery samplePackage1 sampleSimilarity1
     = [''Located in New York as requested'', ''Perfect for Basketball fans'',
        ''Premium Platinum experience'', ''Includes VIP access and amenities'',
        ''Excellent match for your preferences'']"
  "vre_generateReasons sampleFormat sampleQuery samplePackage2 sampleSimilarity2
     = [''Perfect for Basketball fans'', ''Premium Gold experience'']"
proof -
  have low: "toLowerCase ''New York'' = ''new york''" "toLowerCase ''Basketball'' = ''basketball''"
    "toLowerCase ''Los Angeles'' = ''los angeles''"
    by (simp_all add: toLowerCase_def char_lower_def)
  have m1: "matchReasons sampleFormat sampleQuery samplePackage1
     = [''Located in New York as requested'', ''Perfect for Basketball fans'',
        ''Premium Platinum experience'', ''Includes VIP access and amenities'']"
    by (simp add: matchReasons_def sampleQuery_lower samplePackage1_def low)
  have m2: "matchReasons sampleFormat sampleQuery samplePackage2
     = [''Perfect for Basketball fans'', ''Premium Gold experience'']"
    by (simp add: matchReasons_def sampleQuery_lower samplePackage2_def low)
  show "vre_generateReasons sampleFormat sampleQuery samplePackage1 sampleSimilarity1
     = [''Located in New York as requested'', ''Perfect for Basketball fans'',
        ''Premium Platinum experience'', ''Includes VIP access and amenities'',
        ''Excellent match for your preferences'']"
    using sample_excellent(1) by (simp add: vre_generateReasons_def m1)
  show "vre_generateReasons sampleFormat sampleQuery samplePackage2 sampleSimilarity2
     = [''Perfect for Basketball fans'', ''Premium Gold experience'']"
    using sample_excellent(2) by (simp add: vre_generateReasons_def m2)
qed

text \<open>
  The first scenario of the specification: the vector engine ranks the New York
  package (93) above the Los Angeles package (67), with a location and a VIP reason
  for the first.
\<close>

lemma vre_example:
  "vre_findRecommendationsByQuery sampleFormat sampleEngine sampleQuery
     = Inr [\<lparr>package = samplePackage1, score = 93,
             reasons = [''Located in New York as requested'', ''Perfect for Basketball fans'',
                        ''Premium Platinum experience'', ''Includes VIP access and amenities'',
                        ''Excellent match for your preferences'']\<rparr>,
            \<lparr>package = samplePackage2, score = 67,
             reasons = [''Perfect for Basketball fans'', ''Premium Gold experience'']\<rparr>]"
proof -
  have ids: "pkgId samplePackage1 = ''1''" "pkgId samplePackage2 = ''2''"
    by (simp_all add: samplePackage1_def samplePackage2_def)
  show ?thesis
    unfolding sampleEngine_eq
    by (simp add: vre_findRecommendationsByQuery_def ids sample_similarities sample_percents
        vre_reasons_sample sortByScoreDesc_def)
qed

text \<open>
  Two scenarios of the specification for the attribute matcher: a sport that no
  package offers gives an empty result; of two packages that differ in price only, the
  one within the budget is returned and the one above it is not.
\<close>

lemma scenario_no_baseball:
  "findRecommendations sampleFormat sampleParseDate [samplePackage1, samplePackage2]
     (noPreferences\<lparr>pref_sport := Some ''Baseball''\<rparr>) = []"
proof -
  have low: "toLowerCase ''Basketball'' = ''basketball''" "toLowerCase ''Baseball'' = ''baseball''"
    by (simp_all add: toLowerCase_def char_lower_def)
  have "calculateScore sampleParseDate samplePackage1 (noPreferences\<lparr>pref_sport := Some ''Baseball''\<rparr>) = 0"
    "calculateScore sampleParseDate samplePackage2 (noPreferences\<lparr>pref_sport := Some ''Baseball''\<rparr>) = 0"
    by (simp_all add: calculateScore_def locationTerm_def sportTerm_def hospitalityTerm_def
        dateTerm_def peopleTerm_def budgetTerm_def prefMatches_def noPreferences_def
        samplePackage1_def samplePackage2_def low Math_round_def)
  then show ?thesis
    by (simp add: findRecommendations_def sortByScoreDesc_def)
qed

lemma scenario_budget:
  "map (\<lambda>r. (price (package r), score r))
     (findRecommendations sampleFormat sampleParseDate
        [samplePackage1\<lparr>price := 900\<rparr>, samplePackage1\<lparr>price := 100\<rparr>]
        (noPreferences\<lparr>pref_budget := Some \<lparr>bmin = 0, bmax = 200\<rparr>\<rparr>))
   = [(100, 20)]"
proof -
  have "calculateScore sampleParseDate (samplePackage1\<lparr>price := 900\<rparr>)
          (noPreferences\<lparr>pref_budget := Some \<lparr>bmin = 0, bmax = 200\<rparr>\<rparr>) = 0"
    "calculateScore sampleParseDate (samplePackage1\<lparr>price := 100\<rparr>)
          (noPreferences\<lparr>pref_budget := Some \<lparr>bmin = 0, bmax = 200\<rparr>\<rparr>) = 20"
    by (simp_all add: calculateScore_def locationTerm_def sportTerm_def hospitalityTerm_def
        dateTerm_def peopleTerm_def budgetTerm_def noPreferences_def Math_round_def)
  then show ?thesis
    by (simp add: findRecommendations_def sortByScoreDesc_def)
qed

text \<open>
  On the index path with the flat inner-product index the sample query scores at least
  700: the inner product of unnormalised vectors is not bounded by 1.
\<close>

lemma index_path_score_above_100:
  "\<exists>r. fss_findRecommendationsByQuery flatIP sampleFormat sampleNow sampleFlatService sampleQuery 1
          = Inr [r] \<and> package r = samplePackage1 \<and> 700 \<le> score r"
proof -
  have "Math_round 700 \<le> Math_round (max 0 (sampleProduct sampleNow * 100))"
    using sampleProduct_lower [of sampleNow] by (intro Math_round_mono) simp
  then show ?thesis by (simp add: sample_output Math_round_numeral)
qed


text \<open>
  Witness for C10: against the first sample package, setting the location or a target
  date does not lower the score.
\<close>

theorem calculateScore_monotone_witness:
  "calculateScore sampleParseDate samplePackage1 (samplePreferences\<lparr>pref_location := None\<rparr>)
     \<le> calculateScore sampleParseDate samplePackage1 (samplePreferences\<lparr>pref_location := Some ''New York''\<rparr>)
   \<and> calculateScore sampleParseDate samplePackage1 (samplePreferences\<lparr>pref_date := None\<rparr>)
     \<le> calculateScore sampleParseDate samplePackage1 (samplePreferences\<lparr>pref_date := Some ''2024-03-20''\<rparr>)
   \<and> 0 \<le> dateTerm sampleParseDate samplePackage1 samplePreferences"
  using calculateScore_monotone [of sampleParseDate samplePackage1 samplePreferences
      "''New York''" "''basketball''" "''VIP''" "''2024-03-20''" 4 "\<lparr>bmin = 0, bmax = 500\<rparr>"]
  by simp


section \<open>Determinism\<close>

lemma engineAfter_complete:
  "engineAfter (length pkgs) pkgs = newVectorRecommendationEngine pkgs"
  by (simp add: engineAfter_def newVectorRecommendationEngine_def)

lemma engineAfter_min: "engineAfter j pkgs = engineAfter (min j (length pkgs)) pkgs"
  by (simp add: engineAfter_def min_def)

text \<open>
  The vector engine over the sample catalogue when one iteration of the embedding loop
  has completed: the second package has no embedding yet and is skipped.
\<close>

lemma vre_first_only:
  "vre_findRecommendationsByQuery sampleFormat (engineAfter 1 [samplePackage1, samplePackage2])
     sampleQuery
     = Inr [\<lparr>package = samplePackage1, score = 93,
             reasons = [''Located in New York as requested'', ''Perfect for Basketball fans'',
                        ''Premium Platinum experience'', ''Includes VIP access and amenities'',
                        ''Excellent match for your preferences'']\<rparr>]"
proof -
  have ids: "pkgId samplePackage1 = ''1''" "pkgId samplePackage2 = ''2''"
    by (simp_all add: samplePackage1_def samplePackage2_def)
  show ?thesis
    by (simp add: engineAfter_def initializeEmbeddings_def vre_findRecommendationsByQuery_def ids
        sample_similarities sample_percents vre_reasons_sample sortByScoreDesc_def)
qed

text \<open>
  Counterexample to C2 as stated: the vector engine over the sample catalogue answers
  the sample query with the first package only when one iteration of the embedding loop
  has completed, and with both packages when the loop has finished. The constructor
  does not await the loop, so a first call right after construction and a later call
  with the same arguments find these two states.
\<close>

theorem ranking_differs_during_initialization:
  "rankByQuery \<lparr>env_clock = sampleNow, env_iterations = 1\<rparr> sampleFormat
       [samplePackage1, samplePackage2] sampleQuery
     \<noteq> rankByQuery \<lparr>env_clock = sampleNow, env_iterations = 2\<rparr> sampleFormat
         [samplePackage1, samplePackage2] sampleQuery"
proof -
  have "engineAfter 2 [samplePackage1, samplePackage2] = sampleEngine"
    using engineAfter_complete [of "[samplePackage1, samplePackage2]"]
    by (simp add: sampleEngine_def numeral_2_eq_2)
  then show ?thesis
    by (simp only: rankByQuery_def environment.select_convs vre_first_only vre_example) simp
qed

text \<open>An uninitialised FAISS service answers every call with the empty fallback result.\<close>

lemma fss_uninitialized:
  "uninitialized st \<Longrightarrow> fss_findRecommendationsByQuery faiss fmt now st query k = Inr []"
  by (auto simp: uninitialized_def fss_findRecommendationsByQuery_def fallbackSearch_empty
      split: option.splits)

text \<open>
  Claim C2, amended. For a fixed catalogue and fixed arguments, two calls of a ranking
  operation in environments \<open>env1\<close> and \<open>env2\<close> return the same output under these
  conditions. \<open>RecommendationEngine.findRecommendations\<close>: always.
  \<open>VectorRecommendationEngine.findRecommendationsByQuery\<close>: when the embedding loop of
  the constructor has completed the same number of iterations, counted up to the size
  of the catalogue, before both calls; in particular when it has finished before both.
  \<open>FAISSSearchService.findRecommendationsByQuery\<close>: when both calls find the service
  in the same state and the clock shows the same month and the same weekday, and also
  when both calls find the service uninitialised, in whatever states and at whatever
  clock readings. The linear scan over the query embedding: for the same state, month
  and weekday. \<open>fallbackSearch\<close>: for the same state at any two clock readings.
\<close>

theorem identical_output_in_equal_environments:
  "rankByPreferences env1 fmt parseDate catalog prefs
     = rankByPreferences env2 fmt parseDate catalog prefs
   \<and> (min (env_iterations env1) (length catalog) = min (env_iterations env2) (length catalog) \<longrightarrow>
        rankByQuery env1 fmt catalog query = rankByQuery env2 fmt catalog query)
   \<and> (length catalog \<le> env_iterations env1 \<and> length catalog \<le> env_iterations env2 \<longrightarrow>
        rankByQuery env1 fmt catalog query = rankByQuery env2 fmt catalog query)
   \<and> (getMonth (env_clock env1) = getMonth (env_clock env2)
        \<and> getDay (env_clock env1) = getDay (env_clock env2) \<longrightarrow>
        rankByIndex env1 faiss fmt st query k = rankByIndex env2 faiss fmt st query k)
   \<and> (uninitialized st1 \<and> uninitialized st2 \<longrightarrow>
        rankByIndex env1 faiss fmt st1 query k = rankByIndex env2 faiss fmt st2 query k)
   \<and> (getMonth (env_clock env1) = getMonth (env_clock env2)
        \<and> getDay (env_clock env1) = getDay (env_clock env2) \<longrightarrow>
        linearScan fmt st (Resolved (fss_createQueryEmbedding (env_clock env1) query)) query k
          = linearScan fmt st (Resolved (fss_createQueryEmbedding (env_clock env2) query)) query k)
   \<and> fallbackSearch fmt (env_clock env1) st query k = fallbackSearch fmt (env_clock env2) st query k"
proof -
  have 1: "rankByPreferences env1 fmt parseDate catalog prefs
     = rankByPreferences env2 fmt parseDate catalog prefs"
    by (simp add: rankByPreferences_def)
  have 2: "rankByQuery env1 fmt catalog query = rankByQuery env2 fmt catalog query"
    if "min (env_iterations env1) (length catalog) = min (env_iterations env2) (length catalog)"
    using that engineAfter_min [of "env_iterations env1" catalog]
      engineAfter_min [of "env_iterations env2" catalog]
    by (simp add: rankByQuery_def)
  have finished: "rankByQuery env1 fmt catalog query = rankByQuery env2 fmt catalog query"
    if "length catalog \<le> env_iterations env1" "length catalog \<le> env_iterations env2"
    using that by (intro 2) (simp add: min_def)
  have fb: "fallbackSearch fmt (env_clock env1) st query k
              = fallbackSearch fmt (env_clock env2) st query k"
    by (simp add: fallbackSearch_empty)
  have 3: "rankByIndex env1 faiss fmt st query k = rankByIndex env2 faiss fmt st query k"
    if "getMonth (env_clock env1) = getMonth (env_clock env2)"
       "getDay (env_clock env1) = getDay (env_clock env2)"
    using fss_createQueryEmbedding_clock [OF that, of query] fb
    by (auto simp: rankByIndex_def fss_findRecommendationsByQuery_def
        split: option.splits sum.splits)
  have 4: "rankByIndex env1 faiss fmt st1 query k = rankByIndex env2 faiss fmt st2 query k"
    if "uninitialized st1" "uninitialized st2"
    using that by (simp add: rankByIndex_def fss_uninitialized)
  have 5: "linearScan fmt st (Resolved (fss_createQueryEmbedding (env_clock env1) query)) query k
          = linearScan fmt st (Resolved (fss_createQueryEmbedding (env_clock env2) query)) query k"
    if "getMonth (env_clock env1) = getMonth (env_clock env2)"
       "getDay (env_clock env1) = getDay (env_clock env2)"
    using fss_createQueryEmbedding_clock [OF that, of query] by simp
  from 1 2 finished 3 4 5 fb show ?thesis by blast
qed

text \<open>
  Witness for C2: two calls after the embedding loop has finished, an hour apart on the
  same day, against the vector engine and against the initialised FAISS service over the
  sample catalogue; and two calls on different days against a FAISS service that has
  not been initialised.
\<close>

theorem identical_output_in_equal_environments_witness:
  "rankByQuery \<lparr>env_clock = sampleNow, env_iterations = 2\<rparr> sampleFormat
       [samplePackage1, samplePackage2] sampleQuery
     = rankByQuery \<lparr>env_clock = sampleNow\<lparr>getTime := 1710032400000\<rparr>, env_iterations = 3\<rparr>
         sampleFormat [samplePackage1, samplePackage2] sampleQuery
   \<and> rankByIndex \<lparr>env_clock = sampleNow, env_iterations = 2\<rparr> flatIP sampleFormat
       sampleFlatService sampleQuery 1
     = rankByIndex \<lparr>env_clock = sampleNow\<lparr>getTime := 1710032400000\<rparr>, env_iterations = 3\<rparr>
         flatIP sampleFormat sampleFlatService sampleQuery 1
   \<and> rankByIndex \<lparr>env_clock = sampleNow, env_iterations = 0\<rparr> flatIP sampleFormat
       (newFAISSSearchService [samplePackage1]) sampleQuery 1
     = rankByIndex \<lparr>env_clock = sampleLater, env_iterations = 1\<rparr> flatIP sampleFormat
         (newFAISSSearchService [samplePackage1]) sampleQuery 1
   \<and> sampleNow \<noteq> sampleNow\<lparr>getTime := 1710032400000\<rparr>"
  using identical_output_in_equal_environments [where
      ?env1.0 = "\<lparr>env_clock = sampleNow, env_iterations = 2\<rparr>"
      and ?env2.0 = "\<lparr>env_clock = sampleNow\<lparr>getTime := 1710032400000\<rparr>, env_iterations = 3\<rparr>"
      and catalog = "[samplePackage1, samplePackage2]" and query = sampleQuery
      and faiss = flatIP and fmt = sampleFormat and st = sampleFlatService and k = 1]
    identical_output_in_equal_environments [where
      ?env1.0 = "\<lparr>env_clock = sampleNow, env_iterations = 0\<rparr>"
      and ?env2.0 = "\<lparr>env_clock = sampleLater, env_iterations = 1\<rparr>"
      and faiss = flatIP and fmt = sampleFormat and query = sampleQuery and k = 1
      and ?st1.0 = "newFAISSSearchService [samplePackage1]"
      and ?st2.0 = "newFAISSSearchService [samplePackage1]"]
  by (simp add: sampleNow_def uninitialized_def newFAISSSearchService_def)

end
